theory Spec2Isabelle
  imports Complex_Main "HOL-Library.Monad_Syntax"
begin

section \<open>Python runtime: exceptions, strings, numbers\<close>

text \<open>
  The readers of \<^verbatim>\<open>vaspio.py\<close> are modelled as functions from the text of a file to
  either the exception the Python raises or the object it builds. A file is the list of
  its lines as Python yields them (each with its newline; a line of a real file is
  never the empty string). Text is ASCII. A Python \<^verbatim>\<open>float\<close> is the \<^typ>\<open>real\<close>
  it stands for; infinities and NaN are not modelled. The builtin \<^verbatim>\<open>float()\<close> is a
  parameter \<open>fl\<close> of every reader (\<open>None\<close> where it raises ValueError), so each
  theorem holds whatever strings \<^verbatim>\<open>float()\<close> accepts. The division of the k-point
  weights is a parameter \<open>dv\<close> of the IBZKPT reader, so what is proved of the weights
  holds for the rounded division of float64 as for the exact one; the arithmetic of the
  POSCAR reader is exact.
\<close>

datatype exn =
    IOError
  | StopIteration
  | ValueError
  | IndexError
  | AttributeError
  | NameError
  | LinAlgError
  | AssertionError string
  | Exception string
  | FloatSpecial
    \<comment> \<open>not a Python exception: numpy goes on with inf or nan here, the model of
        floats as reals stops\<close>

type_synonym 'a res = "exn + 'a"

fun bindE :: "'a res \<Rightarrow> ('a \<Rightarrow> 'b res) \<Rightarrow> 'b res" where
  "bindE (Inl e) f = Inl e"
| "bindE (Inr x) f = f x"

text \<open>A \<^verbatim>\<open>for\<close> loop whose body may raise: the first exception ends the loop.\<close>

fun forE :: "'i list \<Rightarrow> ('i \<Rightarrow> 's \<Rightarrow> 's res) \<Rightarrow> 's \<Rightarrow> 's res" where
  "forE [] body s = Inr s"
| "forE (i # is) body s = bindE (body i s) (forE is body)"

text \<open>
  The same for a body that may also never return (\<open>None\<close>): the LOCPROJ parser has a
  loop that does not end at the end of the file.
\<close>

fun forD :: "'i list \<Rightarrow> ('i \<Rightarrow> 's \<Rightarrow> 's res option) \<Rightarrow> 's \<Rightarrow> 's res option" where
  "forD [] body s = Some (Inr s)"
| "forD (i # is) body s =
     (case body i s of
        None \<Rightarrow> None
      | Some (Inl e) \<Rightarrow> Some (Inl e)
      | Some (Inr s') \<Rightarrow> forD is body s')"

text \<open>\<^verbatim>\<open>str.isspace\<close> on ASCII: blank, TAB, LF, VT, FF, CR and the separators 0x1C-0x1F.\<close>

definition is_space :: "char \<Rightarrow> bool" where
  "is_space c = (c \<in> set [CHR '' '', CHR 0x09, CHR 0x0A, CHR 0x0B, CHR 0x0C, CHR 0x0D,
                          CHR 0x1C, CHR 0x1D, CHR 0x1E, CHR 0x1F])"

text \<open>\<^verbatim>\<open>s.strip()\<close>\<close>

definition strip :: "string \<Rightarrow> string" where
  "strip s = rev (dropWhile is_space (rev (dropWhile is_space s)))"

text \<open>\<^verbatim>\<open>s.split()\<close>: the maximal runs of non-blank characters; \<open>cur\<close> is the run being
  read, reversed.\<close>

fun split_acc :: "string \<Rightarrow> string \<Rightarrow> string list" where
  "split_acc cur [] = (if cur = [] then [] else [rev cur])"
| "split_acc cur (c # cs) =
     (if is_space c then (if cur = [] then split_acc [] cs else rev cur # split_acc [] cs)
      else split_acc (c # cur) cs)"

definition split_ws :: "string \<Rightarrow> string list" where
  "split_ws s = split_acc [] s"

text \<open>\<^verbatim>\<open>s.split(sep)\<close> for a one-character separator: never the empty list.\<close>

fun split_on :: "char \<Rightarrow> string \<Rightarrow> string list" where
  "split_on sep [] = [[]]"
| "split_on sep (c # cs) =
     (if c = sep then [] # split_on sep cs
      else (case split_on sep cs of [] \<Rightarrow> [[c]] | p # ps \<Rightarrow> (c # p) # ps))"

text \<open>\<^verbatim>\<open>xs[i]\<close> for \<open>i \<ge> 0\<close>\<close>

definition index :: "'a list \<Rightarrow> nat \<Rightarrow> 'a res" where
  "index xs i = (if i < length xs then Inr (xs ! i) else Inl IndexError)"

text \<open>
  \<^verbatim>\<open>int(s)\<close> in base 10: blanks around, a sign, then digits, where single underscores
  may stand between digits. \<open>None\<close> is ValueError.
\<close>

definition is_digit :: "char \<Rightarrow> bool" where
  "is_digit c = (48 \<le> (of_char c :: nat) \<and> (of_char c :: nat) \<le> 57)"

definition digit_val :: "char \<Rightarrow> nat" where
  "digit_val c = of_char c - 48"

fun int_digits :: "nat \<Rightarrow> bool \<Rightarrow> string \<Rightarrow> nat option" where
  "int_digits acc d [] = (if d then Some acc else None)"
| "int_digits acc d (c # cs) =
     (if is_digit c then int_digits (10 * acc + digit_val c) True cs
      else if c = CHR ''_'' \<and> d then int_digits acc False cs
      else None)"

definition py_int :: "string \<Rightarrow> int option" where
  "py_int s =
     (case strip s of
        [] \<Rightarrow> None
      | c # cs \<Rightarrow>
          if c = CHR ''-'' then map_option (\<lambda>n. - int n) (int_digits 0 False cs)
          else if c = CHR ''+'' then map_option int (int_digits 0 False cs)
          else map_option int (int_digits 0 False (c # cs)))"

text \<open>\<^verbatim>\<open>list(map(int, toks))\<close> and \<^verbatim>\<open>list(map(float, toks))\<close>: ValueError at the first
  token that does not parse.\<close>

definition map_int :: "string list \<Rightarrow> int list res" where
  "map_int toks = (case those (map py_int toks) of None \<Rightarrow> Inl ValueError | Some xs \<Rightarrow> Inr xs)"

definition map_float :: "(string \<Rightarrow> real option) \<Rightarrow> string list \<Rightarrow> real list res" where
  "map_float fl toks = (case those (map fl toks) of None \<Rightarrow> Inl ValueError | Some xs \<Rightarrow> Inr xs)"

text \<open>\<^verbatim>\<open>float(s)\<close> for a string \<open>s\<close> that is there.\<close>

definition py_float :: "(string \<Rightarrow> real option) \<Rightarrow> string \<Rightarrow> real res" where
  "py_float fl s = (case fl s of None \<Rightarrow> Inl ValueError | Some x \<Rightarrow> Inr x)"

text \<open>
  A fragment of \<^verbatim>\<open>float()\<close> for running the readers on examples: a sign, digits, and
  at most one point with digits on either side of it (\<^verbatim>\<open>-8.0\<close>, \<^verbatim>\<open>2\<close>, \<^verbatim>\<open>.5\<close>).
  It is an instance of the parameter \<open>fl\<close>, used on literals that binary floating
  point represents exactly.
\<close>

fun plain_digits :: "nat \<Rightarrow> string \<Rightarrow> nat option" where
  "plain_digits acc [] = Some acc"
| "plain_digits acc (c # cs) =
     (if is_digit c then plain_digits (10 * acc + digit_val c) cs else None)"

definition dec_unsigned :: "string \<Rightarrow> real option" where
  "dec_unsigned s =
     (case split_on CHR ''.'' s of
        [a] \<Rightarrow> (if a = [] then None else map_option real (plain_digits 0 a))
      | [a, b] \<Rightarrow>
          (if a = [] \<and> b = [] then None
           else (case (plain_digits 0 a, plain_digits 0 b) of
                   (Some x, Some y) \<Rightarrow> Some (real x + real y / 10 ^ length b)
                 | _ \<Rightarrow> None))
      | _ \<Rightarrow> None)"

definition dec_float :: "string \<Rightarrow> real option" where
  "dec_float s =
     (case strip s of
        [] \<Rightarrow> None
      | c # cs \<Rightarrow>
          if c = CHR ''-'' then map_option uminus (dec_unsigned cs)
          else if c = CHR ''+'' then dec_unsigned cs
          else dec_unsigned (c # cs))"

text \<open>A line iterator (\<^verbatim>\<open>read_lines\<close>): \<^verbatim>\<open>next(f)\<close> raises StopIteration at the end.\<close>

definition next_line :: "string list \<Rightarrow> (string \<times> string list) res" where
  "next_line ls = (case ls of [] \<Rightarrow> Inl StopIteration | x # xs \<Rightarrow> Inr (x, xs))"

text \<open>\<^verbatim>\<open>f.readline()\<close> on an open file: the empty string at the end, again and again.\<close>

definition readline :: "string list \<Rightarrow> string \<times> string list" where
  "readline ls = (case ls of [] \<Rightarrow> ([], []) | x # xs \<Rightarrow> (x, xs))"

text \<open>\<^verbatim>\<open>np.zeros(shape)\<close> raises ValueError on a negative dimension.\<close>

definition zeros_ok :: "int list \<Rightarrow> bool" where
  "zeros_ok shape = (\<forall>d \<in> set shape. 0 \<le> d)"

text \<open>
  \<^verbatim>\<open>a[i, :] = xs\<close> for a row of length \<open>n\<close>: numpy takes a list of length \<open>n\<close>,
  broadcasts a list of length 1, and raises ValueError otherwise.
\<close>

definition row_of :: "nat \<Rightarrow> 'a list \<Rightarrow> 'a list res" where
  "row_of n xs =
     (if length xs = n then Inr xs
      else if length xs = 1 then Inr (replicate n (hd xs))
      else Inl ValueError)"


text \<open>\<^verbatim>\<open>a[i, j, k] = v\<close> and \<^verbatim>\<open>a[i, j, k, n] = v\<close> on nested lists: IndexError outside the
  shape.\<close>

definition set3 :: "nat \<Rightarrow> nat \<Rightarrow> nat \<Rightarrow> 'a \<Rightarrow> 'a list list list \<Rightarrow> 'a list list list res" where
  "set3 i j k v a =
     (if i < length a \<and> j < length (a ! i) \<and> k < length (a ! i ! j)
      then Inr (a[i := (a ! i)[j := (a ! i ! j)[k := v]]])
      else Inl IndexError)"

definition set4 ::
  "nat \<Rightarrow> nat \<Rightarrow> nat \<Rightarrow> nat \<Rightarrow> 'a \<Rightarrow> 'a list list list list \<Rightarrow> 'a list list list list res" where
  "set4 i j k n v a =
     (if i < length a then
        (case set3 j k n v (a ! i) of Inl e \<Rightarrow> Inl e | Inr r \<Rightarrow> Inr (a[i := r]))
      else Inl IndexError)"

definition zeros3 :: "nat \<Rightarrow> nat \<Rightarrow> nat \<Rightarrow> 'a::zero list list list" where
  "zeros3 n1 n2 n3 = replicate n1 (replicate n2 (replicate n3 0))"

definition zeros4 :: "nat \<Rightarrow> nat \<Rightarrow> nat \<Rightarrow> nat \<Rightarrow> 'a::zero list list list list" where
  "zeros4 n1 n2 n3 n4 = replicate n1 (zeros3 n2 n3 n4)"

section \<open>Plocar: the LOCPROJ parser\<close>

text \<open>One entry of \<^verbatim>\<open>proj_params\<close>: the dictionary with the keys label, isite, l, m.
  An entry not yet filled (\<^verbatim>\<open>{}\<close>) is \<open>None\<close>.\<close>

record proj_param =
  pp_label :: string
  pp_isite :: int
  pp_l :: nat
  pp_m :: nat

text \<open>The attributes of a \<^verbatim>\<open>Plocar\<close> object. \<open>pl_efermi\<close> is \<open>None\<close> when the
  attribute was never assigned.\<close>

record plocar =
  pl_ncdij :: int
  pl_nband :: nat
  pl_nspin :: nat
  pl_nspin_band :: nat
  pl_efermi :: "real option"
  pl_nc_flag :: int
  pl_eigs :: "real list list list"
  pl_ferw :: "real list list list"
  pl_proj_params :: "proj_param option list"
  pl_plo :: "complex list list list list"

definition orb_labels :: "string list" where
  "orb_labels = [''s'', ''py'', ''pz'', ''px'', ''dxy'', ''dyz'', ''dz2'', ''dxz'', ''dx2-y2'',
                 ''fy(3x2-y2)'', ''fxyz'', ''fyz2'', ''fz3'', ''fxz2'', ''fz(x2-y2)'', ''fx(x2-3y2)'']"

text \<open>\<^verbatim>\<open>xs.index(x)\<close>: \<open>None\<close> is ValueError.\<close>

fun index_of :: "'a \<Rightarrow> 'a list \<Rightarrow> nat option" where
  "index_of x [] = None"
| "index_of x (y # ys) = (if x = y then Some 0 else map_option Suc (index_of x ys))"

text \<open>\<^verbatim>\<open>int(np.sqrt(lm))\<close>: the integer square root (exact in floating point on the
  indices of the label table).\<close>

fun isqrt :: "nat \<Rightarrow> nat" where
  "isqrt 0 = 0"
| "isqrt (Suc n) = (let r = isqrt n in if (r + 1) * (r + 1) \<le> Suc n then r + 1 else r)"

definition lm_to_l_m :: "nat \<Rightarrow> nat \<times> nat" where
  "lm_to_l_m lm = (let l = isqrt lm in (l, lm - l * l))"

text \<open>
  The first line of LOCPROJ: the dimensions, the Fermi level if the fifth token is a
  float, the two spin counts and the non-collinear flag. The result is the object with
  the attributes assigned so far, and the locals \<^verbatim>\<open>nk\<close> and \<^verbatim>\<open>nproj\<close>.
\<close>

definition header_ints :: "string \<Rightarrow> int list res" where
  "header_ints line0 = map_int (take 4 (split_ws (hd (split_on CHR ''#'' line0))))"

definition locproj_dims :: "(string \<Rightarrow> real option) \<Rightarrow> string \<Rightarrow> (plocar \<times> nat \<times> nat) res" where
  "locproj_dims fl line0 =
     bindE (header_ints line0) (\<lambda>dims.
       case dims of
         [ncdij, nk, nband, nproj] \<Rightarrow>
           (let nspin = (if ncdij < 4 then ncdij else 1);
                nspin_band = (if ncdij = 2 then 2 else 1);
                efermi = (case index (split_ws (hd (split_on CHR ''#'' line0))) 4 of
                            Inl e \<Rightarrow> None
                          | Inr t \<Rightarrow> fl t)
            in if \<not> zeros_ok [nproj, nspin, nk, nband] then Inl ValueError
               else Inr (\<lparr>pl_ncdij = (if ncdij = 4 then 1 else ncdij),
                          pl_nband = nat nband,
                          pl_nspin = nat nspin,
                          pl_nspin_band = nspin_band,
                          pl_efermi = efermi,
                          pl_nc_flag = (if ncdij = 4 then 1 else 0),
                          pl_eigs = [], pl_ferw = [], pl_proj_params = [], pl_plo = []\<rparr>,
                         nat nk, nat nproj))
       | _ \<Rightarrow> Inl ValueError)"

text \<open>\<^verbatim>\<open>re.match("^ *ISITE", line)\<close>\<close>

definition isite_line :: "string \<Rightarrow> bool" where
  "isite_line s = (take 5 (dropWhile (\<lambda>c. c = CHR '' '') s) = ''ISITE'')"

text \<open>\<^verbatim>\<open>search_for\<close>: reads until a line matches or the file ends, and returns that line
  (the empty string at the end of the file).\<close>

fun search_for :: "(string \<Rightarrow> bool) \<Rightarrow> string list \<Rightarrow> string \<times> string list" where
  "search_for patt [] = ([], [])"
| "search_for patt (x # xs) = (if patt x \<or> x = [] then (x, xs) else search_for patt xs)"

text \<open>The value stored under the key m: with the non-collinear flag set
  (\<^verbatim>\<open>self.nc_flag == True\<close> holds for the flag 1), \<open>2m\<close> at an even counter and
  \<open>2m + 1\<close> at an odd one.\<close>

definition stored_m :: "int \<Rightarrow> nat \<Rightarrow> nat \<Rightarrow> nat" where
  "stored_m nc_flag ip m =
     (if nc_flag = 1 then (if ip mod 2 = 0 then 2 * m else 2 * m + 1) else m)"

text \<open>The body of the header loop, for the line \<open>line\<close> and the counter \<open>ip\<close>.\<close>

definition header_entry ::
  "int \<Rightarrow> nat \<Rightarrow> string \<Rightarrow> proj_param option list \<Rightarrow> proj_param option list res" where
  "header_entry nc_flag ip line proj_params =
     (let sline = split_on CHR '':'' line
      in bindE (index sline 1) (\<lambda>s1.
         bindE (index (split_ws s1) 0) (\<lambda>tok.
         case py_int tok of
           None \<Rightarrow> Inl ValueError
         | Some isite \<Rightarrow>
             (let label = strip (last sline)
              in case index_of label orb_labels of
                   None \<Rightarrow> Inl ValueError
                 | Some lm \<Rightarrow>
                     if ip < length proj_params
                     then Inr (proj_params[ip := Some
                            \<lparr>pp_label = label, pp_isite = isite, pp_l = fst (lm_to_l_m lm),
                             pp_m = stored_m nc_flag ip (snd (lm_to_l_m lm))\<rparr>])
                     else Inl IndexError))))"

text \<open>
  The header loop \<^verbatim>\<open>while line: ...; line = f.readline().strip()\<close>: it runs on every
  line up to the first blank one or the end of the file. The result is the counter, the
  entries and the lines left.
\<close>

fun header_loop ::
  "int \<Rightarrow> proj_param option list \<Rightarrow> nat \<Rightarrow> string \<Rightarrow> string list
   \<Rightarrow> (nat \<times> proj_param option list \<times> string list) res" where
  "header_loop nc_flag ps ip line [] =
     (if line = [] then Inr (ip, ps, [])
      else bindE (header_entry nc_flag ip line ps) (\<lambda>ps'. Inr (ip + 1, ps', [])))"
| "header_loop nc_flag ps ip line (x # xs) =
     (if line = [] then Inr (ip, ps, x # xs)
      else bindE (header_entry nc_flag ip line ps) (\<lambda>ps'.
             header_loop nc_flag ps' (ip + 1) (strip x) xs))"

text \<open>The state of the data loop: the lines not yet read and the three arrays.\<close>

record pstate =
  lines :: "string list"
  eigs :: "real list list list"
  ferw :: "real list list list"
  plo :: "complex list list list list"

text \<open>\<^verbatim>\<open>while not line: line = f.readline().strip()\<close>: at the end of the file
  \<^verbatim>\<open>readline\<close> returns the empty string for ever, and the loop does not end.\<close>

partial_function (option) skip_blank :: "string list \<Rightarrow> (string \<times> string list) option" where
  "skip_blank ls =
     (case readline ls of
        (line, rest) \<Rightarrow> if strip line = [] then skip_blank rest else Some (strip line, rest))"

declare skip_blank.simps [code]

text \<open>One projector line of a record: the complex number of tokens 1 and 2.\<close>

definition plo_line ::
  "(string \<Rightarrow> real option) \<Rightarrow> nat \<Rightarrow> nat \<Rightarrow> nat \<Rightarrow> nat \<Rightarrow> pstate \<Rightarrow> pstate res" where
  "plo_line fl ispin ik ib ip st =
     (case readline (lines st) of
        (line, rest) \<Rightarrow>
          (let sline = split_ws line
           in bindE (index sline 1) (\<lambda>t1.
              bindE (py_float fl t1) (\<lambda>re.
              bindE (index sline 2) (\<lambda>t2.
              bindE (py_float fl t2) (\<lambda>im.
              bindE (set4 ip ispin ik ib (Complex re im) (plo st)) (\<lambda>plo'.
              Inr (st\<lparr>lines := rest, plo := plo'\<rparr>))))))))"

text \<open>The body of the data loop after the index check: the eigenvalue and the Fermi
  weight of the record line, then \<open>nproj\<close> projector lines.\<close>

definition record_values ::
  "(string \<Rightarrow> real option) \<Rightarrow> nat \<Rightarrow> nat \<Rightarrow> nat \<Rightarrow> nat \<Rightarrow> string list \<Rightarrow> pstate \<Rightarrow> pstate res" where
  "record_values fl nproj ispin ik ib sline st =
     bindE (index sline 4) (\<lambda>t4.
     bindE (py_float fl t4) (\<lambda>e.
     bindE (set3 ik ib ispin e (eigs st)) (\<lambda>eigs'.
     bindE (index sline 5) (\<lambda>t5.
     bindE (py_float fl t5) (\<lambda>w.
     bindE (set3 ik ib ispin w (ferw st)) (\<lambda>ferw'.
     forE [0..<nproj] (plo_line fl ispin ik ib) (st\<lparr>eigs := eigs', ferw := ferw'\<rparr>)))))))"

text \<open>The body of the data loop from the record line \<open>line\<close> on: the three indices of
  the record are unpacked and compared with the loop counters.\<close>

definition orbital_record ::
  "(string \<Rightarrow> real option) \<Rightarrow> nat \<Rightarrow> nat \<Rightarrow> nat \<Rightarrow> nat \<Rightarrow> string \<Rightarrow> pstate \<Rightarrow> pstate res" where
  "orbital_record fl nproj ispin ik ib line st =
     (let sline = split_ws line
      in bindE (map_int (take 3 (drop 1 sline))) (\<lambda>idx.
           case idx of
             [isp', ik', ib'] \<Rightarrow>
               if \<not> (isp' = int ispin + 1 \<and> ik' = int ik + 1 \<and> ib' = int ib + 1)
               then Inl (AssertionError ''Inconsistency in reading LOCPROJ'')
               else record_values fl nproj ispin ik ib sline st
           | _ \<Rightarrow> Inl ValueError))"

definition read_record ::
  "(string \<Rightarrow> real option) \<Rightarrow> nat \<Rightarrow> nat \<Rightarrow> nat \<Rightarrow> nat \<Rightarrow> pstate \<Rightarrow> pstate res option" where
  "read_record fl nproj ispin ik ib st =
     (case skip_blank (lines st) of
        None \<Rightarrow> None
      | Some (line, rest) \<Rightarrow> Some (orbital_record fl nproj ispin ik ib line (st\<lparr>lines := rest\<rparr>)))"

text \<open>The three nested loops over spin, k-point and band.\<close>

definition data_loop ::
  "(string \<Rightarrow> real option) \<Rightarrow> nat \<Rightarrow> nat \<Rightarrow> nat \<Rightarrow> nat \<Rightarrow> pstate \<Rightarrow> pstate res option" where
  "data_loop fl nproj nspin nk nband =
     forD [0..<nspin] (\<lambda>ispin.
       forD [0..<nk] (\<lambda>ik.
         forD [0..<nband] (\<lambda>ib. read_record fl nproj ispin ik ib)))"

text \<open>
  \<^verbatim>\<open>Plocar.from_file\<close>, that is \<^verbatim>\<open>locproj_parser\<close> on the file LOCPROJ of the directory
  (\<open>None\<close>: the file cannot be opened). The result \<open>None\<close> is a run that never returns.
\<close>

definition locproj_parser :: "(string \<Rightarrow> real option) \<Rightarrow> string list option \<Rightarrow> plocar res option" where
  "locproj_parser fl file =
     (case file of
        None \<Rightarrow> Some (Inl IOError)
      | Some ls \<Rightarrow>
          (case locproj_dims fl (fst (readline ls)) of
             Inl e \<Rightarrow> Some (Inl e)
           | Inr (self, nk, nproj) \<Rightarrow>
               (case header_loop (pl_nc_flag self) (replicate nproj None) 0
                       (fst (search_for isite_line (snd (readline ls))))
                       (snd (search_for isite_line (snd (readline ls)))) of
                  Inl e \<Rightarrow> Some (Inl e)
                | Inr (ip, proj_params, ls3) \<Rightarrow>
                    if ip \<noteq> nproj
                    then Some (Inl (AssertionError
                           ''Number of projectors in the header is wrong in LOCPROJ''))
                    else
                      (case data_loop fl nproj (pl_nspin self) nk (pl_nband self)
                              \<lparr>lines = ls3,
                               eigs = zeros3 nk (pl_nband self) (pl_nspin_band self),
                               ferw = zeros3 nk (pl_nband self) (pl_nspin_band self),
                               plo = zeros4 nproj (pl_nspin self) nk (pl_nband self)\<rparr> of
                         None \<Rightarrow> None
                       | Some (Inl e) \<Rightarrow> Some (Inl e)
                       | Some (Inr st) \<Rightarrow>
                           Some (Inr (self\<lparr>pl_eigs := eigs st, pl_ferw := ferw st,
                                           pl_proj_params := proj_params,
                                           pl_plo := plo st\<rparr>))))))"

text \<open>The positions the three nested loops visit, in their order.\<close>

definition loop_positions :: "nat \<Rightarrow> nat \<Rightarrow> nat \<Rightarrow> (nat \<times> nat \<times> nat) list" where
  "loop_positions nspin nk nband =
     List.product [0..<nspin] (List.product [0..<nk] [0..<nband])"

text \<open>A filled entry of \<^verbatim>\<open>proj_params\<close> at the index \<open>i\<close>: its label is in the table,
  and l and m are those of the label's index.\<close>

definition entry_ok :: "int \<Rightarrow> nat \<Rightarrow> proj_param option \<Rightarrow> bool" where
  "entry_ok nc_flag i x =
     (\<exists>p lm. x = Some p \<and> index_of (pp_label p) orb_labels = Some lm \<and>
             pp_l p = fst (lm_to_l_m lm) \<and>
             pp_m p = stored_m nc_flag i (snd (lm_to_l_m lm)))"

text \<open>A small LOCPROJ of a non-collinear run: one k-point, one band, two projectors.\<close>

definition example_locproj :: "string list" where
  "example_locproj =
     [''4 1 1 2 0.5 # of spin, k-points, bands, projectors\<newline>'',
      ''\<newline>'',
      '' ISITE:  1  IGROUP: 1 : dyz\<newline>'',
      '' ISITE:  1  IGROUP: 1 : dyz\<newline>'',
      ''\<newline>'',
      ''orbital 1 1 1 0.25 1.0\<newline>'',
      ''1 0.5 0.25\<newline>'',
      ''2 0.5 -0.25\<newline>'']"

text \<open>The data block of a LOCPROJ with one spin, one k-point, two bands and no
  projector, whose second record has its k-point and band indices swapped.\<close>

definition swapped_records :: pstate where
  "swapped_records =
     \<lparr>lines = [''orbital 1 1 1 0.25 1.0\<newline>'', ''\<newline>'', ''orbital 1 2 1 0.5 1.0\<newline>''],
      eigs = zeros3 1 2 1, ferw = zeros3 1 2 1, plo = zeros4 0 1 1 2\<rparr>"

text \<open>The lines the header loop runs on, given the line \<^verbatim>\<open>search_for\<close> returned and the
  lines after it: that line and the lines up to the first blank one, stripped.\<close>

definition header_block :: "string \<Rightarrow> string list \<Rightarrow> string list" where
  "header_block line rest =
     (if line = [] then [] else line # map strip (takeWhile (\<lambda>x. strip x \<noteq> []) rest))"

text \<open>The label of a header line: \<^verbatim>\<open>line.split(':')[-1].strip()\<close>\<close>

definition label_of :: "string \<Rightarrow> string" where
  "label_of line = strip (last (split_on CHR '':'' line))"

text \<open>A LOCPROJ that declares two projectors and has one line with the marker ISITE,
  followed by a line without it.\<close>

definition unmarked_locproj :: "string list" where
  "unmarked_locproj =
     [''1 0 0 2\<newline>'',
      '' ISITE:  1  IGROUP: 1 : s\<newline>'',
      ''site: 1 : py\<newline>'',
      ''\<newline>'']"

section \<open>Kpoints: the IBZKPT reader\<close>

text \<open>The attributes of a \<^verbatim>\<open>Kpoints\<close> object after \<^verbatim>\<open>from_file\<close>. \<open>kp_volt\<close> and
  \<open>kp_itet\<close> are \<open>None\<close> when the attribute was never assigned.\<close>

record kpoints =
  kp_nktot :: nat
  kp_kpts :: "real list list"
  kp_kwghts :: "real list"
  kp_ntet :: nat
  kp_volt :: "real option"
  kp_itet :: "int list list option"

text \<open>One k-point line: three coordinates (\<^verbatim>\<open>sline[:3]\<close>, assigned to a row of three)
  and the weight \<^verbatim>\<open>sline[3]\<close>.\<close>

definition kpoint_line :: "(string \<Rightarrow> real option) \<Rightarrow> string \<Rightarrow> (real list \<times> real) res" where
  "kpoint_line fl line =
     (let sline = split_ws (strip line)
      in bindE (map_float fl (take 3 sline)) (\<lambda>xs.
         bindE (row_of 3 xs) (\<lambda>row.
         bindE (index sline 3) (\<lambda>t.
         bindE (py_float fl t) (\<lambda>w. Inr (row, w))))))"

text \<open>The loop over the k-points, on the counters \<open>iks\<close> still to run and the lines not
  yet read.\<close>

fun kpoint_rows ::
  "(string \<Rightarrow> real option) \<Rightarrow> nat list \<Rightarrow> string list \<Rightarrow> real list list \<Rightarrow> real list
   \<Rightarrow> (real list list \<times> real list \<times> string list) res" where
  "kpoint_rows fl [] ls kpts kwghts = Inr (kpts, kwghts, ls)"
| "kpoint_rows fl (ik # iks) [] kpts kwghts = Inl StopIteration"
| "kpoint_rows fl (ik # iks) (line # rest) kpts kwghts =
     bindE (kpoint_line fl line) (\<lambda>(row, w).
       kpoint_rows fl iks rest (kpts[ik := row]) (kwghts[ik := w]))"

text \<open>\<^verbatim>\<open>from_file\<close> up to \<^verbatim>\<open>self.kwghts /= self.nktot\<close>: the count, the k-points, the
  weights divided by the count, and the lines left. \<open>dv\<close> is the division of floats
  that numpy applies to every weight.\<close>

definition kpoints_head ::
  "(string \<Rightarrow> real option) \<Rightarrow> (real \<Rightarrow> real \<Rightarrow> real) \<Rightarrow> string list
   \<Rightarrow> (nat \<times> real list list \<times> real list \<times> string list) res" where
  "kpoints_head fl dv ls =
     bindE (next_line ls) (\<lambda>(comment, ls1).
     bindE (next_line ls1) (\<lambda>(line, ls2).
     bindE (index (split_ws (strip line)) 0) (\<lambda>tok.
     case py_int tok of
       None \<Rightarrow> Inl ValueError
     | Some nktot \<Rightarrow>
         if \<not> zeros_ok [nktot, 3] then Inl ValueError
         else
           bindE (next_line ls2) (\<lambda>(comment2, ls3).
           bindE (kpoint_rows fl [0..<nat nktot] ls3
                    (replicate (nat nktot) [0, 0, 0]) (replicate (nat nktot) 0))
             (\<lambda>(kpts, kwghts, ls4).
                Inr (nat nktot, kpts, map (\<lambda>w. dv w (real (nat nktot))) kwghts, ls4))))))"

text \<open>The first two lines of the tetrahedron section: the count and the volume.\<close>

definition tet_header :: "(string \<Rightarrow> real option) \<Rightarrow> string list \<Rightarrow> (int \<times> real \<times> string list) res" where
  "tet_header fl ls =
     bindE (next_line ls) (\<lambda>(comment, ls1).
     bindE (next_line ls1) (\<lambda>(line, ls2).
     bindE (index (split_ws line) 0) (\<lambda>t0.
     case py_int t0 of
       None \<Rightarrow> Inl ValueError
     | Some ntet \<Rightarrow>
         bindE (index (split_ws line) 1) (\<lambda>t1.
         bindE (py_float fl t1) (\<lambda>volt. Inr (ntet, volt, ls2))))))"

text \<open>The loop over the tetrahedra. An exception comes with the array as it stands,
  which stays in \<^verbatim>\<open>self.itet\<close> when the exception is caught.\<close>

fun tet_rows ::
  "nat list \<Rightarrow> string list \<Rightarrow> int list list \<Rightarrow> (exn \<times> int list list) + int list list" where
  "tet_rows [] ls itet = Inr itet"
| "tet_rows (it # its) [] itet = Inl (StopIteration, itet)"
| "tet_rows (it # its) (line # rest) itet =
     (case bindE (map_int (take 5 (split_ws line))) (row_of 5) of
        Inl e \<Rightarrow> Inl (e, itet)
      | Inr row \<Rightarrow> tet_rows its rest (itet[it := row]))"

text \<open>
  The \<^verbatim>\<open>try\<close> block of \<^verbatim>\<open>from_file\<close> with its handler: the values of \<^verbatim>\<open>ntet\<close>,
  \<^verbatim>\<open>volt\<close> and \<^verbatim>\<open>itet\<close> it leaves. Only StopIteration is caught
  (\<^verbatim>\<open>except StopIteration as ValueError\<close> names the caught exception, it does not catch
  ValueError).
\<close>

definition tetrahedra ::
  "(string \<Rightarrow> real option) \<Rightarrow> string list \<Rightarrow> (nat \<times> real option \<times> int list list option) res" where
  "tetrahedra fl ls4 =
     (case tet_header fl ls4 of
        Inl e \<Rightarrow> if e = StopIteration then Inr (0, None, None) else Inl e
      | Inr (ntet, volt, ls6) \<Rightarrow>
          if \<not> zeros_ok [ntet, 5] then Inl ValueError
          else
            (case tet_rows [0..<nat ntet] ls6 (replicate (nat ntet) (replicate 5 0)) of
               Inl (e, itet) \<Rightarrow>
                 if e = StopIteration then Inr (0, Some volt, Some itet) else Inl e
             | Inr itet \<Rightarrow> Inr (nat ntet, Some volt, Some itet)))"

text \<open>\<^verbatim>\<open>Kpoints.from_file\<close> on the lines of IBZKPT (\<open>None\<close>: the file cannot be
  opened).\<close>

definition kpoints_from_file ::
  "(string \<Rightarrow> real option) \<Rightarrow> (real \<Rightarrow> real \<Rightarrow> real) \<Rightarrow> string list option \<Rightarrow> kpoints res" where
  "kpoints_from_file fl dv file =
     (case file of
        None \<Rightarrow> Inl IOError
      | Some ls \<Rightarrow>
          bindE (kpoints_head fl dv ls) (\<lambda>(nktot, kpts, kwghts, ls4).
          bindE (tetrahedra fl ls4) (\<lambda>(ntet, volt, itet).
            Inr \<lparr>kp_nktot = nktot, kp_kpts = kpts, kp_kwghts = kwghts,
                 kp_ntet = ntet, kp_volt = volt, kp_itet = itet\<rparr>)))"

text \<open>An IBZKPT with two k-points of weights 1 and 3, and its tetrahedron section.\<close>

definition example_ibzkpt :: "string list" where
  "example_ibzkpt =
     [''Automatically generated mesh\<newline>'',
      ''       2\<newline>'',
      ''Reciprocal lattice\<newline>'',
      ''    0.0  0.0  0.0    1\<newline>'',
      ''    0.5  0.0  0.0    3\<newline>'',
      ''Tetrahedra\<newline>'',
      ''    1    0.25\<newline>'',
      ''    6    1    1    2    2\<newline>'']"

text \<open>The same file cut inside the line of the tetrahedron count, before the volume.\<close>

definition cut_ibzkpt :: "string list" where
  "cut_ibzkpt = take 6 example_ibzkpt @ [''    1'']"

section \<open>Eigenval: the EIGENVAL reader\<close>

text \<open>The attributes of an \<^verbatim>\<open>Eigenval\<close> object after \<^verbatim>\<open>from_file\<close>.\<close>

record eigenval =
  ev_nq :: int
  ev_ispin :: nat
  ev_nelect :: int
  ev_nktot :: nat
  ev_nband :: nat
  ev_kpts :: "real list list"
  ev_kwghts :: "real list"
  ev_eigs :: "real list list list"
  ev_ferw :: "real list list list"

text \<open>
  One band line: every token is a float, their number is checked, and the eigenvalues
  \<^verbatim>\<open>tmp[1:ispin+1]\<close> and the occupations \<^verbatim>\<open>tmp[ispin+1:]\<close> are returned.
\<close>

definition band_line ::
  "(string \<Rightarrow> real option) \<Rightarrow> nat \<Rightarrow> string \<Rightarrow> (real list \<times> real list) res" where
  "band_line fl ispin line =
     bindE (map_float fl (split_ws line)) (\<lambda>tmp.
       if \<not> (length tmp = 2 * ispin + 1)
       then Inl (AssertionError
              ''EIGENVAL file is incorrect (probably from old versions of VASP)'')
       else Inr (take ispin (drop 1 tmp), drop (ispin + 1) tmp))"

text \<open>\<^verbatim>\<open>a[ik, ib, :] = xs\<close> on nested lists, the row being of length \<open>n\<close>.\<close>

definition set_row3 ::
  "nat \<Rightarrow> nat \<Rightarrow> nat \<Rightarrow> 'a list \<Rightarrow> 'a list list list \<Rightarrow> 'a list list list res" where
  "set_row3 n i j xs a =
     (if i < length a \<and> j < length (a ! i)
      then bindE (row_of n xs) (\<lambda>row. Inr (a[i := (a ! i)[j := row]]))
      else Inl IndexError)"

text \<open>The loop over the bands of the k-point \<open>ik\<close>.\<close>

fun band_rows ::
  "(string \<Rightarrow> real option) \<Rightarrow> nat \<Rightarrow> nat \<Rightarrow> nat list \<Rightarrow> string list
   \<Rightarrow> real list list list \<Rightarrow> real list list list
   \<Rightarrow> (real list list list \<times> real list list list \<times> string list) res" where
  "band_rows fl ispin ik [] ls eigs0 ferw0 = Inr (eigs0, ferw0, ls)"
| "band_rows fl ispin ik (ib # ibs) [] eigs0 ferw0 = Inl StopIteration"
| "band_rows fl ispin ik (ib # ibs) (line # rest) eigs0 ferw0 =
     bindE (band_line fl ispin line) (\<lambda>(es, ws).
     bindE (set_row3 ispin ik ib es eigs0) (\<lambda>eigs'.
     bindE (set_row3 ispin ik ib ws ferw0) (\<lambda>ferw'.
       band_rows fl ispin ik ibs rest eigs' ferw')))"

text \<open>The state of the loop over the k-points.\<close>

record estate =
  e_lines :: "string list"
  e_kpts :: "real list list"
  e_kwghts :: "real list"
  e_eigs :: "real list list list"
  e_ferw :: "real list list list"

text \<open>The body of the loop over the k-points: an empty line, the k-point line (every
  token a float, the first three the coordinates, the fourth the weight), the bands.\<close>

definition kpoint_block ::
  "(string \<Rightarrow> real option) \<Rightarrow> nat \<Rightarrow> nat \<Rightarrow> nat \<Rightarrow> estate \<Rightarrow> estate res" where
  "kpoint_block fl ispin nband ik st =
     bindE (next_line (e_lines st)) (\<lambda>(empty, ls1).
     bindE (next_line ls1) (\<lambda>(sline, ls2).
     bindE (map_float fl (split_ws sline)) (\<lambda>tmp.
     bindE (row_of 3 (take 3 tmp)) (\<lambda>row.
     bindE (index tmp 3) (\<lambda>w.
     bindE (band_rows fl ispin ik [0..<nband] ls2 (e_eigs st) (e_ferw st))
       (\<lambda>(eigs', ferw', ls3).
          Inr \<lparr>e_lines = ls3, e_kpts = (e_kpts st)[ik := row],
               e_kwghts = (e_kwghts st)[ik := w], e_eigs = eigs', e_ferw = ferw'\<rparr>))))))"

text \<open>The six lines before the k-points: \<^verbatim>\<open>nq\<close> and \<^verbatim>\<open>ispin\<close> of the first line,
  \<^verbatim>\<open>nelect\<close>, \<^verbatim>\<open>nktot\<close> and \<^verbatim>\<open>nband\<close> of the sixth.\<close>

definition eigenval_preamble :: "string list \<Rightarrow> (int \<times> int \<times> int \<times> int \<times> int \<times> string list) res" where
  "eigenval_preamble ls =
     bindE (next_line ls) (\<lambda>(l1, ls1).
     bindE (index (split_ws l1) 0) (\<lambda>t0.
     case py_int t0 of
       None \<Rightarrow> Inl ValueError
     | Some nq \<Rightarrow>
         bindE (index (split_ws l1) 3) (\<lambda>t3.
         case py_int t3 of
           None \<Rightarrow> Inl ValueError
         | Some ispin \<Rightarrow>
             bindE (next_line ls1) (\<lambda>(l2, ls2).
             bindE (next_line ls2) (\<lambda>(l3, ls3).
             bindE (next_line ls3) (\<lambda>(l4, ls4).
             bindE (next_line ls4) (\<lambda>(l5, ls5).
             bindE (next_line ls5) (\<lambda>(l6, ls6).
             bindE (index (split_ws l6) 0) (\<lambda>u0.
             case py_int u0 of
               None \<Rightarrow> Inl ValueError
             | Some nelect \<Rightarrow>
                 bindE (index (split_ws l6) 1) (\<lambda>u1.
                 case py_int u1 of
                   None \<Rightarrow> Inl ValueError
                 | Some nktot \<Rightarrow>
                     bindE (index (split_ws l6) 2) (\<lambda>u2.
                     case py_int u2 of
                       None \<Rightarrow> Inl ValueError
                     | Some nband \<Rightarrow> Inr (nq, ispin, nelect, nktot, nband, ls6))))))))))))"

text \<open>\<^verbatim>\<open>Eigenval.from_file\<close> on the lines of EIGENVAL (\<open>None\<close>: the file cannot be
  opened).\<close>

definition eigenval_from_file :: "(string \<Rightarrow> real option) \<Rightarrow> string list option \<Rightarrow> eigenval res" where
  "eigenval_from_file fl file =
     (case file of
        None \<Rightarrow> Inl IOError
      | Some ls \<Rightarrow>
          bindE (eigenval_preamble ls) (\<lambda>(nq, ispin, nelect, nktot, nband, ls6).
            if \<not> (zeros_ok [nktot, 3] \<and> zeros_ok [nktot, nband, ispin]) then Inl ValueError
            else
              bindE (forE [0..<nat nktot] (kpoint_block fl (nat ispin) (nat nband))
                       \<lparr>e_lines = ls6,
                        e_kpts = replicate (nat nktot) [0, 0, 0],
                        e_kwghts = replicate (nat nktot) 0,
                        e_eigs = zeros3 (nat nktot) (nat nband) (nat ispin),
                        e_ferw = zeros3 (nat nktot) (nat nband) (nat ispin)\<rparr>)
                (\<lambda>st. Inr \<lparr>ev_nq = nq, ev_ispin = nat ispin, ev_nelect = nelect,
                            ev_nktot = nat nktot, ev_nband = nat nband,
                            ev_kpts = e_kpts st, ev_kwghts = e_kwghts st,
                            ev_eigs = e_eigs st, ev_ferw = e_ferw st\<rparr>)))"

text \<open>An EIGENVAL with two spin channels, one k-point and two bands, and the same file
  with the second band line in the layout of one channel.\<close>

definition example_eigenval :: "string list" where
  "example_eigenval =
     [''    2    2    1    2\<newline>'',
      ''  1.0  1.0  1.0  1.0  0.5\<newline>'',
      ''  0.0001\<newline>'',
      ''  CAR\<newline>'',
      '' unknown system\<newline>'',
      ''      8      1      2\<newline>'',
      ''\<newline>'',
      ''  0.0  0.0  0.0  1.0\<newline>'',
      ''    1   -5.5   -5.25   1.0   1.0\<newline>'',
      ''    2    2.5    2.75   0.0   0.0\<newline>'']"

definition short_eigenval :: "string list" where
  "short_eigenval = take 9 example_eigenval @ [''    2    2.5   0.0\<newline>'']"

section \<open>Poscar: the POSCAR reader\<close>

text \<open>The attributes of a \<^verbatim>\<open>Poscar\<close> object after \<^verbatim>\<open>from_file\<close>.\<close>

record poscar =
  ps_a_brav :: "real list list"
  ps_el_names :: "string list"
  ps_nions :: "int list"
  ps_ntypes :: nat
  ps_nq :: int
  ps_kpt_basis :: "real list list"
  ps_q_types :: "real list list list"
  ps_type_of_ion :: "nat list"

text \<open>\<^verbatim>\<open>readline_remove_comments\<close>: the next line up to the first \<^verbatim>\<open>!\<close> or \<^verbatim>\<open>#\<close>,
  stripped.\<close>

definition remove_comments :: "string \<Rightarrow> string" where
  "remove_comments line = strip (hd (split_on CHR ''#'' (hd (split_on CHR ''!'' line))))"

definition readline_remove_comments :: "string list \<Rightarrow> (string \<times> string list) res" where
  "readline_remove_comments ls =
     bindE (next_line ls) (\<lambda>(line, rest). Inr (remove_comments line, rest))"

text \<open>\<^verbatim>\<open>'%i' % n\<close> for \<open>n \<ge> 0\<close>: the decimal digits of \<open>n\<close>.\<close>

fun digits_of :: "nat \<Rightarrow> nat \<Rightarrow> string" where
  "digits_of 0 n = []"
| "digits_of (Suc fuel) n =
     (if n < 10 then [char_of (48 + n)]
      else digits_of fuel (n div 10) @ [char_of (48 + n mod 10)])"

definition str_of_nat :: "nat \<Rightarrow> string" where
  "str_of_nat n = digits_of (Suc n) n"

text \<open>\<^verbatim>\<open>c.lower()\<close> on an ASCII character.\<close>

definition lower :: "char \<Rightarrow> char" where
  "lower c = (if 65 \<le> (of_char c :: nat) \<and> (of_char c :: nat) \<le> 90
              then char_of ((of_char c :: nat) + 32) else c)"

text \<open>\<^verbatim>\<open>np.linalg.det\<close> of a 3 by 3 array, the inverse of its transpose (entry
  \<open>(i, j)\<close> is the cofactor \<open>(i, j)\<close> over the determinant; numpy raises LinAlgError on a
  singular array), and \<^verbatim>\<open>np.dot\<close> of a 3 by 3 array and a vector.\<close>

definition det3 :: "real list list \<Rightarrow> real" where
  "det3 a =
     a ! 0 ! 0 * (a ! 1 ! 1 * a ! 2 ! 2 - a ! 1 ! 2 * a ! 2 ! 1)
     - a ! 0 ! 1 * (a ! 1 ! 0 * a ! 2 ! 2 - a ! 1 ! 2 * a ! 2 ! 0)
     + a ! 0 ! 2 * (a ! 1 ! 0 * a ! 2 ! 1 - a ! 1 ! 1 * a ! 2 ! 0)"

definition cofactor3 :: "real list list \<Rightarrow> nat \<Rightarrow> nat \<Rightarrow> real" where
  "cofactor3 a i j =
     a ! ((i + 1) mod 3) ! ((j + 1) mod 3) * a ! ((i + 2) mod 3) ! ((j + 2) mod 3)
     - a ! ((i + 1) mod 3) ! ((j + 2) mod 3) * a ! ((i + 2) mod 3) ! ((j + 1) mod 3)"

definition inv_transpose3 :: "real list list \<Rightarrow> real list list res" where
  "inv_transpose3 a =
     (if det3 a = 0 then Inl LinAlgError
      else Inr (map (\<lambda>i. map (\<lambda>j. cofactor3 a i j / det3 a) [0..<3]) [0..<3]))"

definition dot3 :: "real list list \<Rightarrow> real list \<Rightarrow> real list res" where
  "dot3 b q =
     (if length q = 3 then Inr (map (\<lambda>row. sum_list (map2 (*) row q)) b)
      else Inl ValueError)"

text \<open>The scale line and the three lattice lines: the scale as written and the lattice
  vectors as written.\<close>

fun lattice_rows ::
  "(string \<Rightarrow> real option) \<Rightarrow> nat list \<Rightarrow> string list \<Rightarrow> real list list
   \<Rightarrow> (real list list \<times> string list) res" where
  "lattice_rows fl [] ls a = Inr (a, ls)"
| "lattice_rows fl (ia # ias) ls a =
     bindE (readline_remove_comments ls) (\<lambda>(sline, rest).
     bindE (map_float fl (split_ws sline)) (\<lambda>xs.
     bindE (row_of 3 xs) (\<lambda>row.
       lattice_rows fl ias rest (a[ia := row]))))"

definition poscar_raw ::
  "(string \<Rightarrow> real option) \<Rightarrow> string list \<Rightarrow> (real \<times> real list list \<times> string list) res" where
  "poscar_raw fl ls =
     bindE (next_line ls) (\<lambda>(comment, ls1).
     bindE (readline_remove_comments ls1) (\<lambda>(sline, ls2).
     bindE (py_float fl sline) (\<lambda>ascale.
     bindE (lattice_rows fl [0..<3] ls2 (replicate 3 [0, 0, 0])) (\<lambda>(a_brav, ls5).
       Inr (ascale, a_brav, ls5)))))"

text \<open>
  The scale that multiplies the lattice. A negative scale is a volume:
  \<^verbatim>\<open>ascale = (vscale / vol)**(1.0/3)\<close> with \<^verbatim>\<open>vscale = -ascale\<close> and
  \<^verbatim>\<open>vol = np.linalg.det(self.a_brav)\<close>. For a determinant that is not positive numpy
  goes on with inf or nan; the model stops there.
\<close>

definition resolve_scale :: "real \<Rightarrow> real list list \<Rightarrow> real res" where
  "resolve_scale ascale a_brav =
     (if ascale < 0
      then (let vscale = - ascale; vol = det3 a_brav
            in if vol \<le> 0 then Inl FloatSpecial
               else Inr ((vscale / vol) powr (1 / 3)))
      else Inr ascale)"

definition poscar_lattice ::
  "(string \<Rightarrow> real option) \<Rightarrow> string list \<Rightarrow> (real list list \<times> string list) res" where
  "poscar_lattice fl ls =
     bindE (poscar_raw fl ls) (\<lambda>(ascale, a_brav, ls5).
     bindE (resolve_scale ascale a_brav) (\<lambda>ascale'.
       Inr (map (map (\<lambda>x. x * ascale')) a_brav, ls5)))"

text \<open>
  The line of the element names or of the ion counts: it is read as ion counts, and
  when \<^verbatim>\<open>int\<close> raises ValueError it is the element names and the next line is the ion
  counts. The result is \<^verbatim>\<open>el_names\<close>, \<^verbatim>\<open>nions\<close> and the lines left.
\<close>

definition poscar_species :: "string list \<Rightarrow> (string list \<times> int list \<times> string list) res" where
  "poscar_species ls =
     bindE (readline_remove_comments ls) (\<lambda>(sline, ls1).
       case map_int (split_ws sline) of
         Inr nions \<Rightarrow>
           Inr (map (\<lambda>i. ''El'' @ str_of_nat i) [0..<length nions], nions, ls1)
       | Inl e \<Rightarrow>
           bindE (readline_remove_comments ls1) (\<lambda>(sline2, ls2).
           bindE (map_int (split_ws sline2)) (\<lambda>nions.
             Inr (split_ws sline, nions, ls2))))"

text \<open>The positions of the \<open>n\<close> ions of one type.\<close>

fun ion_rows ::
  "(string \<Rightarrow> real option) \<Rightarrow> bool \<Rightarrow> real list list \<Rightarrow> nat list \<Rightarrow> string list
   \<Rightarrow> real list list \<Rightarrow> (real list list \<times> string list) res" where
  "ion_rows fl cartesian kpt_basis [] ls q_at_it = Inr (q_at_it, ls)"
| "ion_rows fl cartesian kpt_basis (iq # iqs) ls q_at_it =
     bindE (readline_remove_comments ls) (\<lambda>(sline, rest).
     bindE (map_float fl (take 3 (split_ws sline))) (\<lambda>qcoord.
     bindE (if cartesian then dot3 kpt_basis qcoord else Inr qcoord) (\<lambda>qcoord'.
     bindE (row_of 3 qcoord') (\<lambda>row.
       ion_rows fl cartesian kpt_basis iqs rest (q_at_it[iq := row])))))"

text \<open>The loop over the types, on the pairs of a type index and its ion count.\<close>

fun type_rows ::
  "(string \<Rightarrow> real option) \<Rightarrow> bool \<Rightarrow> real list list \<Rightarrow> (nat \<times> int) list \<Rightarrow> string list
   \<Rightarrow> real list list list \<Rightarrow> nat list \<Rightarrow> (real list list list \<times> nat list) res" where
  "type_rows fl cartesian kpt_basis [] ls q_types type_of_ion = Inr (q_types, type_of_ion)"
| "type_rows fl cartesian kpt_basis ((it, n) # its) ls q_types type_of_ion =
     (if \<not> zeros_ok [n, 3] then Inl ValueError
      else
        bindE (ion_rows fl cartesian kpt_basis [0..<nat n] ls (replicate (nat n) [0, 0, 0]))
          (\<lambda>(q_at_it, rest).
             type_rows fl cartesian kpt_basis its rest (q_types @ [q_at_it])
               (type_of_ion @ replicate (nat n) it)))"

text \<open>\<^verbatim>\<open>from_file\<close> after the lattice: the species, the line "Selective dynamics" if
  there, the coordinate mode, the reciprocal basis and the positions.\<close>

definition poscar_body ::
  "(string \<Rightarrow> real option) \<Rightarrow> real list list \<Rightarrow> string list \<Rightarrow> poscar res" where
  "poscar_body fl a_brav ls5 =
     bindE (poscar_species ls5) (\<lambda>(el_names, nions, ls6).
     bindE (readline_remove_comments ls6) (\<lambda>(sline, ls7).
     bindE (index sline 0) (\<lambda>c0.
     bindE (if lower c0 = CHR ''s'' then readline_remove_comments ls7 else Inr (sline, ls7))
       (\<lambda>(sline', ls8).
     bindE (index sline' 0) (\<lambda>c1.
     bindE (inv_transpose3 a_brav) (\<lambda>kpt_basis.
     bindE (type_rows fl (lower c1 = CHR ''c'' \<or> lower c1 = CHR ''k'') kpt_basis
              (zip [0..<length nions] nions) ls8 [] [])
       (\<lambda>(q_types, type_of_ion).
          Inr \<lparr>ps_a_brav = a_brav, ps_el_names = el_names, ps_nions = nions,
               ps_ntypes = length nions, ps_nq = sum_list nions,
               ps_kpt_basis = kpt_basis, ps_q_types = q_types,
               ps_type_of_ion = type_of_ion\<rparr>)))))))"

text \<open>\<^verbatim>\<open>Poscar.from_file\<close> on the lines of POSCAR (\<open>None\<close>: the file cannot be
  opened).\<close>

definition poscar_from_file :: "(string \<Rightarrow> real option) \<Rightarrow> string list option \<Rightarrow> poscar res" where
  "poscar_from_file fl file =
     (case file of
        None \<Rightarrow> Inl IOError
      | Some ls \<Rightarrow>
          bindE (poscar_lattice fl ls) (\<lambda>(a_brav, ls5). poscar_body fl a_brav ls5))"

text \<open>The head of a POSCAR with the cubic unit cell, with the scale 1 and with the
  volume 8; a POSCAR with a line of element names, and one without.\<close>

definition unit_cell :: "string list" where
  "unit_cell = [''1.0 0.0 0.0\<newline>'', ''0.0 1.0 0.0\<newline>'', ''0.0 0.0 1.0\<newline>'']"

definition ion_lines :: "string list" where
  "ion_lines =
     [''Direct\<newline>'',
      ''0.0 0.0 0.0\<newline>'', ''0.5 0.5 0.5\<newline>'',
      ''0.5 0.0 0.0\<newline>'', ''0.0 0.5 0.0\<newline>'', ''0.0 0.0 0.5\<newline>'', ''0.5 0.5 0.0\<newline>'']"

definition named_poscar :: "string list" where
  "named_poscar =
     [''iron oxide\<newline>'', ''1.0\<newline>''] @ unit_cell @ [''Fe O\<newline>'', ''2 4\<newline>''] @ ion_lines"

definition unnamed_poscar :: "string list" where
  "unnamed_poscar =
     [''iron oxide\<newline>'', ''1.0\<newline>''] @ unit_cell @ [''2 4\<newline>''] @ ion_lines"

definition volume_poscar :: "string list" where
  "volume_poscar =
     [''iron oxide\<newline>'', ''-8.0\<newline>''] @ unit_cell @ [''Fe O\<newline>'', ''2 4\<newline>''] @ ion_lines"

section \<open>Doscar and VaspData\<close>

text \<open>The attributes of a \<^verbatim>\<open>Doscar\<close> object; both are \<^verbatim>\<open>None\<close> after
  \<^verbatim>\<open>__init__\<close>.\<close>

record doscar =
  ds_ncdij :: "int option"
  ds_efermi :: "real option"

text \<open>\<^verbatim>\<open>Doscar.from_file\<close>: five lines are skipped, the fourth token of the sixth is
  the Fermi level. The result is the new value of \<^verbatim>\<open>self.efermi\<close>.\<close>

definition doscar_from_file :: "(string \<Rightarrow> real option) \<Rightarrow> string list option \<Rightarrow> real res" where
  "doscar_from_file fl file =
     (case file of
        None \<Rightarrow> Inl IOError
      | Some ls \<Rightarrow>
          bindE (next_line ls) (\<lambda>(l1, ls1).
          bindE (forE [0..<4] (\<lambda>i ls'. bindE (next_line ls') (\<lambda>(l, rest). Inr rest)) ls1)
            (\<lambda>ls5.
          bindE (next_line ls5) (\<lambda>(l6, ls6).
          bindE (index (split_ws l6) 3) (\<lambda>t.
          py_float fl t)))))"

text \<open>The six files of a VASP directory, by their names; \<open>None\<close> is a file that cannot
  be opened. (PROJCAR is named by the module and never read.)\<close>

record vasp_dir =
  LOCPROJ :: "string list option"
  POSCAR :: "string list option"
  IBZKPT :: "string list option"
  EIGENVAL :: "string list option"
  DOSCAR :: "string list option"

text \<open>A \<^verbatim>\<open>VaspData\<close> object read with \<^verbatim>\<open>read_all\<close>. The eigenvalues of EIGENVAL are
  \<open>None\<close> when that file could not be read.\<close>

record vasp_data =
  vd_plocar :: plocar
  vd_poscar :: poscar
  vd_kpoints :: kpoints
  vd_eigenval :: "eigenval option"
  vd_doscar :: doscar

text \<open>\<^verbatim>\<open>except (IOError, StopIteration)\<close>\<close>

definition io_or_stop :: "exn \<Rightarrow> bool" where
  "io_or_stop e = (e = IOError \<or> e = StopIteration)"

text \<open>
  The handler of a failed DOSCAR read. With \<^verbatim>\<open>efermi_required\<close> the statement
  \<^verbatim>\<open>self.plocar.efermi\<close> is evaluated inside \<^verbatim>\<open>try ... except NameError\<close>: a missing
  attribute raises AttributeError, which is not a NameError, so the handler that raises
  \<^verbatim>\<open>Exception("Efermi cannot be read from DOSCAR or LOCPROJ")\<close> does not run and the
  AttributeError leaves \<^verbatim>\<open>__init__\<close>.
\<close>

definition doscar_fallback :: "bool \<Rightarrow> plocar \<Rightarrow> doscar res" where
  "doscar_fallback efermi_required pl =
     (if efermi_required then
        (case (case pl_efermi pl of
                 None \<Rightarrow> Inl AttributeError
               | Some ef \<Rightarrow> Inr \<lparr>ds_ncdij = None, ds_efermi = Some ef\<rparr>) of
           Inl e \<Rightarrow>
             if e = NameError
             then Inl (Exception ''Efermi cannot be read from DOSCAR or LOCPROJ'')
             else Inl e
         | Inr d \<Rightarrow> Inr d)
      else Inr \<lparr>ds_ncdij = Some (int (pl_nspin pl)), ds_efermi = None\<rparr>)"

text \<open>\<^verbatim>\<open>VaspData.__init__\<close> with \<^verbatim>\<open>read_all=True\<close>. The result \<open>None\<close> is a run that
  never returns (the LOCPROJ parser at the end of its file).\<close>

definition vasp_data_init ::
  "(string \<Rightarrow> real option) \<Rightarrow> (real \<Rightarrow> real \<Rightarrow> real) \<Rightarrow> vasp_dir \<Rightarrow> bool
   \<Rightarrow> vasp_data res option" where
  "vasp_data_init fl dv dir efermi_required =
     (case locproj_parser fl (LOCPROJ dir) of
        None \<Rightarrow> None
      | Some (Inl e) \<Rightarrow> Some (Inl e)
      | Some (Inr pl) \<Rightarrow>
          Some (
            bindE (poscar_from_file fl (POSCAR dir)) (\<lambda>po.
            bindE (kpoints_from_file fl dv (IBZKPT dir)) (\<lambda>kp.
            bindE (case eigenval_from_file fl (EIGENVAL dir) of
                     Inl e \<Rightarrow> if io_or_stop e then Inr None else Inl e
                   | Inr ev \<Rightarrow> Inr (Some ev)) (\<lambda>ev.
            bindE (case doscar_from_file fl (DOSCAR dir) of
                     Inl e \<Rightarrow> if io_or_stop e then doscar_fallback efermi_required pl else Inl e
                   | Inr ef \<Rightarrow> Inr \<lparr>ds_ncdij = None, ds_efermi = Some ef\<rparr>) (\<lambda>ds.
              Inr \<lparr>vd_plocar = pl, vd_poscar = po, vd_kpoints = kp,
                   vd_eigenval = ev, vd_doscar = ds\<rparr>))))))"

text \<open>A directory without EIGENVAL and DOSCAR whose LOCPROJ has no Fermi level on its
  first line, and the same directory with a Fermi level there.\<close>

definition bare_locproj :: "string list" where
  "bare_locproj = [''1 0 0 0\<newline>'']"

definition fermi_locproj :: "string list" where
  "fermi_locproj = [''1 0 0 0 0.25\<newline>'']"

definition bare_dir :: vasp_dir where
  "bare_dir = \<lparr>LOCPROJ = Some bare_locproj, POSCAR = Some named_poscar,
               IBZKPT = Some example_ibzkpt, EIGENVAL = None, DOSCAR = None\<rparr>"

definition fermi_dir :: vasp_dir where
  "fermi_dir = \<lparr>LOCPROJ = Some fermi_locproj, POSCAR = Some named_poscar,
                IBZKPT = Some example_ibzkpt, EIGENVAL = None, DOSCAR = None\<rparr>"

section \<open>Properties\<close>

subsection \<open>Loops and exceptions\<close>

lemma bindE_Inr_iff: "bindE m f = Inr y \<longleftrightarrow> (\<exists>x. m = Inr x \<and> f x = Inr y)"
  by (cases m) auto

lemma bindE_Inl_iff: "bindE m f = Inl e \<longleftrightarrow> m = Inl e \<or> (\<exists>x. m = Inr x \<and> f x = Inl e)"
  by (cases m) auto

lemma forD_append:
  "forD (xs @ ys) body s =
     (case forD xs body s of
        None \<Rightarrow> None
      | Some (Inl e) \<Rightarrow> Some (Inl e)
      | Some (Inr s') \<Rightarrow> forD ys body s')"
  by (induction xs arbitrary: s) (auto split: option.splits sum.splits)

lemma forD_map:
  "forD (map f xs) body s = forD xs (\<lambda>i. body (f i)) s"
  by (induction xs arbitrary: s) (auto split: option.splits sum.splits)

lemma forD_product:
  "forD (List.product xs ys) body s = forD xs (\<lambda>x. forD ys (\<lambda>y. body (x, y))) s"
  by (induction xs arbitrary: s) (auto simp: forD_append forD_map split: option.splits sum.splits)

lemma forD_product_fun:
  "forD (List.product xs ys) body = forD xs (\<lambda>x. forD ys (\<lambda>y. body (x, y)))"
  by (rule ext) (rule forD_product)

subsection \<open>The LOCPROJ data loop\<close>

lemma data_loop_flat:
  "data_loop fl nproj nspin nk nband st =
     forD (loop_positions nspin nk nband) (\<lambda>(ispin, ik, ib). read_record fl nproj ispin ik ib) st"
  unfolding data_loop_def loop_positions_def
  by (simp add: forD_product_fun)

lemma loop_positions_set:
  "set (loop_positions nspin nk nband) = {(s, k, b). s < nspin \<and> k < nk \<and> b < nband}"
  unfolding loop_positions_def by auto

lemma distinct_loop_positions: "distinct (loop_positions nspin nk nband)"
  unfolding loop_positions_def
  by (simp add: distinct_product)

lemma plo_line_keeps:
  "plo_line fl ispin ik ib ip st = Inr st' \<Longrightarrow> eigs st' = eigs st \<and> ferw st' = ferw st"
  unfolding plo_line_def
  by (auto simp: bindE_Inr_iff Let_def split: prod.splits)

lemma forE_plo_line_keeps:
  "forE ips (plo_line fl ispin ik ib) st = Inr st' \<Longrightarrow> eigs st' = eigs st \<and> ferw st' = ferw st"
proof (induction ips arbitrary: st)
  case Nil
  then show ?case by simp
next
  case (Cons ip ips)
  from Cons.prems obtain st1 where
    s1: "plo_line fl ispin ik ib ip st = Inr st1" and s2: "forE ips (plo_line fl ispin ik ib) st1 = Inr st'"
    by (auto simp: bindE_Inr_iff)
  from Cons.IH [OF s2] plo_line_keeps [OF s1] show ?case by simp
qed

lemma orbital_record_cases:
  "orbital_record fl nproj ispin ik ib line st =
     (case map_int (take 3 (drop 1 (split_ws line))) of
        Inl e \<Rightarrow> Inl e
      | Inr idx \<Rightarrow>
          if length idx \<noteq> 3 then Inl ValueError
          else if idx = [int ispin + 1, int ik + 1, int ib + 1]
          then record_values fl nproj ispin ik ib (split_ws line) st
          else Inl (AssertionError ''Inconsistency in reading LOCPROJ''))"
  unfolding orbital_record_def Let_def
  by (auto split: sum.splits list.splits)

lemma orbital_record_Inr:
  assumes "orbital_record fl nproj ispin ik ib line st = Inr st'"
  shows "\<exists>e w eigs' ferw'.
           map_int (take 3 (drop 1 (split_ws line))) = Inr [int ispin + 1, int ik + 1, int ib + 1] \<and>
           set3 ik ib ispin e (eigs st) = Inr eigs' \<and>
           set3 ik ib ispin w (ferw st) = Inr ferw' \<and>
           forE [0..<nproj] (plo_line fl ispin ik ib) (st\<lparr>eigs := eigs', ferw := ferw'\<rparr>) = Inr st'"
  using assms unfolding orbital_record_cases record_values_def
  by (auto simp: bindE_Inr_iff split: sum.splits if_splits)

lemma orbital_record_writes:
  assumes "orbital_record fl nproj ispin ik ib line st = Inr st'"
  shows "\<exists>e w. set3 ik ib ispin e (eigs st) = Inr (eigs st') \<and>
               set3 ik ib ispin w (ferw st) = Inr (ferw st')"
proof -
  from orbital_record_Inr [OF assms] obtain e w eigs' ferw' where
    e: "set3 ik ib ispin e (eigs st) = Inr eigs'" and
    w: "set3 ik ib ispin w (ferw st) = Inr ferw'" and
    f: "forE [0..<nproj] (plo_line fl ispin ik ib) (st\<lparr>eigs := eigs', ferw := ferw'\<rparr>) = Inr st'"
    by blast
  from forE_plo_line_keeps [OF f] have "eigs st' = eigs'" "ferw st' = ferw'" by simp_all
  with e w show ?thesis by blast
qed

lemma read_record_writes:
  assumes "read_record fl nproj ispin ik ib st = Some (Inr st')"
  shows "\<exists>e w. set3 ik ib ispin e (eigs st) = Inr (eigs st') \<and>
               set3 ik ib ispin w (ferw st) = Inr (ferw st')"
  using assms orbital_record_writes [of fl nproj ispin ik ib _ "st\<lparr>lines := _\<rparr>" st']
  unfolding read_record_def
  by (auto split: option.splits prod.splits)

lemma locproj_dims_spin:
  assumes "header_ints line0 = Inr [ncdij, nk0, nband0, nproj0]"
    and "locproj_dims fl line0 = Inr (self, nk, nproj)"
  shows "pl_nspin self = nat (if ncdij < 4 then ncdij else 1)"
    and "pl_nspin_band self = (if ncdij = 2 then 2 else 1)"
    and "pl_nc_flag self = (if ncdij = 4 then 1 else 0)"
    and "pl_ncdij self = (if ncdij = 4 then 1 else ncdij)"
    and "nk = nat nk0" and "nproj = nat nproj0" and "pl_nband self = nat nband0"
  using assms unfolding locproj_dims_def Let_def
  by (auto split: if_splits)

text \<open>
  Claim C10. For a header value ncdij of 1, 2 or 4 the logical spin count \<open>nspin\<close> and
  the band-spin count \<open>nspin_band\<close> are equal (2 for ncdij = 2, else 1). The data loop
  is one pass over the positions (ispin, ik, ib) with ispin below the logical spin count;
  a pass of its body that returns has written the slot [ik, ib, ispin] of the eigenvalue
  and of the Fermi-weight array; and the slots of the positions are pairwise different
  and are all the slots of an array of shape (nk, nband, nspin_band).
\<close>

theorem spin_count_equals_band_spin_count:
  assumes "header_ints line0 = Inr [ncdij, nk0, nband0, nproj0]"
    and "ncdij \<in> {1, 2, 4}"
    and "locproj_dims fl line0 = Inr (self, nk, nproj)"
  shows "pl_nspin self = pl_nspin_band self \<and>
         pl_nspin self = (if ncdij = 2 then 2 else 1) \<and>
         (\<forall>st. data_loop fl nproj (pl_nspin self) nk (pl_nband self) st =
               forD (loop_positions (pl_nspin self) nk (pl_nband self))
                 (\<lambda>(ispin, ik, ib). read_record fl nproj ispin ik ib) st) \<and>
         (\<forall>ispin ik ib st st'. read_record fl nproj ispin ik ib st = Some (Inr st') \<longrightarrow>
               (\<exists>e w. set3 ik ib ispin e (eigs st) = Inr (eigs st') \<and>
                      set3 ik ib ispin w (ferw st) = Inr (ferw st'))) \<and>
         distinct (map (\<lambda>(ispin, ik, ib). (ik, ib, ispin))
                     (loop_positions (pl_nspin self) nk (pl_nband self))) \<and>
         set (map (\<lambda>(ispin, ik, ib). (ik, ib, ispin))
                (loop_positions (pl_nspin self) nk (pl_nband self))) =
           {(ik, ib, ispin). ik < nk \<and> ib < pl_nband self \<and> ispin < pl_nspin_band self}"
proof -
  have eq: "pl_nspin self = pl_nspin_band self" and v: "pl_nspin self = (if ncdij = 2 then 2 else 1)"
    using locproj_dims_spin(1,2) [OF assms(1,3)] assms(2) by auto
  have d: "distinct (map (\<lambda>(ispin, ik, ib). (ik, ib, ispin))
                     (loop_positions (pl_nspin self) nk (pl_nband self)))"
    by (auto simp: distinct_map distinct_loop_positions inj_on_def)
  have s: "set (map (\<lambda>(ispin, ik, ib). (ik, ib, ispin))
                (loop_positions (pl_nspin self) nk (pl_nband self))) =
           {(ik, ib, ispin). ik < nk \<and> ib < pl_nband self \<and> ispin < pl_nspin_band self}"
    unfolding eq [symmetric] by (auto simp: loop_positions_set image_iff)
  show ?thesis
    using eq v d s data_loop_flat read_record_writes by blast
qed


theorem spin_count_equals_band_spin_count_witness:
  "header_ints ''2 3 2 1 0.5'' = Inr [2, 3, 2, 1] \<and>
   (2::int) \<in> {1, 2, 4} \<and>
   locproj_dims dec_float ''2 3 2 1 0.5'' =
     Inr (\<lparr>pl_ncdij = 2, pl_nband = 2, pl_nspin = 2, pl_nspin_band = 2,
           pl_efermi = Some (1 / 2), pl_nc_flag = 0, pl_eigs = [], pl_ferw = [],
           pl_proj_params = [], pl_plo = []\<rparr>, 3, 1) \<and>
   set (map (\<lambda>(ispin, ik, ib). (ik, ib, ispin)) (loop_positions 2 3 2)) =
     {(ik, ib, ispin). ik < 3 \<and> ib < 2 \<and> ispin < 2}"
proof -
  have h1: "header_ints ''2 3 2 1 0.5'' = Inr [2, 3, 2, 1]"
    by code_simp
  have h2: "(2::int) \<in> {1, 2, 4}"
    by simp
  have h3: "locproj_dims dec_float ''2 3 2 1 0.5'' =
     Inr (\<lparr>pl_ncdij = 2, pl_nband = 2, pl_nspin = 2, pl_nspin_band = 2,
           pl_efermi = Some (1 / 2), pl_nc_flag = 0, pl_eigs = [], pl_ferw = [],
           pl_proj_params = [], pl_plo = []\<rparr>, 3, 1)"
    by code_simp
  from spin_count_equals_band_spin_count [OF h1 h2 h3] h1 h2 h3
  show ?thesis by simp
qed

subsection \<open>The LOCPROJ header block\<close>

lemma header_entry_Inr:
  assumes "header_entry nc ip line ps = Inr ps'"
  shows "ip < length ps \<and> (\<exists>x. ps' = ps[ip := x] \<and> entry_ok nc ip x)"
proof -
  from assms obtain s1 tok where
    r: "(case py_int tok of
           None \<Rightarrow> Inl ValueError
         | Some isite \<Rightarrow>
             (let label = strip (last (split_on CHR '':'' line))
              in case index_of label orb_labels of
                   None \<Rightarrow> Inl ValueError
                 | Some lm \<Rightarrow>
                     if ip < length ps
                     then Inr (ps[ip := Some
                            \<lparr>pp_label = label, pp_isite = isite, pp_l = fst (lm_to_l_m lm),
                             pp_m = stored_m nc ip (snd (lm_to_l_m lm))\<rparr>])
                     else Inl IndexError)) = Inr ps'"
    unfolding header_entry_def Let_def bindE_Inr_iff by blast
  then obtain isite lm where
    lm: "index_of (strip (last (split_on CHR '':'' line))) orb_labels = Some lm" and
    ip: "ip < length ps" and
    ps': "ps' = ps[ip := Some \<lparr>pp_label = strip (last (split_on CHR '':'' line)),
                             pp_isite = isite, pp_l = fst (lm_to_l_m lm),
                             pp_m = stored_m nc ip (snd (lm_to_l_m lm))\<rparr>]"
    unfolding Let_def by (auto split: option.splits if_splits)
  have "entry_ok nc ip (Some \<lparr>pp_label = strip (last (split_on CHR '':'' line)),
                             pp_isite = isite, pp_l = fst (lm_to_l_m lm),
                             pp_m = stored_m nc ip (snd (lm_to_l_m lm))\<rparr>)"
    unfolding entry_ok_def using lm by simp
  with ip ps' show ?thesis by blast
qed

lemma header_loop_inv:
  assumes "header_loop nc ps ip line rest = Inr (ip', ps', rest')"
    and "\<forall>i<ip. entry_ok nc i (ps ! i)"
  shows "ip \<le> ip' \<and> length ps' = length ps \<and> (\<forall>i<ip'. entry_ok nc i (ps' ! i))"
  using assms
proof (induction nc ps ip line rest rule: header_loop.induct)
  case (1 nc ps ip line)
  show ?case
  proof (cases "line = []")
    case True
    with 1 show ?thesis by simp
  next
    case False
    with "1.prems"(1) obtain ps1 where
      e: "header_entry nc ip line ps = Inr ps1" and r: "ip' = ip + 1" "ps' = ps1"
      by (auto simp: bindE_Inr_iff)
    from header_entry_Inr [OF e] obtain x where
      x: "ip < length ps" "ps1 = ps[ip := x]" "entry_ok nc ip x" by blast
    have "\<forall>i<ip + 1. entry_ok nc i (ps1 ! i)"
    proof (intro allI impI)
      fix i assume "i < ip + 1"
      then consider "i < ip" | "i = ip" by linarith
      then show "entry_ok nc i (ps1 ! i)"
        using x "1.prems"(2) by cases (simp_all add: nth_list_update)
    qed
    with r x show ?thesis by simp
  qed
next
  case (2 nc ps ip line y ys)
  show ?case
  proof (cases "line = []")
    case True
    with 2 show ?thesis by simp
  next
    case False
    with "2.prems"(1) obtain ps1 where
      e: "header_entry nc ip line ps = Inr ps1" and
      r: "header_loop nc ps1 (ip + 1) (strip y) ys = Inr (ip', ps', rest')"
      by (auto simp: bindE_Inr_iff)
    from header_entry_Inr [OF e] obtain x where
      x: "ip < length ps" "ps1 = ps[ip := x]" "entry_ok nc ip x" by blast
    have inv: "\<forall>i<ip + 1. entry_ok nc i (ps1 ! i)"
    proof (intro allI impI)
      fix i assume "i < ip + 1"
      then consider "i < ip" | "i = ip" by linarith
      then show "entry_ok nc i (ps1 ! i)"
        using x "2.prems"(2) by cases (simp_all add: nth_list_update)
    qed
    from "2.IH" [OF False r inv] x show ?thesis by simp
  qed
qed

lemma locproj_parser_Inr:
  assumes "locproj_parser fl (Some ls) = Some (Inr r)"
  shows "\<exists>self nk nproj ls3 st.
           locproj_dims fl (fst (readline ls)) = Inr (self, nk, nproj) \<and>
           header_loop (pl_nc_flag self) (replicate nproj None) 0
             (fst (search_for isite_line (snd (readline ls))))
             (snd (search_for isite_line (snd (readline ls)))) =
               Inr (nproj, pl_proj_params r, ls3) \<and>
           data_loop fl nproj (pl_nspin self) nk (pl_nband self)
             \<lparr>lines = ls3,
              eigs = zeros3 nk (pl_nband self) (pl_nspin_band self),
              ferw = zeros3 nk (pl_nband self) (pl_nspin_band self),
              plo = zeros4 nproj (pl_nspin self) nk (pl_nband self)\<rparr> = Some (Inr st) \<and>
           pl_eigs r = eigs st \<and> pl_ferw r = ferw st \<and> pl_plo r = plo st \<and>
           pl_nc_flag r = pl_nc_flag self \<and> pl_nspin r = pl_nspin self \<and>
           pl_nspin_band r = pl_nspin_band self \<and> pl_nband r = pl_nband self \<and>
           pl_ncdij r = pl_ncdij self \<and> pl_efermi r = pl_efermi self"
  using assms unfolding locproj_parser_def
  by (auto split: sum.splits prod.splits if_splits option.splits)

text \<open>
  Claim C4. When the parser returns on a LOCPROJ whose first line declares ncdij = 4, the
  non-collinear flag is 1 and the logical spin count is 1, and the entry of index \<open>ip\<close>
  holds, for the m of its label, \<open>2m\<close> when \<open>ip\<close> is even and \<open>2m + 1\<close> when it is
  odd. For any other ncdij the flag is 0 and the entry holds m itself.
\<close>

theorem noncollinear_m_encoding:
  assumes "locproj_parser fl (Some ls) = Some (Inr r)"
    and "header_ints (fst (readline ls)) = Inr [ncdij, nk, nband, nproj]"
  shows "(ncdij = 4 \<longrightarrow> pl_nc_flag r = 1 \<and> pl_nspin r = 1) \<and>
         (ncdij \<noteq> 4 \<longrightarrow> pl_nc_flag r = 0) \<and>
         length (pl_proj_params r) = nat nproj \<and>
         (\<forall>ip < nat nproj. \<exists>p lm.
            pl_proj_params r ! ip = Some p \<and>
            index_of (pp_label p) orb_labels = Some lm \<and>
            pp_m p = (if ncdij = 4
                      then (if even ip then 2 * snd (lm_to_l_m lm)
                            else 2 * snd (lm_to_l_m lm) + 1)
                      else snd (lm_to_l_m lm)))"
proof -
  from locproj_parser_Inr [OF assms(1)] obtain self nk' nproj' ls3 where
    d: "locproj_dims fl (fst (readline ls)) = Inr (self, nk', nproj')" and
    h: "header_loop (pl_nc_flag self) (replicate nproj' None) 0
             (fst (search_for isite_line (snd (readline ls))))
             (snd (search_for isite_line (snd (readline ls)))) =
               Inr (nproj', pl_proj_params r, ls3)" and
    r: "pl_nc_flag r = pl_nc_flag self" "pl_nspin r = pl_nspin self"
    by blast
  note s = locproj_dims_spin [OF assms(2) d]
  from header_loop_inv [OF h] have
    len: "length (pl_proj_params r) = nproj'" and
    ok: "\<forall>i<nproj'. entry_ok (pl_nc_flag self) i (pl_proj_params r ! i)"
    by simp_all
  have flag: "pl_nc_flag self = (if ncdij = 4 then 1 else 0)"
    using s(3) by simp
  have 1: "ncdij = 4 \<longrightarrow> pl_nc_flag r = 1 \<and> pl_nspin r = 1"
    using s(1,3) r by simp
  have 2: "ncdij \<noteq> 4 \<longrightarrow> pl_nc_flag r = 0"
    using s(3) r by simp
  have 3: "length (pl_proj_params r) = nat nproj"
    using len s(6) r by simp
  have 4: "\<forall>ip < nat nproj. \<exists>p lm.
            pl_proj_params r ! ip = Some p \<and>
            index_of (pp_label p) orb_labels = Some lm \<and>
            pp_m p = (if ncdij = 4
                      then (if even ip then 2 * snd (lm_to_l_m lm)
                            else 2 * snd (lm_to_l_m lm) + 1)
                      else snd (lm_to_l_m lm))"
  proof (intro allI impI)
    fix ip assume "ip < nat nproj"
    with s(6) have "ip < nproj'" by simp
    with ok have "entry_ok (pl_nc_flag self) ip (pl_proj_params r ! ip)" by blast
    then show "\<exists>p lm.
            pl_proj_params r ! ip = Some p \<and>
            index_of (pp_label p) orb_labels = Some lm \<and>
            pp_m p = (if ncdij = 4
                      then (if even ip then 2 * snd (lm_to_l_m lm)
                            else 2 * snd (lm_to_l_m lm) + 1)
                      else snd (lm_to_l_m lm))"
      unfolding entry_ok_def stored_m_def flag using r by (auto split: if_splits)
  qed
  from 1 2 3 4 show ?thesis by blast
qed

theorem noncollinear_m_encoding_witness:
  "(let R = \<lparr>pl_ncdij = 1, pl_nband = 1, pl_nspin = 1, pl_nspin_band = 1,
             pl_efermi = Some (1 / 2), pl_nc_flag = 1, pl_eigs = [[[1 / 4]]],
             pl_ferw = [[[1]]],
             pl_proj_params =
               [Some \<lparr>pp_label = ''dyz'', pp_isite = 1, pp_l = 2, pp_m = 2\<rparr>,
                Some \<lparr>pp_label = ''dyz'', pp_isite = 1, pp_l = 2, pp_m = 3\<rparr>],
             pl_plo = [[[[Complex (1 / 2) (1 / 4)]]], [[[Complex (1 / 2) (- (1 / 4))]]]]\<rparr>
    in locproj_parser dec_float (Some example_locproj) = Some (Inr R) \<and>
       header_ints (fst (readline example_locproj)) = Inr [4, 1, 1, 2] \<and>
       pl_nc_flag R = 1 \<and> pl_nspin R = 1 \<and> length (pl_proj_params R) = 2)"
proof -
  have h1: "locproj_parser dec_float (Some example_locproj) =
     Some (Inr \<lparr>pl_ncdij = 1, pl_nband = 1, pl_nspin = 1, pl_nspin_band = 1,
             pl_efermi = Some (1 / 2), pl_nc_flag = 1, pl_eigs = [[[1 / 4]]],
             pl_ferw = [[[1]]],
             pl_proj_params =
               [Some \<lparr>pp_label = ''dyz'', pp_isite = 1, pp_l = 2, pp_m = 2\<rparr>,
                Some \<lparr>pp_label = ''dyz'', pp_isite = 1, pp_l = 2, pp_m = 3\<rparr>],
             pl_plo = [[[[Complex (1 / 2) (1 / 4)]]], [[[Complex (1 / 2) (- (1 / 4))]]]]\<rparr>)"
    by code_simp
  have h2: "header_ints (fst (readline example_locproj)) = Inr [4, 1, 1, 2]"
    by code_simp
  from noncollinear_m_encoding [OF h1 h2] h1 h2 show ?thesis
    unfolding Let_def by simp
qed

subsection \<open>The index check of the data loop\<close>

lemma forD_Inl_iff:
  "forD xs body s = Some (Inl e) \<longleftrightarrow>
     (\<exists>pre x post s'. xs = pre @ x # post \<and> forD pre body s = Some (Inr s') \<and>
                      body x s' = Some (Inl e))"
proof (induction xs arbitrary: s)
  case Nil
  then show ?case by simp
next
  case (Cons y ys)
  show ?case
  proof (cases "body y s")
    case None
    then show ?thesis
      by (auto simp: Cons_eq_append_conv)
  next
    case (Some r)
    show ?thesis
    proof (cases r)
      case (Inl e')
      show ?thesis
      proof
        assume "forD (y # ys) body s = Some (Inl e)"
        with Some Inl have "body y s = Some (Inl e)" by simp
        then have "y # ys = [] @ y # ys \<and> forD [] body s = Some (Inr s) \<and>
                   body y s = Some (Inl e)" by simp
        then show "\<exists>pre x post s'. y # ys = pre @ x # post \<and>
                   forD pre body s = Some (Inr s') \<and> body x s' = Some (Inl e)"
          by blast
      next
        assume "\<exists>pre x post s'. y # ys = pre @ x # post \<and>
                   forD pre body s = Some (Inr s') \<and> body x s' = Some (Inl e)"
        then obtain pre x post s' where
          p: "y # ys = pre @ x # post" "forD pre body s = Some (Inr s')" "body x s' = Some (Inl e)"
          by blast
        show "forD (y # ys) body s = Some (Inl e)"
        proof (cases pre)
          case Nil
          with p Some Inl show ?thesis by simp
        next
          case (Cons z zs)
          with p Some Inl show ?thesis by simp
        qed
      qed
    next
      case (Inr s1)
      have "forD (y # ys) body s = Some (Inl e) \<longleftrightarrow> forD ys body s1 = Some (Inl e)"
        using Some Inr by simp
      also have "\<dots> \<longleftrightarrow> (\<exists>pre x post s'. ys = pre @ x # post \<and>
                   forD pre body s1 = Some (Inr s') \<and> body x s' = Some (Inl e))"
        by (rule Cons.IH)
      also have "\<dots> \<longleftrightarrow> (\<exists>pre x post s'. y # ys = pre @ x # post \<and>
                   forD pre body s = Some (Inr s') \<and> body x s' = Some (Inl e))"
      proof
        assume "\<exists>pre x post s'. ys = pre @ x # post \<and>
                   forD pre body s1 = Some (Inr s') \<and> body x s' = Some (Inl e)"
        then obtain pre x post s' where
          "ys = pre @ x # post" "forD pre body s1 = Some (Inr s')" "body x s' = Some (Inl e)"
          by blast
        then have "y # ys = (y # pre) @ x # post \<and> forD (y # pre) body s = Some (Inr s') \<and>
                   body x s' = Some (Inl e)"
          using Some Inr by simp
        then show "\<exists>pre x post s'. y # ys = pre @ x # post \<and>
                   forD pre body s = Some (Inr s') \<and> body x s' = Some (Inl e)"
          by blast
      next
        assume "\<exists>pre x post s'. y # ys = pre @ x # post \<and>
                   forD pre body s = Some (Inr s') \<and> body x s' = Some (Inl e)"
        then obtain pre x post s' where
          p: "y # ys = pre @ x # post" "forD pre body s = Some (Inr s')" "body x s' = Some (Inl e)"
          by blast
        show "\<exists>pre x post s'. ys = pre @ x # post \<and>
                   forD pre body s1 = Some (Inr s') \<and> body x s' = Some (Inl e)"
        proof (cases pre)
          case Nil
          with p Some Inr show ?thesis by simp
        next
          case (Cons z zs)
          with p Some Inr have "ys = zs @ x # post \<and> forD zs body s1 = Some (Inr s')"
            by simp
          with p(3) show ?thesis by blast
        qed
      qed
      finally show ?thesis .
    qed
  qed
qed

lemma forD_Inr_step:
  assumes "forD (pre @ x # post) body s = Some (Inr t)"
    and "forD pre body s = Some (Inr s')"
  shows "\<exists>s''. body x s' = Some (Inr s'')"
  using assms by (auto simp: forD_append split: option.splits sum.splits)

lemma plo_line_error:
  "plo_line fl ispin ik ib ip st = Inl e \<Longrightarrow> e = IndexError \<or> e = ValueError"
  unfolding plo_line_def Let_def index_def py_float_def set4_def set3_def
  by (auto simp: bindE_Inl_iff split: prod.splits if_splits option.splits sum.splits)

lemma forE_plo_line_error:
  "forE ips (plo_line fl ispin ik ib) st = Inl e \<Longrightarrow> e = IndexError \<or> e = ValueError"
proof (induction ips arbitrary: st)
  case Nil
  then show ?case by simp
next
  case (Cons ip ips)
  then show ?case
    by (auto simp: bindE_Inl_iff dest: plo_line_error)
qed

lemma record_values_error:
  "record_values fl nproj ispin ik ib sline st = Inl e \<Longrightarrow> e = IndexError \<or> e = ValueError"
  unfolding record_values_def index_def py_float_def set3_def
  by (auto simp: bindE_Inl_iff split: if_splits option.splits dest: forE_plo_line_error)

lemma orbital_record_inconsistent_iff:
  "orbital_record fl nproj ispin ik ib line st =
     Inl (AssertionError ''Inconsistency in reading LOCPROJ'') \<longleftrightarrow>
   (\<exists>a b c. map_int (take 3 (drop 1 (split_ws line))) = Inr [a, b, c] \<and>
            (a, b, c) \<noteq> (int ispin + 1, int ik + 1, int ib + 1))"
proof (cases "map_int (take 3 (drop 1 (split_ws line)))")
  case (Inl e)
  then have "e = ValueError"
    unfolding map_int_def by (auto split: option.splits)
  with Inl show ?thesis
    unfolding orbital_record_cases by simp
next
  case (Inr idx)
  show ?thesis
  proof (cases "length idx = 3")
    case False
    with Inr show ?thesis
      unfolding orbital_record_cases by auto
  next
    case True
    then obtain a b c where idx: "idx = [a, b, c]"
      by (auto simp: length_Suc_conv numeral_3_eq_3)
    show ?thesis
      unfolding orbital_record_cases Inr idx
      using record_values_error [of fl nproj ispin ik ib "split_ws line" st]
      by auto
  qed
qed

lemma read_record_inconsistent_iff:
  "read_record fl nproj ispin ik ib st =
     Some (Inl (AssertionError ''Inconsistency in reading LOCPROJ'')) \<longleftrightarrow>
   (\<exists>line rest a b c.
      skip_blank (lines st) = Some (line, rest) \<and>
      map_int (take 3 (drop 1 (split_ws line))) = Inr [a, b, c] \<and>
      (a, b, c) \<noteq> (int ispin + 1, int ik + 1, int ib + 1))"
  unfolding read_record_def
  by (auto simp: orbital_record_inconsistent_iff split: option.splits)

lemma read_record_Inr:
  assumes "read_record fl nproj ispin ik ib st = Some (Inr st')"
  shows "\<exists>line rest.
      skip_blank (lines st) = Some (line, rest) \<and>
      map_int (take 3 (drop 1 (split_ws line))) = Inr [int ispin + 1, int ik + 1, int ib + 1]"
  using assms unfolding read_record_def
  by (auto split: option.splits dest: orbital_record_Inr)

text \<open>
  Claim C1. The triple loop raises the AssertionError "Inconsistency in reading LOCPROJ"
  exactly when, the records of the positions before it having been read, the record of
  some position (ispin, ik, ib) declares three indices other than
  (ispin + 1, ik + 1, ib + 1). When the loop returns, the record read at every position
  declared exactly these. (The \<^verbatim>\<open>assert\<close> is taken as executed: Python is not run with
  \<^verbatim>\<open>-O\<close>.)
\<close>

theorem record_indices_checked:
  "(data_loop fl nproj nspin nk nband st =
      Some (Inl (AssertionError ''Inconsistency in reading LOCPROJ'')) \<longleftrightarrow>
    (\<exists>pre ispin ik ib post st' line rest a b c.
       loop_positions nspin nk nband = pre @ (ispin, ik, ib) # post \<and>
       forD pre (\<lambda>(ispin, ik, ib). read_record fl nproj ispin ik ib) st = Some (Inr st') \<and>
       skip_blank (lines st') = Some (line, rest) \<and>
       map_int (take 3 (drop 1 (split_ws line))) = Inr [a, b, c] \<and>
       (a, b, c) \<noteq> (int ispin + 1, int ik + 1, int ib + 1))) \<and>
   ((\<exists>st''. data_loop fl nproj nspin nk nband st = Some (Inr st'')) \<longrightarrow>
    (\<forall>pre ispin ik ib post st'.
       loop_positions nspin nk nband = pre @ (ispin, ik, ib) # post \<and>
       forD pre (\<lambda>(ispin, ik, ib). read_record fl nproj ispin ik ib) st = Some (Inr st') \<longrightarrow>
       (\<exists>line rest.
          skip_blank (lines st') = Some (line, rest) \<and>
          map_int (take 3 (drop 1 (split_ws line))) =
            Inr [int ispin + 1, int ik + 1, int ib + 1])))"
proof (intro conjI impI allI)
  show "data_loop fl nproj nspin nk nband st =
      Some (Inl (AssertionError ''Inconsistency in reading LOCPROJ'')) \<longleftrightarrow>
    (\<exists>pre ispin ik ib post st' line rest a b c.
       loop_positions nspin nk nband = pre @ (ispin, ik, ib) # post \<and>
       forD pre (\<lambda>(ispin, ik, ib). read_record fl nproj ispin ik ib) st = Some (Inr st') \<and>
       skip_blank (lines st') = Some (line, rest) \<and>
       map_int (take 3 (drop 1 (split_ws line))) = Inr [a, b, c] \<and>
       (a, b, c) \<noteq> (int ispin + 1, int ik + 1, int ib + 1))"
    unfolding data_loop_flat forD_Inl_iff
    by (simp add: read_record_inconsistent_iff split_paired_Ex)
next
  fix pre ispin ik ib post st'
  assume ret: "\<exists>st''. data_loop fl nproj nspin nk nband st = Some (Inr st'')"
    and pos: "loop_positions nspin nk nband = pre @ (ispin, ik, ib) # post \<and>
       forD pre (\<lambda>(ispin, ik, ib). read_record fl nproj ispin ik ib) st = Some (Inr st')"
  from ret obtain st'' where
    "forD (pre @ (ispin, ik, ib) # post) (\<lambda>(ispin, ik, ib). read_record fl nproj ispin ik ib) st =
       Some (Inr st'')"
    unfolding data_loop_flat using pos by auto
  from forD_Inr_step [OF this] pos obtain s2 where
    "read_record fl nproj ispin ik ib st' = Some (Inr s2)" by auto
  from read_record_Inr [OF this]
  show "\<exists>line rest.
          skip_blank (lines st') = Some (line, rest) \<and>
          map_int (take 3 (drop 1 (split_ws line))) =
            Inr [int ispin + 1, int ik + 1, int ib + 1]" .
qed


theorem record_indices_checked_witness:
  "data_loop dec_float 0 1 1 2 swapped_records =
     Some (Inl (AssertionError ''Inconsistency in reading LOCPROJ'')) \<and>
   (\<exists>pre ispin ik ib post st' line rest a b c.
       loop_positions 1 1 2 = pre @ (ispin, ik, ib) # post \<and>
       forD pre (\<lambda>(ispin, ik, ib). read_record dec_float 0 ispin ik ib) swapped_records =
         Some (Inr st') \<and>
       skip_blank (lines st') = Some (line, rest) \<and>
       map_int (take 3 (drop 1 (split_ws line))) = Inr [a, b, c] \<and>
       (a, b, c) \<noteq> (int ispin + 1, int ik + 1, int ib + 1))"
proof -
  have h: "data_loop dec_float 0 1 1 2 swapped_records =
     Some (Inl (AssertionError ''Inconsistency in reading LOCPROJ''))"
    by code_simp
  from record_indices_checked [THEN conjunct1, THEN iffD1, OF h] h
  show ?thesis by simp
qed

subsection \<open>The data loop at the end of the file\<close>

lemma skip_blank_Some:
  assumes "skip_blank ls = Some r"
  shows "\<exists>l \<in> set ls. strip l \<noteq> []"
proof (rule skip_blank.raw_induct [where P = "\<lambda>ls r. \<exists>l \<in> set ls. strip l \<noteq> []", OF _ assms])
  fix f :: "string list \<Rightarrow> (string \<times> string list) option" and ls r
  assume ih: "\<And>x y. f x = Some y \<Longrightarrow> \<exists>l \<in> set x. strip l \<noteq> []"
    and c: "(case readline ls of
               (line, rest) \<Rightarrow> if strip line = [] then f rest else Some (strip line, rest)) =
            Some r"
  show "\<exists>l \<in> set ls. strip l \<noteq> []"
  proof (cases ls)
    case Nil
    with c have "f [] = Some r"
      unfolding readline_def strip_def by simp
    from ih [OF this] show ?thesis by simp
  next
    case (Cons l rest)
    show ?thesis
    proof (cases "strip l = []")
      case True
      with c Cons have "f rest = Some r"
        unfolding readline_def by simp
      from ih [OF this] Cons show ?thesis by auto
    next
      case False
      with Cons show ?thesis by auto
    qed
  qed
qed

lemma skip_blank_None:
  assumes "\<forall>l \<in> set ls. strip l = []"
  shows "skip_blank ls = None"
proof (cases "skip_blank ls")
  case None
  then show ?thesis .
next
  case (Some r)
  from skip_blank_Some [OF this] assms show ?thesis by blast
qed

text \<open>
  The end of the file in the data loop. When only blank lines are left (or none) at a
  position of the triple loop, the loop \<^verbatim>\<open>while not line\<close> reads the empty string for
  ever: the read of the record, and with it the data loop at its first position, does
  not return.
\<close>

theorem record_at_end_of_file_never_returns:
  assumes "\<forall>l \<in> set (lines st). strip l = []"
  shows "read_record fl nproj ispin ik ib st = None \<and>
         (0 < nspin \<and> 0 < nk \<and> 0 < nband \<longrightarrow> data_loop fl nproj nspin nk nband st = None)"
proof -
  from skip_blank_None [OF assms] have r: "read_record fl nproj i k b st = None" for i k b
    unfolding read_record_def by simp
  have "data_loop fl nproj nspin nk nband st = None"
    if "0 < nspin" "0 < nk" "0 < nband"
  proof -
    from that have "[0..<nspin] = 0 # [1..<nspin]" "[0..<nk] = 0 # [1..<nk]"
      "[0..<nband] = 0 # [1..<nband]"
      by (simp_all add: upt_conv_Cons)
    then show ?thesis
      unfolding data_loop_def using r by simp
  qed
  with r show ?thesis by simp
qed

theorem record_at_end_of_file_never_returns_witness:
  "strip ''\<newline>'' = [] \<and>
   data_loop dec_float 0 1 1 1
     \<lparr>lines = [''\<newline>''], eigs = zeros3 1 1 1, ferw = zeros3 1 1 1, plo = zeros4 0 1 1 1\<rparr> = None"
proof -
  have s: "strip ''\<newline>'' = []" by code_simp
  have h: "\<forall>l \<in> set (lines \<lparr>lines = [''\<newline>''], eigs = zeros3 1 1 1, ferw = zeros3 1 1 1,
                          plo = zeros4 0 1 1 1 :: complex list list list list\<rparr>). strip l = []"
    using s by simp
  from record_at_end_of_file_never_returns [OF h, of dec_float 0 0 0 0 1 1 1] s
  show ?thesis by simp
qed

subsection \<open>The number of header entries\<close>

lemma index_of_None_iff: "index_of x ys = None \<longleftrightarrow> x \<notin> set ys"
  by (induction ys) auto

lemma header_block_Cons:
  "line \<noteq> [] \<Longrightarrow> header_block line (x # xs) = line # header_block (strip x) xs"
  unfolding header_block_def by simp

lemma header_block_Nil: "line \<noteq> [] \<Longrightarrow> header_block line [] = [line]"
  unfolding header_block_def by simp

lemma header_block_empty: "header_block [] rest = []"
  unfolding header_block_def by simp

lemma header_entry_label:
  assumes "header_entry nc ip line ps = Inr ps'"
  shows "label_of line \<in> set orb_labels"
proof -
  from assms obtain s1 tok where
    r: "(case py_int tok of
           None \<Rightarrow> Inl ValueError
         | Some isite \<Rightarrow>
             (let label = strip (last (split_on CHR '':'' line))
              in case index_of label orb_labels of
                   None \<Rightarrow> Inl ValueError
                 | Some lm \<Rightarrow>
                     if ip < length ps
                     then Inr (ps[ip := Some
                            \<lparr>pp_label = label, pp_isite = isite, pp_l = fst (lm_to_l_m lm),
                             pp_m = stored_m nc ip (snd (lm_to_l_m lm))\<rparr>])
                     else Inl IndexError)) = Inr ps'"
    unfolding header_entry_def Let_def bindE_Inr_iff by blast
  then obtain lm where "index_of (label_of line) orb_labels = Some lm"
    unfolding Let_def label_of_def by (auto split: option.splits if_splits)
  then show ?thesis
    using index_of_None_iff [of "label_of line" orb_labels] by auto
qed

lemma header_loop_block:
  assumes "header_loop nc ps ip line rest = Inr (ip', ps', rest')"
  shows "ip' = ip + length (header_block line rest) \<and>
         (\<forall>x \<in> set (header_block line rest). label_of x \<in> set orb_labels)"
  using assms
proof (induction nc ps ip line rest rule: header_loop.induct)
  case (1 nc ps ip line)
  show ?case
  proof (cases "line = []")
    case True
    with 1 show ?thesis by (simp add: header_block_empty)
  next
    case False
    with "1.prems" obtain ps1 where
      e: "header_entry nc ip line ps = Inr ps1" and r: "ip' = ip + 1"
      by (auto simp: bindE_Inr_iff)
    from header_entry_label [OF e] r False show ?thesis
      by (simp add: header_block_Nil)
  qed
next
  case (2 nc ps ip line y ys)
  show ?case
  proof (cases "line = []")
    case True
    with 2 show ?thesis by (simp add: header_block_empty)
  next
    case False
    with "2.prems" obtain ps1 where
      e: "header_entry nc ip line ps = Inr ps1" and
      r: "header_loop nc ps1 (ip + 1) (strip y) ys = Inr (ip', ps', rest')"
      by (auto simp: bindE_Inr_iff)
    from "2.IH" [OF False r] header_entry_label [OF e] False show ?thesis
      by (simp add: header_block_Cons)
  qed
qed

lemma locproj_parser_header_cases:
  assumes "locproj_dims fl (fst (readline ls)) = Inr (self, nk, nproj)"
  shows "(case header_loop (pl_nc_flag self) (replicate nproj None) 0
                (fst (search_for isite_line (snd (readline ls))))
                (snd (search_for isite_line (snd (readline ls)))) of
            Inl e \<Rightarrow> locproj_parser fl (Some ls) = Some (Inl e)
          | Inr (ip, ps, ls3) \<Rightarrow>
              ip \<noteq> nproj \<longrightarrow>
              locproj_parser fl (Some ls) =
                Some (Inl (AssertionError
                  ''Number of projectors in the header is wrong in LOCPROJ'')))"
  using assms unfolding locproj_parser_def
  by (auto split: sum.splits prod.splits)

text \<open>
  Claim C2, amended. The header loop runs on the line found by the search for the marker
  and on every line after it up to the first blank line or the end of the file, whether
  or not these later lines carry the marker. When the parser returns, the number of
  these lines and the number of entries of \<^verbatim>\<open>proj_params\<close> both equal the declared
  number of projectors, and every entry is filled. When the number of these lines differs
  from the declared number, or one of them has a label outside the table of 16 labels,
  the parser raises an exception.
\<close>

theorem header_block_count:
  assumes "locproj_dims fl (fst (readline ls)) = Inr (self, nk, nproj)"
  shows "(\<forall>r. locproj_parser fl (Some ls) = Some (Inr r) \<longrightarrow>
            length (header_block (fst (search_for isite_line (snd (readline ls))))
                                 (snd (search_for isite_line (snd (readline ls))))) = nproj \<and>
            length (pl_proj_params r) = nproj \<and>
            (\<forall>i<nproj. pl_proj_params r ! i \<noteq> None)) \<and>
         (length (header_block (fst (search_for isite_line (snd (readline ls))))
                               (snd (search_for isite_line (snd (readline ls))))) \<noteq> nproj \<longrightarrow>
            (\<exists>e. locproj_parser fl (Some ls) = Some (Inl e))) \<and>
         ((\<exists>x \<in> set (header_block (fst (search_for isite_line (snd (readline ls))))
                                  (snd (search_for isite_line (snd (readline ls))))).
             label_of x \<notin> set orb_labels) \<longrightarrow>
            (\<exists>e. locproj_parser fl (Some ls) = Some (Inl e)))"
proof -
  let ?line = "fst (search_for isite_line (snd (readline ls)))"
  let ?rest = "snd (search_for isite_line (snd (readline ls)))"
  let ?h = "header_loop (pl_nc_flag self) (replicate nproj None) 0 ?line ?rest"
  note c = locproj_parser_header_cases [OF assms]
  have 1: "\<forall>r. locproj_parser fl (Some ls) = Some (Inr r) \<longrightarrow>
            length (header_block ?line ?rest) = nproj \<and>
            length (pl_proj_params r) = nproj \<and>
            (\<forall>i<nproj. pl_proj_params r ! i \<noteq> None)"
  proof (intro allI impI)
    fix r assume "locproj_parser fl (Some ls) = Some (Inr r)"
    from locproj_parser_Inr [OF this] assms obtain ls3 where
      h: "?h = Inr (nproj, pl_proj_params r, ls3)"
      by auto
    from header_loop_block [OF h] have b: "length (header_block ?line ?rest) = nproj"
      by simp
    from header_loop_inv [OF h] have
      "length (pl_proj_params r) = nproj"
      "\<forall>i<nproj. entry_ok (pl_nc_flag self) i (pl_proj_params r ! i)"
      by simp_all
    with b show "length (header_block ?line ?rest) = nproj \<and>
            length (pl_proj_params r) = nproj \<and>
            (\<forall>i<nproj. pl_proj_params r ! i \<noteq> None)"
      unfolding entry_ok_def by auto
  qed
  have 2: "length (header_block ?line ?rest) \<noteq> nproj \<longrightarrow>
            (\<exists>e. locproj_parser fl (Some ls) = Some (Inl e))"
  proof
    assume n: "length (header_block ?line ?rest) \<noteq> nproj"
    show "\<exists>e. locproj_parser fl (Some ls) = Some (Inl e)"
    proof (cases ?h)
      case (Inl e)
      with c show ?thesis by simp
    next
      case (Inr t)
      obtain ip ps ls3 where t: "t = (ip, ps, ls3)" by (cases t)
      from header_loop_block [OF Inr [unfolded t]] n have "ip \<noteq> nproj" by simp
      with c Inr t show ?thesis by simp
    qed
  qed
  have 3: "(\<exists>x \<in> set (header_block ?line ?rest). label_of x \<notin> set orb_labels) \<longrightarrow>
            (\<exists>e. locproj_parser fl (Some ls) = Some (Inl e))"
  proof
    assume n: "\<exists>x \<in> set (header_block ?line ?rest). label_of x \<notin> set orb_labels"
    show "\<exists>e. locproj_parser fl (Some ls) = Some (Inl e)"
    proof (cases ?h)
      case (Inl e)
      with c show ?thesis by simp
    next
      case (Inr t)
      obtain ip ps ls3 where t: "t = (ip, ps, ls3)" by (cases t)
      from header_loop_block [OF Inr [unfolded t]] n show ?thesis by blast
    qed
  qed
  from 1 2 3 show ?thesis by blast
qed


theorem header_block_count_witness:
  "locproj_dims dec_float (fst (readline example_locproj)) =
     Inr (\<lparr>pl_ncdij = 1, pl_nband = 1, pl_nspin = 1, pl_nspin_band = 1,
           pl_efermi = Some (1 / 2), pl_nc_flag = 1, pl_eigs = [], pl_ferw = [],
           pl_proj_params = [], pl_plo = []\<rparr>, 1, 2) \<and>
   (\<exists>r. locproj_parser dec_float (Some example_locproj) = Some (Inr r) \<and>
        length (header_block (fst (search_for isite_line (snd (readline example_locproj))))
                             (snd (search_for isite_line (snd (readline example_locproj))))) = 2 \<and>
        length (pl_proj_params r) = 2)"
proof -
  have h: "locproj_dims dec_float (fst (readline example_locproj)) =
     Inr (\<lparr>pl_ncdij = 1, pl_nband = 1, pl_nspin = 1, pl_nspin_band = 1,
           pl_efermi = Some (1 / 2), pl_nc_flag = 1, pl_eigs = [], pl_ferw = [],
           pl_proj_params = [], pl_plo = []\<rparr>, 1, 2)"
    by code_simp
  have r: "locproj_parser dec_float (Some example_locproj) =
     Some (Inr \<lparr>pl_ncdij = 1, pl_nband = 1, pl_nspin = 1, pl_nspin_band = 1,
             pl_efermi = Some (1 / 2), pl_nc_flag = 1, pl_eigs = [[[1 / 4]]],
             pl_ferw = [[[1]]],
             pl_proj_params =
               [Some \<lparr>pp_label = ''dyz'', pp_isite = 1, pp_l = 2, pp_m = 2\<rparr>,
                Some \<lparr>pp_label = ''dyz'', pp_isite = 1, pp_l = 2, pp_m = 3\<rparr>],
             pl_plo = [[[[Complex (1 / 2) (1 / 4)]]], [[[Complex (1 / 2) (- (1 / 4))]]]]\<rparr>)"
    by code_simp
  from header_block_count [OF h, THEN conjunct1, rule_format, OF r] h r
  show ?thesis by simp
qed

text \<open>
  The claim as stated counts the lines that match the marker. The file
  \<open>unmarked_locproj\<close> declares two projectors and has one line that matches; the parser
  returns, with two entries.
\<close>

theorem header_shortfall_counterexample:
  "header_ints (fst (readline unmarked_locproj)) = Inr [1, 0, 0, 2] \<and>
   length (filter isite_line unmarked_locproj) = 1 \<and>
   locproj_parser dec_float (Some unmarked_locproj) =
     Some (Inr \<lparr>pl_ncdij = 1, pl_nband = 0, pl_nspin = 1, pl_nspin_band = 1,
                pl_efermi = None, pl_nc_flag = 0, pl_eigs = [], pl_ferw = [],
                pl_proj_params =
                  [Some \<lparr>pp_label = ''s'', pp_isite = 1, pp_l = 0, pp_m = 0\<rparr>,
                   Some \<lparr>pp_label = ''py'', pp_isite = 1, pp_l = 1, pp_m = 0\<rparr>],
                pl_plo = [[[]], [[]]]\<rparr>)"
  by code_simp

subsection \<open>The k-point weights of IBZKPT\<close>

lemma kpoint_rows_weights:
  assumes "kpoint_rows fl [i..<n] ls kpts kw = Inr (kpts', kw', rest)"
    and "length kw = n"
  shows "\<exists>raw. length raw = n - i \<and> kw' = take i kw @ raw \<and>
               (\<forall>j<n - i. \<exists>row. kpoint_line fl (ls ! j) = Inr (row, raw ! j))"
  using assms
proof (induction "n - i" arbitrary: i ls kpts kw)
  case 0
  then show ?case by simp
next
  case (Suc d)
  from Suc.hyps(2) have lt: "i < n" and d: "d = n - Suc i" by simp_all
  from lt have upt: "[i..<n] = i # [Suc i..<n]" by (rule upt_conv_Cons)
  from Suc.prems(1) upt obtain line rest0 where ls: "ls = line # rest0"
    by (cases ls) auto
  from Suc.prems(1) upt ls obtain row w where
    l: "kpoint_line fl line = Inr (row, w)" and
    r: "kpoint_rows fl [Suc i..<n] rest0 (kpts[i := row]) (kw[i := w]) = Inr (kpts', kw', rest)"
    by (auto simp: bindE_Inr_iff)
  from Suc.hyps(1) [OF d r] Suc.prems(2) obtain raw where
    raw: "length raw = n - Suc i" "kw' = take (Suc i) (kw[i := w]) @ raw"
      "\<forall>j<n - Suc i. \<exists>row. kpoint_line fl (rest0 ! j) = Inr (row, raw ! j)"
    by auto
  have t: "take (Suc i) (kw[i := w]) = take i kw @ [w]"
    using lt Suc.prems(2) by (simp add: take_Suc_conv_app_nth)
  have "length (w # raw) = n - i" using raw(1) lt by simp
  moreover have "kw' = take i kw @ (w # raw)" using raw(2) t by simp
  moreover have "\<forall>j<n - i. \<exists>row. kpoint_line fl (ls ! j) = Inr (row, (w # raw) ! j)"
  proof (intro allI impI)
    fix j assume j: "j < n - i"
    show "\<exists>row. kpoint_line fl (ls ! j) = Inr (row, (w # raw) ! j)"
    proof (cases j)
      case 0
      with l ls show ?thesis by simp
    next
      case (Suc j')
      with j have "j' < n - Suc i" by simp
      with raw(3) Suc ls show ?thesis by simp
    qed
  qed
  ultimately show ?case by blast
qed

lemma kpoints_head_Inr:
  assumes "kpoints_head fl dv ls = Inr (nk, kpts, kw, rest)"
  shows "\<exists>c l c2 ls3 kw0.
           ls = c # l # c2 # ls3 \<and>
           kpoint_rows fl [0..<nk] ls3 (replicate nk [0, 0, 0]) (replicate nk 0) =
             Inr (kpts, kw0, rest) \<and>
           kw = map (\<lambda>w. dv w (real nk)) kw0"
  using assms unfolding kpoints_head_def next_line_def
  by (auto simp: bindE_Inr_iff split: list.splits option.splits if_splits)

lemma kpoints_from_file_Inr:
  assumes "kpoints_from_file fl dv (Some ls) = Inr r"
  shows "\<exists>rest. kpoints_head fl dv ls = Inr (kp_nktot r, kp_kpts r, kp_kwghts r, rest) \<and>
                tetrahedra fl rest = Inr (kp_ntet r, kp_volt r, kp_itet r)"
proof -
  from assms obtain h where
    h: "kpoints_head fl dv ls = Inr h" and
    t: "(case h of (nktot, kpts, kwghts, ls4) \<Rightarrow>
          bindE (tetrahedra fl ls4) (\<lambda>(ntet, volt, itet).
            Inr \<lparr>kp_nktot = nktot, kp_kpts = kpts, kp_kwghts = kwghts,
                 kp_ntet = ntet, kp_volt = volt, kp_itet = itet\<rparr>)) = Inr r"
    unfolding kpoints_from_file_def by (auto simp: bindE_Inr_iff)
  obtain nktot kpts kwghts ls4 where hh: "h = (nktot, kpts, kwghts, ls4)"
    by (cases h)
  from t obtain x where
    x: "tetrahedra fl ls4 = Inr x" and
    r: "(case x of (ntet, volt, itet) \<Rightarrow>
            Inr \<lparr>kp_nktot = nktot, kp_kpts = kpts, kp_kwghts = kwghts,
                 kp_ntet = ntet, kp_volt = volt, kp_itet = itet\<rparr>) = Inr r"
    unfolding hh by (auto simp: bindE_Inr_iff)
  obtain ntet volt itet where xx: "x = (ntet, volt, itet)"
    by (cases x)
  from r have "r = \<lparr>kp_nktot = nktot, kp_kpts = kpts, kp_kwghts = kwghts,
                 kp_ntet = ntet, kp_volt = volt, kp_itet = itet\<rparr>"
    unfolding xx by simp
  with h x hh xx show ?thesis by simp
qed

lemma nth_drop3: "(a # b # c # xs) ! (3 + i) = xs ! i"
  by (simp add: numeral_3_eq_3)

text \<open>
  Claim C5, amended. When the reader returns, every entry of the weight array is the raw
  weight of its k-point line (the fourth token of the lines 3, 4, ... of the file)
  divided by the number of k-points; nothing divides by the sum of the raw weights. The
  statement holds for every division \<open>dv\<close>, so for the rounded one of float64.
\<close>

theorem weights_divided_by_count:
  assumes "kpoints_from_file fl dv (Some ls) = Inr r"
  shows "\<exists>raw. length raw = kp_nktot r \<and>
           (\<forall>ik<kp_nktot r. \<exists>row. kpoint_line fl (ls ! (3 + ik)) = Inr (row, raw ! ik)) \<and>
           kp_kwghts r = map (\<lambda>w. dv w (real (kp_nktot r))) raw"
proof -
  from kpoints_from_file_Inr [OF assms] obtain rest where
    h: "kpoints_head fl dv ls = Inr (kp_nktot r, kp_kpts r, kp_kwghts r, rest)" by blast
  from kpoints_head_Inr [OF h] obtain c l c2 ls3 kw0 where
    ls: "ls = c # l # c2 # ls3" and
    rows: "kpoint_rows fl [0..<kp_nktot r] ls3 (replicate (kp_nktot r) [0, 0, 0])
             (replicate (kp_nktot r) 0) = Inr (kp_kpts r, kw0, rest)" and
    kw: "kp_kwghts r = map (\<lambda>w. dv w (real (kp_nktot r))) kw0"
    by (elim exE conjE) (rule that)
  from kpoint_rows_weights [OF rows] obtain raw where
    raw: "length raw = kp_nktot r - 0" "kw0 = take 0 (replicate (kp_nktot r) 0) @ raw"
      "\<forall>j<kp_nktot r - 0. \<exists>row. kpoint_line fl (ls3 ! j) = Inr (row, raw ! j)"
    by fastforce
  from raw(2) have kw0: "kw0 = raw" by simp
  have len: "length kw0 = kp_nktot r"
    using raw(1) kw0 by simp
  have lines: "\<forall>j<kp_nktot r. \<exists>row. kpoint_line fl (ls3 ! j) = Inr (row, kw0 ! j)"
    using raw(3) kw0 by simp
  have l3: "\<forall>ik<kp_nktot r. \<exists>row. kpoint_line fl (ls ! (3 + ik)) = Inr (row, kw0 ! ik)"
    using lines unfolding ls by (simp add: nth_drop3)
  have "length kw0 = kp_nktot r \<and>
           (\<forall>ik<kp_nktot r. \<exists>row. kpoint_line fl (ls ! (3 + ik)) = Inr (row, kw0 ! ik)) \<and>
           kp_kwghts r = map (\<lambda>w. dv w (real (kp_nktot r))) kw0"
    using len l3 kw by (intro conjI) simp_all
  then show ?thesis by (rule exI)
qed

theorem weights_divided_by_count_witness:
  "kpoints_from_file dec_float (/) (Some example_ibzkpt) =
     Inr \<lparr>kp_nktot = 2, kp_kpts = [[0, 0, 0], [1 / 2, 0, 0]], kp_kwghts = [1 / 2, 3 / 2],
          kp_ntet = 1, kp_volt = Some (1 / 4), kp_itet = Some [[6, 1, 1, 2, 2]]\<rparr> \<and>
   (\<exists>raw. length raw = 2 \<and> [1 / 2, 3 / 2] = map (\<lambda>w. w / real (2::nat)) raw)"
proof -
  have h: "kpoints_from_file dec_float (/) (Some example_ibzkpt) =
     Inr \<lparr>kp_nktot = 2, kp_kpts = [[0, 0, 0], [1 / 2, 0, 0]], kp_kwghts = [1 / 2, 3 / 2],
          kp_ntet = 1, kp_volt = Some (1 / 4), kp_itet = Some [[6, 1, 1, 2, 2]]\<rparr>"
    by code_simp
  have "\<exists>raw. length raw = 2 \<and> [1 / 2, 3 / 2] = map (\<lambda>w. w / real (2::nat)) raw"
    using weights_divided_by_count [OF h] by auto
  with h show ?thesis by (rule conjI)
qed

text \<open>
  The claim as stated fails on an IBZKPT with two k-points of raw weights 1 and 3: the
  weights become 1/2 and 3/2 and sum to 2. Both quotients are exact in float64, so the
  exact division is the division of the code on this file.
\<close>

theorem weights_sum_counterexample:
  "kpoints_from_file dec_float (/) (Some example_ibzkpt) =
     Inr \<lparr>kp_nktot = 2, kp_kpts = [[0, 0, 0], [1 / 2, 0, 0]], kp_kwghts = [1 / 2, 3 / 2],
          kp_ntet = 1, kp_volt = Some (1 / 4), kp_itet = Some [[6, 1, 1, 2, 2]]\<rparr> \<and>
   sum_list [1 / 2, 3 / 2] = (2::real)"
  by code_simp

subsection \<open>The optional tetrahedron section of IBZKPT\<close>

lemma kpoint_rows_take:
  assumes "kpoint_rows fl iks ls kpts kw = Inr (kpts', kw', rest)"
  shows "(length iks \<le> j \<longrightarrow>
            kpoint_rows fl iks (take j ls) kpts kw = Inr (kpts', kw', take (j - length iks) rest)) \<and>
         (j < length iks \<longrightarrow> kpoint_rows fl iks (take j ls) kpts kw = Inl StopIteration)"
  using assms
proof (induction iks arbitrary: ls j kpts kw)
  case Nil
  then show ?case by simp
next
  case (Cons ik iks)
  from Cons.prems obtain line rest0 where ls: "ls = line # rest0"
    by (cases ls) auto
  from Cons.prems ls obtain row w where
    l: "kpoint_line fl line = Inr (row, w)" and
    r: "kpoint_rows fl iks rest0 (kpts[ik := row]) (kw[ik := w]) = Inr (kpts', kw', rest)"
    by (auto simp: bindE_Inr_iff)
  show ?case
  proof (cases j)
    case 0
    then show ?thesis by simp
  next
    case (Suc j')
    from Cons.IH [OF r, of j'] l show ?thesis
      unfolding ls Suc by simp
  qed
qed

lemma take3: "3 \<le> j \<Longrightarrow> take j (a # b # c # xs) = a # b # c # take (j - 3) xs"
  by (cases j rule: nat.exhaust) (auto simp: take_Cons' numeral_3_eq_3)

lemma kpoints_head_take:
  assumes "kpoints_head fl dv ls = Inr (nk, kpts, kw, rest)" and "3 + nk \<le> j"
  shows "kpoints_head fl dv (take j ls) = Inr (nk, kpts, kw, take (j - (3 + nk)) rest)"
proof -
  from assms(1) obtain c l c2 ls3 tok nktot kw0 where
    ls: "ls = c # l # c2 # ls3" and
    tok: "index (split_ws (strip l)) 0 = Inr tok" and
    n: "py_int tok = Some nktot" "zeros_ok [nktot, 3]" "nk = nat nktot" and
    rows: "kpoint_rows fl [0..<nk] ls3 (replicate nk [0, 0, 0]) (replicate nk 0) =
             Inr (kpts, kw0, rest)" and
    kw: "kw = map (\<lambda>w. dv w (real nk)) kw0"
    unfolding kpoints_head_def next_line_def
    by (auto simp: bindE_Inr_iff split: list.splits option.splits if_splits)
  from assms(2) have j3: "3 \<le> j" by simp
  from kpoint_rows_take [OF rows, of "j - 3"] assms(2) have
    "kpoint_rows fl [0..<nk] (take (j - 3) ls3) (replicate nk [0, 0, 0]) (replicate nk 0) =
       Inr (kpts, kw0, take (j - 3 - nk) rest)"
    by simp
  moreover have "j - 3 - nk = j - (3 + nk)" by simp
  ultimately show ?thesis
    unfolding ls take3 [OF j3] kpoints_head_def next_line_def
    using tok n kw by simp
qed

lemma kpoints_head_short:
  assumes "kpoints_head fl dv ls = Inr (nk, kpts, kw, rest)" and "j < 3 + nk"
  shows "kpoints_head fl dv (take j ls) = Inl StopIteration"
proof -
  from assms(1) obtain c l c2 ls3 tok nktot kw0 where
    ls: "ls = c # l # c2 # ls3" and
    tok: "index (split_ws (strip l)) 0 = Inr tok" and
    n: "py_int tok = Some nktot" "zeros_ok [nktot, 3]" "nk = nat nktot" and
    rows: "kpoint_rows fl [0..<nk] ls3 (replicate nk [0, 0, 0]) (replicate nk 0) =
             Inr (kpts, kw0, rest)"
    unfolding kpoints_head_def next_line_def
    by (auto simp: bindE_Inr_iff split: list.splits option.splits if_splits)
  consider "j = 0" | "j = 1" | "j = 2" | "3 \<le> j" by linarith
  then show ?thesis
  proof cases
    case 1
    then show ?thesis unfolding kpoints_head_def next_line_def by simp
  next
    case 2
    then show ?thesis unfolding ls kpoints_head_def next_line_def by simp
  next
    case 3
    then have "take j ls = [c, l]" unfolding ls by (simp add: numeral_2_eq_2)
    then show ?thesis unfolding kpoints_head_def next_line_def using tok n by simp
  next
    case 4
    from kpoint_rows_take [OF rows, of "j - 3"] assms(2) 4 have
      "kpoint_rows fl [0..<nk] (take (j - 3) ls3) (replicate nk [0, 0, 0]) (replicate nk 0) =
         Inl StopIteration"
      by simp
    then show ?thesis
      unfolding ls take3 [OF 4] kpoints_head_def next_line_def
      using tok n by simp
  qed
qed

lemma tet_header_short: "length ls < 2 \<Longrightarrow> tet_header fl ls = Inl StopIteration"
  unfolding tet_header_def next_line_def
  by (cases ls) (auto split: list.splits)

lemma tet_header_take:
  assumes "tet_header fl ls = Inr (ntet, volt, ls6)" and "2 \<le> j"
  shows "tet_header fl (take j ls) = Inr (ntet, volt, take (j - 2) ls6)"
proof -
  from assms(1) obtain c l where ls: "ls = c # l # ls6"
    unfolding tet_header_def next_line_def
    by (auto simp: bindE_Inr_iff split: list.splits option.splits)
  from assms(2) have "take j ls = c # l # take (j - 2) ls6"
    unfolding ls by (cases j rule: nat.exhaust) (auto simp: take_Cons' numeral_2_eq_2)
  with assms(1) show ?thesis
    unfolding ls tet_header_def next_line_def
    by (auto simp: bindE_Inr_iff split: option.splits)
qed

lemma tet_rows_take:
  assumes "tet_rows its ls itet = Inr itet'" and "j < length its"
  shows "\<exists>c. tet_rows its (take j ls) itet = Inl (StopIteration, c)"
  using assms
proof (induction its arbitrary: ls j itet)
  case Nil
  then show ?case by simp
next
  case (Cons it its)
  from Cons.prems(1) obtain line rest0 where ls: "ls = line # rest0"
    by (cases ls) auto
  from Cons.prems(1) ls obtain row where
    l: "bindE (map_int (take 5 (split_ws line))) (row_of 5) = Inr row" and
    r: "tet_rows its rest0 (itet[it := row]) = Inr itet'"
    by (auto split: sum.splits)
  show ?case
  proof (cases j)
    case 0
    then show ?thesis by simp
  next
    case (Suc j')
    with Cons.prems(2) have "j' < length its" by simp
    from Cons.IH [OF r this] l show ?thesis
      unfolding ls Suc by simp
  qed
qed

lemma tetrahedra_take:
  assumes "tetrahedra fl rest = Inr (ntet, volt, itet)" and "j < 2 + ntet"
  shows "\<exists>v i. tetrahedra fl (take j rest) = Inr (0, v, i)"
proof (cases "j < 2")
  case True
  then have "tet_header fl (take j rest) = Inl StopIteration"
    by (intro tet_header_short) simp
  then show ?thesis unfolding tetrahedra_def by simp
next
  case False
  with assms(2) have pos: "0 < ntet" and j2: "2 \<le> j" by simp_all
  from assms(1) pos obtain n v ls6 itet' where
    h: "tet_header fl rest = Inr (n, v, ls6)" and
    z: "zeros_ok [n, 5]" and
    rows: "tet_rows [0..<nat n] ls6 (replicate (nat n) (replicate 5 0)) = Inr itet'" and
    n: "ntet = nat n"
    unfolding tetrahedra_def
    by (auto split: sum.splits if_splits prod.splits)
  from assms(2) n j2 have "j - 2 < length [0..<nat n]" by simp
  from tet_rows_take [OF rows this] obtain c where
    "tet_rows [0..<nat n] (take (j - 2) ls6) (replicate (nat n) (replicate 5 0)) =
       Inl (StopIteration, c)" by blast
  with tet_header_take [OF h j2] z show ?thesis
    unfolding tetrahedra_def by simp
qed

lemma truncated_tetrahedra:
  assumes "kpoints_from_file fl dv (Some ls) = Inr r"
  shows "(\<forall>j. 3 + kp_nktot r \<le> j \<and> j < 3 + kp_nktot r + 2 + kp_ntet r \<longrightarrow>
            (\<exists>r'. kpoints_from_file fl dv (Some (take j ls)) = Inr r' \<and>
                  kp_ntet r' = 0 \<and> kp_nktot r' = kp_nktot r \<and>
                  kp_kpts r' = kp_kpts r \<and> kp_kwghts r' = kp_kwghts r)) \<and>
         (\<forall>j < 3 + kp_nktot r. kpoints_from_file fl dv (Some (take j ls)) = Inl StopIteration)"
proof (intro conjI allI impI)
  from kpoints_from_file_Inr [OF assms] obtain rest where
    h: "kpoints_head fl dv ls = Inr (kp_nktot r, kp_kpts r, kp_kwghts r, rest)" and
    t: "tetrahedra fl rest = Inr (kp_ntet r, kp_volt r, kp_itet r)"
    by (elim exE conjE)
  {
    fix j assume j: "3 + kp_nktot r \<le> j \<and> j < 3 + kp_nktot r + 2 + kp_ntet r"
    then have j1: "3 + kp_nktot r \<le> j" and j2: "j - (3 + kp_nktot r) < 2 + kp_ntet r"
      by linarith+
    from tetrahedra_take [OF t j2] obtain v i where
      t': "tetrahedra fl (take (j - (3 + kp_nktot r)) rest) = Inr (0, v, i)" by blast
    from kpoints_head_take [OF h j1] t'
    have "kpoints_from_file fl dv (Some (take j ls)) =
            Inr \<lparr>kp_nktot = kp_nktot r, kp_kpts = kp_kpts r, kp_kwghts = kp_kwghts r,
                 kp_ntet = 0, kp_volt = v, kp_itet = i\<rparr>"
      unfolding kpoints_from_file_def by simp
    then show "\<exists>r'. kpoints_from_file fl dv (Some (take j ls)) = Inr r' \<and>
                  kp_ntet r' = 0 \<and> kp_nktot r' = kp_nktot r \<and>
                  kp_kpts r' = kp_kpts r \<and> kp_kwghts r' = kp_kwghts r"
      by simp
  }
  {
    fix j assume "j < 3 + kp_nktot r"
    from kpoints_head_short [OF h this]
    show "kpoints_from_file fl dv (Some (take j ls)) = Inl StopIteration"
      unfolding kpoints_from_file_def by simp
  }
qed

lemma absent_tetrahedra:
  assumes "kpoints_head fl dv ls = Inr (nk, kpts, kw, rest)" and "length rest < 2"
  shows "kpoints_from_file fl dv (Some ls) =
           Inr \<lparr>kp_nktot = nk, kp_kpts = kpts, kp_kwghts = kw,
                kp_ntet = 0, kp_volt = None, kp_itet = None\<rparr>"
  using assms(1) tet_header_short [OF assms(2), of fl]
  unfolding kpoints_from_file_def tetrahedra_def by simp

lemma tet_rows_short:
  assumes "length ls < length its"
    and "\<forall>l \<in> set ls. \<exists>row. bindE (map_int (take 5 (split_ws l))) (row_of 5) = Inr row"
  shows "\<exists>c. tet_rows its ls itet = Inl (StopIteration, c)"
  using assms
proof (induction its arbitrary: ls itet)
  case Nil
  then show ?case by simp
next
  case (Cons it its)
  show ?case
  proof (cases ls)
    case Nil
    then show ?thesis by simp
  next
    case (Cons line rest0)
    with Cons.prems(2) obtain row where
      l: "bindE (map_int (take 5 (split_ws line))) (row_of 5) = Inr row" by auto
    from Cons.prems \<open>ls = line # rest0\<close> have
      "length rest0 < length its"
      "\<forall>l \<in> set rest0. \<exists>row. bindE (map_int (take 5 (split_ws l))) (row_of 5) = Inr row"
      by simp_all
    from Cons.IH [OF this, of "itet[it := row]"] l show ?thesis
      unfolding \<open>ls = line # rest0\<close> by simp
  qed
qed

lemma short_tetrahedra:
  assumes "kpoints_head fl dv ls = Inr (nk, kpts, kw, rest)"
    and "tet_header fl rest = Inr (ntet, volt, ls6)"
    and "0 \<le> ntet" and "length ls6 < nat ntet"
    and "\<forall>l \<in> set ls6. \<exists>row. bindE (map_int (take 5 (split_ws l))) (row_of 5) = Inr row"
  shows "\<exists>itet. kpoints_from_file fl dv (Some ls) =
           Inr \<lparr>kp_nktot = nk, kp_kpts = kpts, kp_kwghts = kw,
                kp_ntet = 0, kp_volt = Some volt, kp_itet = Some itet\<rparr>"
proof -
  from assms(4) have "length ls6 < length [0..<nat ntet]" by simp
  from tet_rows_short [OF this assms(5)] obtain c where
    "tet_rows [0..<nat ntet] ls6 (replicate (nat ntet) (replicate 5 0)) =
       Inl (StopIteration, c)" by blast
  with assms(2,3) have "tetrahedra fl rest = Inr (0, Some volt, Some c)"
    unfolding tetrahedra_def zeros_ok_def by simp
  with assms(1) have "kpoints_from_file fl dv (Some ls) =
           Inr \<lparr>kp_nktot = nk, kp_kpts = kpts, kp_kwghts = kw,
                kp_ntet = 0, kp_volt = Some volt, kp_itet = Some c\<rparr>"
    unfolding kpoints_from_file_def by simp
  then show ?thesis by blast
qed

text \<open>
  Claim C9, amended. The end of the input is not fatal where a line of the tetrahedron
  section is missing: an IBZKPT whose k-point part is read and that has fewer than two
  lines after it, or whose count line is read and that has fewer rows than it declares,
  each of them a row the reader accepts, is read without error, with zero tetrahedra and
  the k-points and weights as read. So, cut a file that the reader accepts after \<open>j\<close>
  lines: if the cut falls at the end of the k-point list or inside the tetrahedron
  section, the reader returns with zero tetrahedra and the same k-points and weights; if
  it falls earlier, the reader raises StopIteration.
\<close>

theorem missing_tetrahedra_not_fatal:
  "(\<forall>nk kpts kw rest.
      kpoints_head fl dv ls = Inr (nk, kpts, kw, rest) \<and> length rest < 2 \<longrightarrow>
      kpoints_from_file fl dv (Some ls) =
        Inr \<lparr>kp_nktot = nk, kp_kpts = kpts, kp_kwghts = kw,
             kp_ntet = 0, kp_volt = None, kp_itet = None\<rparr>) \<and>
   (\<forall>r. kpoints_from_file fl dv (Some ls) = Inr r \<longrightarrow>
      (\<forall>j. 3 + kp_nktot r \<le> j \<and> j < 3 + kp_nktot r + 2 + kp_ntet r \<longrightarrow>
            (\<exists>r'. kpoints_from_file fl dv (Some (take j ls)) = Inr r' \<and>
                  kp_ntet r' = 0 \<and> kp_nktot r' = kp_nktot r \<and>
                  kp_kpts r' = kp_kpts r \<and> kp_kwghts r' = kp_kwghts r)) \<and>
      (\<forall>j < 3 + kp_nktot r. kpoints_from_file fl dv (Some (take j ls)) = Inl StopIteration)) \<and>
   (\<forall>nk kpts kw rest ntet volt ls6.
      kpoints_head fl dv ls = Inr (nk, kpts, kw, rest) \<and>
      tet_header fl rest = Inr (ntet, volt, ls6) \<and>
      0 \<le> ntet \<and> length ls6 < nat ntet \<and>
      (\<forall>l \<in> set ls6. \<exists>row. bindE (map_int (take 5 (split_ws l))) (row_of 5) = Inr row) \<longrightarrow>
      (\<exists>itet. kpoints_from_file fl dv (Some ls) =
         Inr \<lparr>kp_nktot = nk, kp_kpts = kpts, kp_kwghts = kw,
              kp_ntet = 0, kp_volt = Some volt, kp_itet = Some itet\<rparr>))"
proof (intro conjI)
  show "\<forall>nk kpts kw rest.
      kpoints_head fl dv ls = Inr (nk, kpts, kw, rest) \<and> length rest < 2 \<longrightarrow>
      kpoints_from_file fl dv (Some ls) =
        Inr \<lparr>kp_nktot = nk, kp_kpts = kpts, kp_kwghts = kw,
             kp_ntet = 0, kp_volt = None, kp_itet = None\<rparr>"
    using absent_tetrahedra [of fl dv ls] by blast
  show "\<forall>r. kpoints_from_file fl dv (Some ls) = Inr r \<longrightarrow>
      (\<forall>j. 3 + kp_nktot r \<le> j \<and> j < 3 + kp_nktot r + 2 + kp_ntet r \<longrightarrow>
            (\<exists>r'. kpoints_from_file fl dv (Some (take j ls)) = Inr r' \<and>
                  kp_ntet r' = 0 \<and> kp_nktot r' = kp_nktot r \<and>
                  kp_kpts r' = kp_kpts r \<and> kp_kwghts r' = kp_kwghts r)) \<and>
      (\<forall>j < 3 + kp_nktot r. kpoints_from_file fl dv (Some (take j ls)) = Inl StopIteration)"
    using truncated_tetrahedra [of fl dv ls] by blast
  show "\<forall>nk kpts kw rest ntet volt ls6.
      kpoints_head fl dv ls = Inr (nk, kpts, kw, rest) \<and>
      tet_header fl rest = Inr (ntet, volt, ls6) \<and>
      0 \<le> ntet \<and> length ls6 < nat ntet \<and>
      (\<forall>l \<in> set ls6. \<exists>row. bindE (map_int (take 5 (split_ws l))) (row_of 5) = Inr row) \<longrightarrow>
      (\<exists>itet. kpoints_from_file fl dv (Some ls) =
         Inr \<lparr>kp_nktot = nk, kp_kpts = kpts, kp_kwghts = kw,
              kp_ntet = 0, kp_volt = Some volt, kp_itet = Some itet\<rparr>)"
  proof (intro allI impI)
    fix nk kpts kw rest ntet volt ls6
    assume a: "kpoints_head fl dv ls = Inr (nk, kpts, kw, rest) \<and>
      tet_header fl rest = Inr (ntet, volt, ls6) \<and>
      0 \<le> ntet \<and> length ls6 < nat ntet \<and>
      (\<forall>l \<in> set ls6. \<exists>row. bindE (map_int (take 5 (split_ws l))) (row_of 5) = Inr row)"
    then have
      a1: "kpoints_head fl dv ls = Inr (nk, kpts, kw, rest)" and
      a2: "tet_header fl rest = Inr (ntet, volt, ls6)" and
      a3: "0 \<le> ntet" and a4: "length ls6 < nat ntet" and
      a5: "\<forall>l \<in> set ls6. \<exists>row. bindE (map_int (take 5 (split_ws l))) (row_of 5) = Inr row"
      by simp_all
    show "\<exists>itet. kpoints_from_file fl dv (Some ls) =
         Inr \<lparr>kp_nktot = nk, kp_kpts = kpts, kp_kwghts = kw,
              kp_ntet = 0, kp_volt = Some volt, kp_itet = Some itet\<rparr>"
      by (rule short_tetrahedra [OF a1 a2 a3 a4 a5])
  qed
qed

theorem missing_tetrahedra_not_fatal_witness:
  "kpoints_from_file dec_float (/) (Some example_ibzkpt) =
     Inr \<lparr>kp_nktot = 2, kp_kpts = [[0, 0, 0], [1 / 2, 0, 0]], kp_kwghts = [1 / 2, 3 / 2],
          kp_ntet = 1, kp_volt = Some (1 / 4), kp_itet = Some [[6, 1, 1, 2, 2]]\<rparr> \<and>
   (\<exists>r'. kpoints_from_file dec_float (/) (Some (take 5 example_ibzkpt)) = Inr r' \<and>
         kp_ntet r' = 0 \<and> kp_kwghts r' = [1 / 2, 3 / 2]) \<and>
   (\<exists>r'. kpoints_from_file dec_float (/) (Some (take 7 example_ibzkpt)) = Inr r' \<and>
         kp_ntet r' = 0 \<and> kp_kwghts r' = [1 / 2, 3 / 2]) \<and>
   kpoints_from_file dec_float (/) (Some (take 4 example_ibzkpt)) = Inl StopIteration"
proof -
  have h: "kpoints_from_file dec_float (/) (Some example_ibzkpt) =
     Inr \<lparr>kp_nktot = 2, kp_kpts = [[0, 0, 0], [1 / 2, 0, 0]], kp_kwghts = [1 / 2, 3 / 2],
          kp_ntet = 1, kp_volt = Some (1 / 4), kp_itet = Some [[6, 1, 1, 2, 2]]\<rparr>"
    by code_simp
  note t = missing_tetrahedra_not_fatal [of dec_float "(/)" example_ibzkpt,
      THEN conjunct2, THEN conjunct1, rule_format, OF h]
  from t [THEN conjunct1, rule_format, of 5]
  have a: "\<exists>r'. kpoints_from_file dec_float (/) (Some (take 5 example_ibzkpt)) = Inr r' \<and>
         kp_ntet r' = 0 \<and> kp_kwghts r' = [1 / 2, 3 / 2]"
    by auto
  from t [THEN conjunct1, rule_format, of 7]
  have c: "\<exists>r'. kpoints_from_file dec_float (/) (Some (take 7 example_ibzkpt)) = Inr r' \<and>
         kp_ntet r' = 0 \<and> kp_kwghts r' = [1 / 2, 3 / 2]"
    by auto
  from t [THEN conjunct2, rule_format, of 4]
  have b: "kpoints_from_file dec_float (/) (Some (take 4 example_ibzkpt)) = Inl StopIteration"
    by simp
  from h a c b show ?thesis by blast
qed

text \<open>
  The claim as stated covers every input whose stream ends inside the section. The file
  \<open>cut_ibzkpt\<close> ends inside the line of the tetrahedron count, before the volume: its
  k-point part is read, and the reader raises IndexError (\<^verbatim>\<open>sline[1]\<close>), which the
  handler for StopIteration does not catch.
\<close>

theorem cut_count_line_counterexample:
  "kpoints_head dec_float (/) cut_ibzkpt =
     Inr (2, [[0, 0, 0], [1 / 2, 0, 0]], [1 / 2, 3 / 2], [''Tetrahedra\<newline>'', ''    1'']) \<and>
   kpoints_from_file dec_float (/) (Some cut_ibzkpt) = Inl IndexError"
  by code_simp

subsection \<open>The band lines of EIGENVAL\<close>

lemma map_float_error: "map_float fl toks = Inl e \<Longrightarrow> e = ValueError"
  unfolding map_float_def by (auto split: option.splits)

lemma map_float_length: "map_float fl toks = Inr xs \<Longrightarrow> length xs = length toks"
proof -
  have "those ys = Some xs \<Longrightarrow> length xs = length ys" for ys :: "real option list"
    by (induction ys arbitrary: xs) (auto split: option.splits)
  from this [of "map fl toks"] show "map_float fl toks = Inr xs \<Longrightarrow> length xs = length toks"
    unfolding map_float_def by (auto split: option.splits)
qed

lemma row_of_error: "row_of n xs = Inl e \<Longrightarrow> e = ValueError"
  unfolding row_of_def by (auto split: if_splits)

lemma index_error: "index xs i = Inl e \<Longrightarrow> e = IndexError"
  unfolding index_def by (auto split: if_splits)

lemma next_line_error: "next_line ls = Inl e \<Longrightarrow> e = StopIteration \<and> ls = []"
  unfolding next_line_def by (auto split: list.splits)

lemma next_line_Inr: "next_line ls = Inr (x, rest) \<Longrightarrow> ls = x # rest"
  unfolding next_line_def by (auto split: list.splits)

lemma set_row3_error: "set_row3 n i j xs a = Inl e \<Longrightarrow> e = IndexError \<or> e = ValueError"
  unfolding set_row3_def by (auto simp: bindE_Inl_iff split: if_splits dest: row_of_error)

lemma band_line_Inr:
  "band_line fl ispin line = Inr x \<Longrightarrow> length (split_ws line) = 2 * ispin + 1"
  unfolding band_line_def
  by (auto simp: bindE_Inr_iff split: if_splits dest: map_float_length)

lemma band_line_error:
  "band_line fl ispin line = Inl e \<Longrightarrow>
     e = ValueError \<or>
     e = AssertionError ''EIGENVAL file is incorrect (probably from old versions of VASP)''"
  unfolding band_line_def
  by (auto simp: bindE_Inl_iff split: if_splits dest: map_float_error)

lemma band_line_wrong_count:
  assumes "length (split_ws line) \<noteq> 2 * ispin + 1"
  shows "band_line fl ispin line = Inl ValueError \<or>
         band_line fl ispin line =
           Inl (AssertionError ''EIGENVAL file is incorrect (probably from old versions of VASP)'')"
proof (cases "band_line fl ispin line")
  case (Inl e)
  with band_line_error [OF Inl] show ?thesis by auto
next
  case (Inr x)
  from band_line_Inr [OF Inr] assms show ?thesis by simp
qed

lemma band_rows_Inr:
  assumes "band_rows fl ispin ik ibs ls e f = Inr (e', f', rest)"
  shows "length ibs \<le> length ls \<and> rest = drop (length ibs) ls \<and>
         (\<forall>i<length ibs. length (split_ws (ls ! i)) = 2 * ispin + 1)"
  using assms
proof (induction ibs arbitrary: ls e f)
  case Nil
  then show ?case by simp
next
  case (Cons ib ibs)
  from Cons.prems obtain line rest0 where ls: "ls = line # rest0"
    by (cases ls) auto
  from Cons.prems ls obtain x e1 f1 where
    l: "band_line fl ispin line = Inr x" and
    r: "band_rows fl ispin ik ibs rest0 e1 f1 = Inr (e', f', rest)"
    by (auto simp: bindE_Inr_iff)
  from Cons.IH [OF r] band_line_Inr [OF l] show ?case
    unfolding ls by (auto simp: nth_Cons split: nat.splits)
qed

lemma band_rows_Stop:
  assumes "band_rows fl ispin ik ibs ls e f = Inl StopIteration"
  shows "length ls < length ibs \<and>
         (\<forall>i<length ls. length (split_ws (ls ! i)) = 2 * ispin + 1)"
  using assms
proof (induction ibs arbitrary: ls e f)
  case Nil
  then show ?case by simp
next
  case (Cons ib ibs)
  show ?case
  proof (cases ls)
    case Nil
    then show ?thesis by simp
  next
    case (Cons line rest0)
    with Cons.prems have
      c: "bindE (band_line fl ispin line) (\<lambda>(es, ws).
            bindE (set_row3 ispin ik ib es e) (\<lambda>eigs'.
            bindE (set_row3 ispin ik ib ws f) (\<lambda>ferw'.
              band_rows fl ispin ik ibs rest0 eigs' ferw'))) = Inl StopIteration"
      by simp
    from c obtain x where l: "band_line fl ispin line = Inr x"
      by (cases "band_line fl ispin line") (auto dest: band_line_error)
    obtain es ws where x: "x = (es, ws)" by (cases x)
    from c l x obtain e1 where e1: "set_row3 ispin ik ib es e = Inr e1"
      by (cases "set_row3 ispin ik ib es e") (auto dest: set_row3_error)
    from c l x e1 obtain f1 where f1: "set_row3 ispin ik ib ws f = Inr f1"
      by (cases "set_row3 ispin ik ib ws f") (auto dest: set_row3_error)
    from c l x e1 f1 have r: "band_rows fl ispin ik ibs rest0 e1 f1 = Inl StopIteration"
      by simp
    from Cons.IH [OF r] band_line_Inr [OF l] show ?thesis
      unfolding Cons by (auto simp: nth_Cons split: nat.splits)
  qed
qed

lemma band_rows_error:
  "band_rows fl ispin ik ibs ls e f = Inl x \<Longrightarrow> x \<noteq> IOError"
proof (induction ibs arbitrary: ls e f)
  case Nil
  then show ?case by simp
next
  case (Cons ib ibs)
  show ?case
  proof (cases ls)
    case Nil
    with Cons.prems show ?thesis by simp
  next
    case (Cons line rest0)
    with Cons.prems Cons.IH show ?thesis
      by (auto simp: bindE_Inl_iff dest: band_line_error set_row3_error)
  qed
qed


lemma kpoint_block_Inr:
  assumes "kpoint_block fl ispin nband ik st = Inr st'"
  shows "2 + nband \<le> length (e_lines st) \<and>
         e_lines st' = drop (2 + nband) (e_lines st) \<and>
         (\<forall>ib<nband. length (split_ws (e_lines st ! (2 + ib))) = 2 * ispin + 1)"
proof -
  from assms obtain l1 ls1 l2 ls2 e' f' ls3 where
    n1: "next_line (e_lines st) = Inr (l1, ls1)" and
    n2: "next_line ls1 = Inr (l2, ls2)" and
    b: "band_rows fl ispin ik [0..<nband] ls2 (e_eigs st) (e_ferw st) = Inr (e', f', ls3)" and
    s: "e_lines st' = ls3"
    unfolding kpoint_block_def by (auto simp: bindE_Inr_iff)
  from next_line_Inr [OF n1] next_line_Inr [OF n2] have ls: "e_lines st = l1 # l2 # ls2"
    by simp
  from band_rows_Inr [OF b] s show ?thesis
    unfolding ls by simp
qed

lemma kpoint_block_Stop:
  assumes "kpoint_block fl ispin nband ik st = Inl StopIteration"
  shows "length (e_lines st) < 2 + nband \<and>
         (\<forall>ib. 2 + ib < length (e_lines st) \<longrightarrow>
               length (split_ws (e_lines st ! (2 + ib))) = 2 * ispin + 1)"
proof (cases "e_lines st")
  case Nil
  then show ?thesis by simp
next
  case (Cons l1 ls1)
  show ?thesis
  proof (cases ls1)
    case Nil
    with Cons show ?thesis by simp
  next
    case (Cons l2 ls2)
    have ls: "e_lines st = l1 # l2 # ls2"
      using \<open>e_lines st = l1 # ls1\<close> Cons by simp
    from assms have
      c: "bindE (map_float fl (split_ws l2)) (\<lambda>tmp.
          bindE (row_of 3 (take 3 tmp)) (\<lambda>row.
          bindE (index tmp 3) (\<lambda>w.
          bindE (band_rows fl ispin ik [0..<nband] ls2 (e_eigs st) (e_ferw st))
            (\<lambda>(eigs', ferw', ls3).
               Inr \<lparr>e_lines = ls3, e_kpts = (e_kpts st)[ik := row],
                    e_kwghts = (e_kwghts st)[ik := w], e_eigs = eigs', e_ferw = ferw'\<rparr>)))) =
          Inl StopIteration"
      unfolding kpoint_block_def ls next_line_def by simp
    from c obtain tmp where t: "map_float fl (split_ws l2) = Inr tmp"
      by (cases "map_float fl (split_ws l2)") (auto dest: map_float_error)
    from c t obtain row where r: "row_of 3 (take 3 tmp) = Inr row"
      by (cases "row_of 3 (take 3 tmp)") (auto dest: row_of_error)
    from c t r obtain w where w: "index tmp 3 = Inr w"
      by (cases "index tmp 3") (auto dest: index_error)
    from c t r w have
      "band_rows fl ispin ik [0..<nband] ls2 (e_eigs st) (e_ferw st) = Inl StopIteration"
      by (cases "band_rows fl ispin ik [0..<nband] ls2 (e_eigs st) (e_ferw st)") auto
    from band_rows_Stop [OF this] show ?thesis
      unfolding ls by simp
  qed
qed

lemma kpoint_block_error:
  "kpoint_block fl ispin nband ik st = Inl x \<Longrightarrow> x \<noteq> IOError"
  unfolding kpoint_block_def
  by (auto simp: bindE_Inl_iff
      dest: next_line_error map_float_error row_of_error index_error band_rows_error)

lemma forE_error:
  assumes "\<And>i s x. body i s = Inl x \<Longrightarrow> x \<noteq> IOError"
  shows "forE is body s = Inl x \<Longrightarrow> x \<noteq> IOError"
proof (induction "is" arbitrary: s)
  case Nil
  then show ?case by simp
next
  case (Cons i "is")
  then show ?case using assms by (auto simp: bindE_Inl_iff)
qed

lemma block_index: "Suc k * (2 + n) + 2 + ib = (2 + n) + (k * (2 + n) + 2 + ib)"
  by simp

lemma forE_blocks_Inr:
  assumes "forE iks (kpoint_block fl ispin nband) st = Inr st'"
  shows "length iks * (2 + nband) \<le> length (e_lines st) \<and>
         (\<forall>k<length iks. \<forall>ib<nband.
            length (split_ws (e_lines st ! (k * (2 + nband) + 2 + ib))) = 2 * ispin + 1)"
  using assms
proof (induction iks arbitrary: st)
  case Nil
  then show ?case by simp
next
  case (Cons ik iks)
  from Cons.prems obtain st1 where
    b: "kpoint_block fl ispin nband ik st = Inr st1" and
    r: "forE iks (kpoint_block fl ispin nband) st1 = Inr st'"
    by (auto simp: bindE_Inr_iff)
  note k = kpoint_block_Inr [OF b]
  note ih = Cons.IH [OF r]
  from k have d: "e_lines st1 = drop (2 + nband) (e_lines st)" and
    le: "2 + nband \<le> length (e_lines st)" by simp_all
  from ih have a: "length iks * (2 + nband) \<le> length (e_lines st) - (2 + nband)"
    unfolding d by simp
  have "length iks * (2 + nband) + (2 + nband) \<le> length (e_lines st)"
    using a le by linarith
  then have len: "length (ik # iks) * (2 + nband) \<le> length (e_lines st)"
    by simp
  have "\<forall>k<length (ik # iks). \<forall>ib<nband.
            length (split_ws (e_lines st ! (k * (2 + nband) + 2 + ib))) = 2 * ispin + 1"
  proof (intro allI impI)
    fix k ib assume kk: "k < length (ik # iks)" and ib: "ib < nband"
    show "length (split_ws (e_lines st ! (k * (2 + nband) + 2 + ib))) = 2 * ispin + 1"
    proof (cases k)
      case 0
      with k ib show ?thesis by simp
    next
      case (Suc k')
      with kk have k': "k' < length iks" by simp
      with ih ib have
        g: "length (split_ws (e_lines st1 ! (k' * (2 + nband) + 2 + ib))) = 2 * ispin + 1"
        by blast
      have "e_lines st1 ! (k' * (2 + nband) + 2 + ib) =
            e_lines st ! ((2 + nband) + (k' * (2 + nband) + 2 + ib))"
        unfolding d using le by (rule nth_drop)
      with g show ?thesis unfolding Suc block_index by simp
    qed
  qed
  with len show ?case by blast
qed

lemma forE_blocks_Stop:
  assumes "forE iks (kpoint_block fl ispin nband) st = Inl StopIteration"
  shows "\<forall>k<length iks. \<forall>ib<nband.
           k * (2 + nband) + 2 + ib < length (e_lines st) \<longrightarrow>
           length (split_ws (e_lines st ! (k * (2 + nband) + 2 + ib))) = 2 * ispin + 1"
  using assms
proof (induction iks arbitrary: st)
  case Nil
  then show ?case by simp
next
  case (Cons ik iks)
  show ?case
  proof (cases "kpoint_block fl ispin nband ik st")
    case (Inl x)
    with Cons.prems have s: "kpoint_block fl ispin nband ik st = Inl StopIteration"
      by simp
    note k = kpoint_block_Stop [OF s]
    show ?thesis
    proof (intro allI impI)
      fix k ib assume kk: "k < length (ik # iks)" and ib: "ib < nband"
        and lt: "k * (2 + nband) + 2 + ib < length (e_lines st)"
      from lt k have "k = 0"
        by (cases k) auto
      with k lt show "length (split_ws (e_lines st ! (k * (2 + nband) + 2 + ib))) = 2 * ispin + 1"
        by simp
    qed
  next
    case (Inr st1)
    with Cons.prems have r: "forE iks (kpoint_block fl ispin nband) st1 = Inl StopIteration"
      by simp
    note k = kpoint_block_Inr [OF Inr]
    note ih = Cons.IH [OF r]
    from k have d: "e_lines st1 = drop (2 + nband) (e_lines st)" and
      le: "2 + nband \<le> length (e_lines st)" by simp_all
    show ?thesis
    proof (intro allI impI)
      fix k ib assume kk: "k < length (ik # iks)" and ib: "ib < nband"
        and lt: "k * (2 + nband) + 2 + ib < length (e_lines st)"
      show "length (split_ws (e_lines st ! (k * (2 + nband) + 2 + ib))) = 2 * ispin + 1"
      proof (cases k)
        case 0
        with k ib show ?thesis by simp
      next
        case (Suc k')
        with kk have k': "k' < length iks" by simp
        from lt have lt': "k' * (2 + nband) + 2 + ib < length (e_lines st1)"
          unfolding d Suc by simp
        with ih k' ib have
          g: "length (split_ws (e_lines st1 ! (k' * (2 + nband) + 2 + ib))) = 2 * ispin + 1"
          by blast
        have "e_lines st1 ! (k' * (2 + nband) + 2 + ib) =
              e_lines st ! ((2 + nband) + (k' * (2 + nband) + 2 + ib))"
          unfolding d using le by (rule nth_drop)
        with g show ?thesis unfolding Suc block_index by simp
      qed
    qed
  qed
qed


lemma eigenval_preamble_Inr:
  assumes "eigenval_preamble ls = Inr (nq, ispin, nelect, nktot, nband, ls6)"
  shows "6 \<le> length ls" and "ls6 = drop 6 ls"
proof -
  from assms obtain l1 ls1 where n1: "next_line ls = Inr (l1, ls1)"
    unfolding eigenval_preamble_def by (auto simp: bindE_Inr_iff)
  from assms n1 obtain l2 ls2 l3 ls3 l4 ls4 l5 ls5 l6 where
    n: "next_line ls1 = Inr (l2, ls2)" "next_line ls2 = Inr (l3, ls3)"
       "next_line ls3 = Inr (l4, ls4)" "next_line ls4 = Inr (l5, ls5)"
       "next_line ls5 = Inr (l6, ls6)"
    unfolding eigenval_preamble_def
    by (auto simp: bindE_Inr_iff split: option.splits)
  from next_line_Inr [OF n1] n [THEN next_line_Inr]
  have ls: "ls = l1 # l2 # l3 # l4 # l5 # l6 # ls6" by simp
  show "6 \<le> length ls" unfolding ls by simp
  show "ls6 = drop 6 ls" unfolding ls by simp
qed

lemma eigenval_preamble_error:
  "eigenval_preamble ls = Inl x \<Longrightarrow> x \<noteq> IOError"
  unfolding eigenval_preamble_def
  by (auto simp: bindE_Inl_iff split: option.splits dest: next_line_error index_error)

lemma eigenval_from_file_unfold:
  assumes "eigenval_preamble ls = Inr (nq, ispin, nelect, nktot, nband, ls6)"
  shows "eigenval_from_file fl (Some ls) =
           (if \<not> (zeros_ok [nktot, 3] \<and> zeros_ok [nktot, nband, ispin]) then Inl ValueError
            else
              bindE (forE [0..<nat nktot] (kpoint_block fl (nat ispin) (nat nband))
                       \<lparr>e_lines = ls6,
                        e_kpts = replicate (nat nktot) [0, 0, 0],
                        e_kwghts = replicate (nat nktot) 0,
                        e_eigs = zeros3 (nat nktot) (nat nband) (nat ispin),
                        e_ferw = zeros3 (nat nktot) (nat nband) (nat ispin)\<rparr>)
                (\<lambda>st. Inr \<lparr>ev_nq = nq, ev_ispin = nat ispin, ev_nelect = nelect,
                            ev_nktot = nat nktot, ev_nband = nat nband,
                            ev_kpts = e_kpts st, ev_kwghts = e_kwghts st,
                            ev_eigs = e_eigs st, ev_ferw = e_ferw st\<rparr>))"
  unfolding eigenval_from_file_def using assms by simp

lemma eigenval_band_lines:
  assumes p: "eigenval_preamble ls = Inr (nq, ispin, nelect, nktot, nband, ls6)"
    and r: "(\<exists>r. eigenval_from_file fl (Some ls) = Inr r) \<or>
            eigenval_from_file fl (Some ls) = Inl StopIteration"
    and ik: "ik < nat nktot" and ib: "ib < nat nband"
    and lt: "6 + (ik * (2 + nat nband) + 2 + ib) < length ls"
  shows "length (split_ws (ls ! (6 + (ik * (2 + nat nband) + 2 + ib)))) = 2 * nat ispin + 1"
proof -
  let ?st = "\<lparr>e_lines = ls6,
              e_kpts = replicate (nat nktot) [0, 0, 0],
              e_kwghts = replicate (nat nktot) 0,
              e_eigs = zeros3 (nat nktot) (nat nband) (nat ispin),
              e_ferw = zeros3 (nat nktot) (nat nband) (nat ispin)\<rparr>"
  let ?loop = "forE [0..<nat nktot] (kpoint_block fl (nat ispin) (nat nband)) ?st"
  note u = eigenval_from_file_unfold [OF p, of fl]
  note pre = eigenval_preamble_Inr [OF p]
  have lt6: "ik * (2 + nat nband) + 2 + ib < length ls6"
    unfolding pre(2) using lt by simp
  have nth: "ls6 ! (ik * (2 + nat nband) + 2 + ib) = ls ! (6 + (ik * (2 + nat nband) + 2 + ib))"
    unfolding pre(2) using pre(1) by (rule nth_drop)
  have "(\<exists>st'. ?loop = Inr st') \<or> ?loop = Inl StopIteration"
    using r unfolding u by (auto simp: bindE_Inr_iff bindE_Inl_iff split: if_splits)
  then have "length (split_ws (ls6 ! (ik * (2 + nat nband) + 2 + ib))) = 2 * nat ispin + 1"
  proof
    assume "\<exists>st'. ?loop = Inr st'"
    then obtain st' where "?loop = Inr st'" ..
    from forE_blocks_Inr [OF this] ik ib show ?thesis by simp
  next
    assume "?loop = Inl StopIteration"
    from forE_blocks_Stop [OF this] ik ib lt6 show ?thesis by simp
  qed
  with nth show ?thesis by simp
qed

lemma kpoint_blocks_error:
  "forE iks (kpoint_block fl ispin nband) st = Inl x \<Longrightarrow> x \<noteq> IOError"
  by (rule forE_error [of "kpoint_block fl ispin nband"]) (rule kpoint_block_error)

lemma eigenval_from_file_error:
  "eigenval_from_file fl (Some ls) = Inl x \<Longrightarrow> x \<noteq> IOError"
  unfolding eigenval_from_file_def
  by (auto simp: bindE_Inl_iff split: if_splits
      dest: eigenval_preamble_error kpoint_blocks_error)

lemma eigenval_from_file_Inr:
  assumes "eigenval_from_file fl (Some ls) = Inr r"
  shows "\<exists>nq ispin nelect nktot nband ls6.
           eigenval_preamble ls = Inr (nq, ispin, nelect, nktot, nband, ls6) \<and>
           ev_ispin r = nat ispin \<and> ev_nktot r = nat nktot \<and> ev_nband r = nat nband"
  using assms unfolding eigenval_from_file_def
  by (auto simp: bindE_Inr_iff split: if_splits)

text \<open>
  Claim C8. A band line is accepted only with exactly \<open>2 * ispin + 1\<close> tokens; with
  another number of tokens it raises ValueError (a token that is not a float) or the
  AssertionError of the reader, so with two spin channels a line of fewer than five tokens
  raises. When the reader returns, every band line of the file (the line
  \<open>6 + ik * (2 + nband) + 2 + ib\<close>) has that number of tokens; and a band line of the
  file with another number of tokens makes the reader raise an exception that is neither
  StopIteration nor IOError, the two that \<^verbatim>\<open>VaspData\<close> catches around this reader.
\<close>

theorem band_line_token_count:
  "(\<forall>x. band_line fl ispin line = Inr x \<longrightarrow> length (split_ws line) = 2 * ispin + 1) \<and>
   (length (split_ws line) \<noteq> 2 * ispin + 1 \<longrightarrow>
      band_line fl ispin line = Inl ValueError \<or>
      band_line fl ispin line =
        Inl (AssertionError ''EIGENVAL file is incorrect (probably from old versions of VASP)'')) \<and>
   (length (split_ws line) < 5 \<longrightarrow>
      (\<exists>e. band_line fl 2 line = Inl e \<and> e \<noteq> StopIteration \<and> e \<noteq> IOError)) \<and>
   (\<forall>r. eigenval_from_file fl (Some ls) = Inr r \<longrightarrow>
      (\<forall>ik<ev_nktot r. \<forall>ib<ev_nband r.
         length (split_ws (ls ! (6 + (ik * (2 + ev_nband r) + 2 + ib)))) = 2 * ev_ispin r + 1)) \<and>
   (\<forall>nq isp nelect nktot nband ls6 ik ib.
      eigenval_preamble ls = Inr (nq, isp, nelect, nktot, nband, ls6) \<and>
      ik < nat nktot \<and> ib < nat nband \<and>
      6 + (ik * (2 + nat nband) + 2 + ib) < length ls \<and>
      length (split_ws (ls ! (6 + (ik * (2 + nat nband) + 2 + ib)))) \<noteq> 2 * nat isp + 1 \<longrightarrow>
      (\<exists>e. eigenval_from_file fl (Some ls) = Inl e \<and> e \<noteq> StopIteration \<and> e \<noteq> IOError))"
proof (intro conjI allI impI)
  fix x assume "band_line fl ispin line = Inr x"
  then show "length (split_ws line) = 2 * ispin + 1" by (rule band_line_Inr)
next
  assume "length (split_ws line) \<noteq> 2 * ispin + 1"
  then show "band_line fl ispin line = Inl ValueError \<or>
      band_line fl ispin line =
        Inl (AssertionError ''EIGENVAL file is incorrect (probably from old versions of VASP)'')"
    by (rule band_line_wrong_count)
next
  assume "length (split_ws line) < 5"
  then have "length (split_ws line) \<noteq> 2 * 2 + 1" by simp
  from band_line_wrong_count [OF this, of fl]
  show "\<exists>e. band_line fl 2 line = Inl e \<and> e \<noteq> StopIteration \<and> e \<noteq> IOError"
    by auto
next
  fix r ik ib
  assume r: "eigenval_from_file fl (Some ls) = Inr r"
    and ik: "ik < ev_nktot r" and ib: "ib < ev_nband r"
  from eigenval_from_file_Inr [OF r] obtain nq isp nelect nktot nband ls6 where
    p: "eigenval_preamble ls = Inr (nq, isp, nelect, nktot, nband, ls6)" and
    e: "ev_ispin r = nat isp" "ev_nktot r = nat nktot" "ev_nband r = nat nband"
    by blast
  let ?st = "\<lparr>e_lines = ls6,
              e_kpts = replicate (nat nktot) [0, 0, 0],
              e_kwghts = replicate (nat nktot) 0,
              e_eigs = zeros3 (nat nktot) (nat nband) (nat isp),
              e_ferw = zeros3 (nat nktot) (nat nband) (nat isp)\<rparr>"
  from r obtain st' where
    l: "forE [0..<nat nktot] (kpoint_block fl (nat isp) (nat nband)) ?st = Inr st'"
    unfolding eigenval_from_file_unfold [OF p]
    by (auto simp: bindE_Inr_iff split: if_splits)
  from forE_blocks_Inr [OF l] have "nat nktot * (2 + nat nband) \<le> length ls6"
    by simp
  moreover have "ik * (2 + nat nband) + (2 + nat nband) \<le> nat nktot * (2 + nat nband)"
  proof -
    from ik e have "Suc ik \<le> nat nktot" by simp
    then have "Suc ik * (2 + nat nband) \<le> nat nktot * (2 + nat nband)"
      by (rule mult_le_mono1)
    then show ?thesis by simp
  qed
  ultimately have "ik * (2 + nat nband) + 2 + ib < length ls6"
    using ib e by linarith
  then have lt: "6 + (ik * (2 + nat nband) + 2 + ib) < length ls"
    unfolding eigenval_preamble_Inr(2) [OF p] by simp
  from eigenval_band_lines [OF p _ _ _ lt, of fl] r ik ib e
  show "length (split_ws (ls ! (6 + (ik * (2 + ev_nband r) + 2 + ib)))) = 2 * ev_ispin r + 1"
    by auto
next
  fix nq isp nelect nktot nband ls6 ik ib
  assume a: "eigenval_preamble ls = Inr (nq, isp, nelect, nktot, nband, ls6) \<and>
      ik < nat nktot \<and> ib < nat nband \<and>
      6 + (ik * (2 + nat nband) + 2 + ib) < length ls \<and>
      length (split_ws (ls ! (6 + (ik * (2 + nat nband) + 2 + ib)))) \<noteq> 2 * nat isp + 1"
  then have p: "eigenval_preamble ls = Inr (nq, isp, nelect, nktot, nband, ls6)"
    and ik: "ik < nat nktot" and ib: "ib < nat nband"
    and lt: "6 + (ik * (2 + nat nband) + 2 + ib) < length ls"
    and bad: "length (split_ws (ls ! (6 + (ik * (2 + nat nband) + 2 + ib)))) \<noteq> 2 * nat isp + 1"
    by simp_all
  show "\<exists>e. eigenval_from_file fl (Some ls) = Inl e \<and> e \<noteq> StopIteration \<and> e \<noteq> IOError"
  proof (cases "eigenval_from_file fl (Some ls)")
    case (Inr r)
    with eigenval_band_lines [OF p _ ik ib lt, of fl] bad show ?thesis by blast
  next
    case (Inl e)
    have "e \<noteq> StopIteration"
    proof
      assume "e = StopIteration"
      with Inl eigenval_band_lines [OF p _ ik ib lt, of fl] bad show False by blast
    qed
    with Inl eigenval_from_file_error [OF Inl] show ?thesis by simp
  qed
qed


theorem band_line_token_count_witness:
  "eigenval_preamble short_eigenval = Inr (2, 2, 8, 1, 2, drop 6 short_eigenval) \<and>
   length short_eigenval = 10 \<and>
   length (split_ws (short_eigenval ! 9)) = 3 \<and>
   (\<exists>e. eigenval_from_file dec_float (Some short_eigenval) = Inl e \<and>
        e \<noteq> StopIteration \<and> e \<noteq> IOError)"
proof -
  have h1: "eigenval_preamble short_eigenval = Inr (2, 2, 8, 1, 2, drop 6 short_eigenval)"
    by code_simp
  have h2: "length short_eigenval = 10"
    by code_simp
  have h3: "length (split_ws (short_eigenval ! 9)) = 3"
    by code_simp
  have i: "6 + (0 * (2 + nat 2) + 2 + 1) = (9::nat)"
    by simp
  have "\<exists>e. eigenval_from_file dec_float (Some short_eigenval) = Inl e \<and>
        e \<noteq> StopIteration \<and> e \<noteq> IOError"
    using band_line_token_count [of dec_float 0 "[]" short_eigenval,
        THEN conjunct2, THEN conjunct2, THEN conjunct2, THEN conjunct2, rule_format,
        of 2 2 8 1 2 "drop 6 short_eigenval" 0 1]
      h1 h2 h3
    unfolding i by simp
  with h1 h2 h3 show ?thesis by simp
qed

subsection \<open>The lattice and the species of POSCAR\<close>

lemma cube_root_8: "(8::real) powr (1 / 3) = 2"
proof -
  have "(8::real) = 2 powr 3" by simp
  then have "(8::real) powr (1 / 3) = (2 powr 3) powr (1 / 3)" by simp
  also have "\<dots> = 2 powr (3 * (1 / 3))" by (rule powr_powr)
  also have "\<dots> = 2" by simp
  finally show ?thesis .
qed

lemma resolve_scale_volume:
  assumes "s < 0" and "0 < det3 raw"
  shows "resolve_scale s raw = Inr ((\<bar>s\<bar> / det3 raw) powr (1 / 3))"
  using assms unfolding resolve_scale_def Let_def by simp

lemma resolve_scale_8:
  assumes "det3 raw = 1"
  shows "resolve_scale (- 8) raw = Inr 2"
  using assms cube_root_8 unfolding resolve_scale_def Let_def by simp

lemma readline_remove_comments_Cons:
  "readline_remove_comments (l # ls) = Inr (remove_comments l, ls)"
  unfolding readline_remove_comments_def next_line_def by simp

lemma readline_remove_comments_Inr:
  "readline_remove_comments ls = Inr (s, rest) \<Longrightarrow> \<exists>l. ls = l # rest \<and> s = remove_comments l"
  unfolding readline_remove_comments_def next_line_def
  by (auto simp: bindE_Inr_iff split: list.splits)

lemma upt3: "[0..<3] = [0, 1, 2]"
  by (simp add: upt_rec numeral_3_eq_3)

lemma row_of_length: "row_of n xs = Inr row \<Longrightarrow> length row = n"
  unfolding row_of_def by (auto split: if_splits)

lemma poscar_raw_Inr:
  assumes "poscar_raw fl ls = Inr (s, raw, rest)"
  shows "\<exists>c l a0 a1 a2 r0 r1 r2.
           ls = c # l # a0 # a1 # a2 # rest \<and>
           fl (remove_comments l) = Some s \<and>
           bindE (map_float fl (split_ws (remove_comments a0))) (row_of 3) = Inr r0 \<and>
           bindE (map_float fl (split_ws (remove_comments a1))) (row_of 3) = Inr r1 \<and>
           bindE (map_float fl (split_ws (remove_comments a2))) (row_of 3) = Inr r2 \<and>
           raw = [r0, r1, r2]"
proof -
  from assms obtain c ls1 sl ls2 where
    n: "next_line ls = Inr (c, ls1)" and
    r: "readline_remove_comments ls1 = Inr (sl, ls2)" and
    f: "py_float fl sl = Inr s" and
    l: "lattice_rows fl [0, 1, 2] ls2 (replicate 3 [0, 0, 0]) = Inr (raw, rest)"
    unfolding poscar_raw_def upt3 by (auto simp: bindE_Inr_iff)
  from l obtain s0 ls3 x0 r0 where
    a0: "readline_remove_comments ls2 = Inr (s0, ls3)"
      "map_float fl (split_ws s0) = Inr x0" "row_of 3 x0 = Inr r0" and
    l1: "lattice_rows fl [1, 2] ls3 ((replicate 3 [0, 0, 0])[0 := r0]) = Inr (raw, rest)"
    by (auto simp: bindE_Inr_iff)
  from l1 obtain s1 ls4 x1 r1 where
    a1: "readline_remove_comments ls3 = Inr (s1, ls4)"
      "map_float fl (split_ws s1) = Inr x1" "row_of 3 x1 = Inr r1" and
    l2: "lattice_rows fl [2] ls4 ((replicate 3 [0, 0, 0])[0 := r0, 1 := r1]) = Inr (raw, rest)"
    by (auto simp: bindE_Inr_iff)
  from l2 obtain s2 x2 r2 where
    a2: "readline_remove_comments ls4 = Inr (s2, rest)"
      "map_float fl (split_ws s2) = Inr x2" "row_of 3 x2 = Inr r2" and
    raw: "raw = (replicate 3 [0, 0, 0])[0 := r0, 1 := r1, 2 := r2]"
    by (auto simp: bindE_Inr_iff)
  from raw have raw': "raw = [r0, r1, r2]"
    by (simp add: numeral_3_eq_3)
  from readline_remove_comments_Inr [OF r] obtain l where l: "ls1 = l # ls2" "sl = remove_comments l"
    by blast
  from readline_remove_comments_Inr [OF a0(1)] obtain b0 where b0: "ls2 = b0 # ls3" "s0 = remove_comments b0"
    by blast
  from readline_remove_comments_Inr [OF a1(1)] obtain b1 where b1: "ls3 = b1 # ls4" "s1 = remove_comments b1"
    by blast
  from readline_remove_comments_Inr [OF a2(1)] obtain b2 where b2: "ls4 = b2 # rest" "s2 = remove_comments b2"
    by blast
  from next_line_Inr [OF n] l b0 b1 b2 have ls: "ls = c # l # b0 # b1 # b2 # rest" by simp
  from f l have fs: "fl (remove_comments l) = Some s"
    unfolding py_float_def by (auto split: option.splits)
  from a0 b0 have e0: "bindE (map_float fl (split_ws (remove_comments b0))) (row_of 3) = Inr r0"
    by simp
  from a1 b1 have e1: "bindE (map_float fl (split_ws (remove_comments b1))) (row_of 3) = Inr r1"
    by simp
  from a2 b2 have e2: "bindE (map_float fl (split_ws (remove_comments b2))) (row_of 3) = Inr r2"
    by simp
  from ls fs e0 e1 e2 raw' show ?thesis by blast
qed

lemma poscar_lattice_volume:
  assumes "poscar_raw fl ls = Inr (s, raw, rest)" and "s < 0" and "0 < det3 raw"
  shows "poscar_lattice fl ls =
           Inr (map (map (\<lambda>x. x * (\<bar>s\<bar> / det3 raw) powr (1 / 3))) raw, rest)"
  unfolding poscar_lattice_def using assms(1) resolve_scale_volume [OF assms(2,3)] by simp

lemma poscar_from_file_Inr:
  assumes "poscar_from_file fl (Some ls) = Inr r"
  shows "\<exists>a ls5. poscar_lattice fl ls = Inr (a, ls5) \<and> poscar_body fl a ls5 = Inr r"
  using assms unfolding poscar_from_file_def by (auto simp: bindE_Inr_iff)

lemma poscar_body_Inr:
  assumes "poscar_body fl a ls5 = Inr r"
  shows "ps_a_brav r = a \<and>
         (\<exists>ls6. poscar_species ls5 = Inr (ps_el_names r, ps_nions r, ls6)) \<and>
         ps_ntypes r = length (ps_nions r) \<and> ps_nq r = sum_list (ps_nions r)"
proof -
  from assms obtain el_names nions ls6 kpt_basis q_types type_of_ion where
    s: "poscar_species ls5 = Inr (el_names, nions, ls6)" and
    r: "r = \<lparr>ps_a_brav = a, ps_el_names = el_names, ps_nions = nions,
               ps_ntypes = length nions, ps_nq = sum_list nions,
               ps_kpt_basis = kpt_basis, ps_q_types = q_types,
               ps_type_of_ion = type_of_ion\<rparr>"
    unfolding poscar_body_def by (auto simp: bindE_Inr_iff)
  then show ?thesis by simp
qed


lemma poscar_lattice_raw:
  assumes "poscar_lattice fl ls = Inr (a, ls5)"
  shows "\<exists>s raw. poscar_raw fl ls = Inr (s, raw, ls5)"
  using assms unfolding poscar_lattice_def by (auto simp: bindE_Inr_iff)

text \<open>
  Claim C7. A negative scale \<open>s\<close> is resolved, when the determinant of the lattice is
  positive, to \<open>(|s| / det)\<close> to the power 1/3; for \<open>s = -8\<close> and determinant 1 this
  is 2. In the reader the three lattice vectors are first read as they are written
  (\<open>raw\<close>), and the lattice of the result is \<open>raw\<close> multiplied by the resolved scale.
  (Floats are reals here.)
\<close>

theorem negative_scale_is_volume:
  "(\<forall>s raw. s < 0 \<and> 0 < det3 raw \<longrightarrow>
      resolve_scale s raw = Inr ((\<bar>s\<bar> / det3 raw) powr (1 / 3))) \<and>
   (\<forall>raw. det3 raw = 1 \<longrightarrow> resolve_scale (- 8) raw = Inr 2) \<and>
   (\<forall>s raw rest.
      poscar_raw fl ls = Inr (s, raw, rest) \<and> s < 0 \<and> 0 < det3 raw \<longrightarrow>
      length raw = 3 \<and>
      (\<forall>ia<3. bindE (map_float fl (split_ws (remove_comments (ls ! (2 + ia))))) (row_of 3) =
                 Inr (raw ! ia)) \<and>
      poscar_lattice fl ls =
        Inr (map (map (\<lambda>x. x * (\<bar>s\<bar> / det3 raw) powr (1 / 3))) raw, rest) \<and>
      (\<forall>r. poscar_from_file fl (Some ls) = Inr r \<longrightarrow>
           ps_a_brav r = map (map (\<lambda>x. x * (\<bar>s\<bar> / det3 raw) powr (1 / 3))) raw))"
proof (intro conjI allI impI)
  fix s :: real and raw assume "s < 0 \<and> 0 < det3 raw"
  then show "resolve_scale s raw = Inr ((\<bar>s\<bar> / det3 raw) powr (1 / 3))"
    by (simp add: resolve_scale_volume)
next
  fix raw assume "det3 raw = 1"
  then show "resolve_scale (- 8) raw = Inr 2" by (rule resolve_scale_8)
next
  fix s raw rest
  assume a: "poscar_raw fl ls = Inr (s, raw, rest) \<and> s < 0 \<and> 0 < det3 raw"
  then have p: "poscar_raw fl ls = Inr (s, raw, rest)" and s: "s < 0" and d: "0 < det3 raw"
    by simp_all
  from poscar_raw_Inr [OF p] obtain c l a0 a1 a2 r0 r1 r2 where
    ls: "ls = c # l # a0 # a1 # a2 # rest" and
    e: "bindE (map_float fl (split_ws (remove_comments a0))) (row_of 3) = Inr r0"
       "bindE (map_float fl (split_ws (remove_comments a1))) (row_of 3) = Inr r1"
       "bindE (map_float fl (split_ws (remove_comments a2))) (row_of 3) = Inr r2" and
    raw: "raw = [r0, r1, r2]"
    by blast
  show "length raw = 3" unfolding raw by simp
  note lat = poscar_lattice_volume [OF p s d]
  show "poscar_lattice fl ls =
        Inr (map (map (\<lambda>x. x * (\<bar>s\<bar> / det3 raw) powr (1 / 3))) raw, rest)"
    by (rule lat)
  {
    fix ia :: nat assume "ia < 3"
    then consider "ia = 0" | "ia = 1" | "ia = 2" by linarith
    then show "bindE (map_float fl (split_ws (remove_comments (ls ! (2 + ia))))) (row_of 3) =
                 Inr (raw ! ia)"
      using e unfolding ls raw by cases simp_all
  }
  {
    fix r assume "poscar_from_file fl (Some ls) = Inr r"
    from poscar_from_file_Inr [OF this] obtain a ls5 where
      "poscar_lattice fl ls = Inr (a, ls5)" "poscar_body fl a ls5 = Inr r" by blast
    with lat poscar_body_Inr [of fl a ls5 r]
    show "ps_a_brav r = map (map (\<lambda>x. x * (\<bar>s\<bar> / det3 raw) powr (1 / 3))) raw"
      by simp
  }
qed

theorem negative_scale_is_volume_witness:
  "poscar_raw dec_float volume_poscar =
     Inr (- 8, [[1, 0, 0], [0, 1, 0], [0, 0, 1]], drop 5 volume_poscar) \<and>
   det3 [[1, 0, 0], [0, 1, 0], [0, 0, 1]] = 1 \<and>
   poscar_lattice dec_float volume_poscar =
     Inr ([[2, 0, 0], [0, 2, 0], [0, 0, 2]], drop 5 volume_poscar)"
proof -
  have h: "poscar_raw dec_float volume_poscar =
     Inr (- 8, [[1, 0, 0], [0, 1, 0], [0, 0, 1]], drop 5 volume_poscar)"
    by code_simp
  have d: "det3 [[1, 0, 0], [0, 1, 0], [0, 0, 1]] = 1"
    unfolding det3_def by simp
  have "poscar_lattice dec_float volume_poscar =
     Inr ([[2, 0, 0], [0, 2, 0], [0, 0, 2]], drop 5 volume_poscar)"
    using negative_scale_is_volume [of dec_float volume_poscar,
        THEN conjunct2, THEN conjunct2, rule_format,
        of "- 8" "[[1, 0, 0], [0, 1, 0], [0, 0, 1]]" "drop 5 volume_poscar"]
      h d cube_root_8
    by simp
  with h d show ?thesis by simp
qed


lemma poscar_species_counts:
  assumes "map_int (split_ws (remove_comments l)) = Inr nions"
  shows "poscar_species (l # rest) =
           Inr (map (\<lambda>i. ''El'' @ str_of_nat i) [0..<length nions], nions, rest)"
  unfolding poscar_species_def readline_remove_comments_Cons using assms by simp

lemma poscar_species_names:
  assumes "map_int (split_ws (remove_comments l)) = Inl e"
  shows "poscar_species (l # l2 # rest) =
           bindE (map_int (split_ws (remove_comments l2)))
             (\<lambda>nions. Inr (split_ws (remove_comments l), nions, rest))"
  unfolding poscar_species_def using assms
  by (simp add: readline_remove_comments_Cons)

lemma species_Fe_O:
  "poscar_species (''Fe O\<newline>'' # ''2 4\<newline>'' # rest) = Inr ([''Fe'', ''O''], [2, 4], rest)"
proof -
  have a: "map_int (split_ws (remove_comments ''Fe O\<newline>'')) = Inl ValueError"
    by code_simp
  have b: "map_int (split_ws (remove_comments ''2 4\<newline>'')) = Inr [2, 4]"
    by code_simp
  have c: "split_ws (remove_comments ''Fe O\<newline>'') = [''Fe'', ''O'']"
    by code_simp
  show ?thesis
    unfolding poscar_species_names [OF a] b c by simp
qed

lemma species_2_4:
  "poscar_species (''2 4\<newline>'' # rest) = Inr ([''El0'', ''El1''], [2, 4], rest)"
proof -
  have b: "map_int (split_ws (remove_comments ''2 4\<newline>'')) = Inr [2, 4]"
    by code_simp
  have c: "map (\<lambda>i. ''El'' @ str_of_nat i) [0..<length [2::int, 4]] = [''El0'', ''El1'']"
    by code_simp
  show ?thesis
    unfolding poscar_species_counts [OF b] c by simp
qed

lemma poscar_lattice_lines:
  assumes "poscar_lattice fl (c # s # a0 # a1 # a2 # rest) = Inr (a, ls5)"
  shows "ls5 = rest"
proof -
  from poscar_lattice_raw [OF assms] obtain sc raw where
    "poscar_raw fl (c # s # a0 # a1 # a2 # rest) = Inr (sc, raw, ls5)" by blast
  from poscar_raw_Inr [OF this] show ?thesis by auto
qed

text \<open>
  Claim C6. The line after the lattice is tried as ion counts: the line "Fe O" followed
  by "2 4" gives the species Fe and O with the counts 2 and 4, and the line "2 4" alone
  gives the species El0 and El1 with the same counts; a POSCAR with these lines that the
  reader accepts has these species and counts and 6 ions in total. In general a line of
  integers gives the names El0, El1, ..., and a line on which \<^verbatim>\<open>int\<close> fails gives
  its tokens as names and the next line as counts.
\<close>

theorem species_line_trial_parse:
  "poscar_species (''Fe O\<newline>'' # ''2 4\<newline>'' # rest) = Inr ([''Fe'', ''O''], [2, 4], rest) \<and>
   poscar_species (''2 4\<newline>'' # rest) = Inr ([''El0'', ''El1''], [2, 4], rest) \<and>
   (\<forall>r. poscar_from_file fl (Some (c # s # a0 # a1 # a2 # ''Fe O\<newline>'' # ''2 4\<newline>'' # rest)) = Inr r \<longrightarrow>
        ps_el_names r = [''Fe'', ''O''] \<and> ps_nions r = [2, 4] \<and> ps_nq r = 6) \<and>
   (\<forall>r. poscar_from_file fl (Some (c # s # a0 # a1 # a2 # ''2 4\<newline>'' # rest)) = Inr r \<longrightarrow>
        ps_el_names r = [''El0'', ''El1''] \<and> ps_nions r = [2, 4] \<and> ps_nq r = 6) \<and>
   (\<forall>l nions. map_int (split_ws (remove_comments l)) = Inr nions \<longrightarrow>
        poscar_species (l # rest) =
          Inr (map (\<lambda>i. ''El'' @ str_of_nat i) [0..<length nions], nions, rest)) \<and>
   (\<forall>l l2 e. map_int (split_ws (remove_comments l)) = Inl e \<longrightarrow>
        poscar_species (l # l2 # rest) =
          bindE (map_int (split_ws (remove_comments l2)))
            (\<lambda>nions. Inr (split_ws (remove_comments l), nions, rest)))"
proof (intro conjI allI impI)
  show "poscar_species (''Fe O\<newline>'' # ''2 4\<newline>'' # rest) = Inr ([''Fe'', ''O''], [2, 4], rest)"
    by (rule species_Fe_O)
  show "poscar_species (''2 4\<newline>'' # rest) = Inr ([''El0'', ''El1''], [2, 4], rest)"
    by (rule species_2_4)
  {
    fix r
    assume "poscar_from_file fl (Some (c # s # a0 # a1 # a2 # ''Fe O\<newline>'' # ''2 4\<newline>'' # rest)) = Inr r"
    from poscar_from_file_Inr [OF this] obtain a ls5 where
      l: "poscar_lattice fl (c # s # a0 # a1 # a2 # ''Fe O\<newline>'' # ''2 4\<newline>'' # rest) = Inr (a, ls5)" and
      b: "poscar_body fl a ls5 = Inr r" by blast
    from poscar_lattice_lines [OF l] have ls5: "ls5 = ''Fe O\<newline>'' # ''2 4\<newline>'' # rest" .
    from poscar_body_Inr [OF b] obtain ls6 where
      sp: "poscar_species ls5 = Inr (ps_el_names r, ps_nions r, ls6)" and
      nq: "ps_nq r = sum_list (ps_nions r)" by blast
    from sp have e: "ps_el_names r = [''Fe'', ''O'']" "ps_nions r = [2, 4]"
      unfolding ls5 species_Fe_O by simp_all
    with nq show "ps_el_names r = [''Fe'', ''O'']" "ps_nions r = [2, 4]" "ps_nq r = 6"
      by simp_all
  }
  {
    fix r
    assume "poscar_from_file fl (Some (c # s # a0 # a1 # a2 # ''2 4\<newline>'' # rest)) = Inr r"
    from poscar_from_file_Inr [OF this] obtain a ls5 where
      l: "poscar_lattice fl (c # s # a0 # a1 # a2 # ''2 4\<newline>'' # rest) = Inr (a, ls5)" and
      b: "poscar_body fl a ls5 = Inr r" by blast
    from poscar_lattice_lines [OF l] have ls5: "ls5 = ''2 4\<newline>'' # rest" .
    from poscar_body_Inr [OF b] obtain ls6 where
      sp: "poscar_species ls5 = Inr (ps_el_names r, ps_nions r, ls6)" and
      nq: "ps_nq r = sum_list (ps_nions r)" by blast
    from sp have e: "ps_el_names r = [''El0'', ''El1'']" "ps_nions r = [2, 4]"
      unfolding ls5 species_2_4 by simp_all
    with nq show "ps_el_names r = [''El0'', ''El1'']" "ps_nions r = [2, 4]" "ps_nq r = 6"
      by simp_all
  }
  {
    fix l nions assume "map_int (split_ws (remove_comments l)) = Inr nions"
    then show "poscar_species (l # rest) =
          Inr (map (\<lambda>i. ''El'' @ str_of_nat i) [0..<length nions], nions, rest)"
      by (rule poscar_species_counts)
  }
  {
    fix l l2 e assume "map_int (split_ws (remove_comments l)) = Inl e"
    then show "poscar_species (l # l2 # rest) =
          bindE (map_int (split_ws (remove_comments l2)))
            (\<lambda>nions. Inr (split_ws (remove_comments l), nions, rest))"
      by (rule poscar_species_names)
  }
qed

theorem species_line_trial_parse_witness:
  "poscar_from_file dec_float (Some named_poscar) =
     Inr \<lparr>ps_a_brav = [[1, 0, 0], [0, 1, 0], [0, 0, 1]],
          ps_el_names = [''Fe'', ''O''], ps_nions = [2, 4], ps_ntypes = 2, ps_nq = 6,
          ps_kpt_basis = [[1, 0, 0], [0, 1, 0], [0, 0, 1]],
          ps_q_types =
            [[[0, 0, 0], [1 / 2, 1 / 2, 1 / 2]],
             [[1 / 2, 0, 0], [0, 1 / 2, 0], [0, 0, 1 / 2], [1 / 2, 1 / 2, 0]]],
          ps_type_of_ion = [0, 0, 1, 1, 1, 1]\<rparr> \<and>
   (\<exists>r. poscar_from_file dec_float (Some unnamed_poscar) = Inr r \<and>
        ps_el_names r = [''El0'', ''El1''] \<and> ps_nions r = [2, 4] \<and> ps_nq r = 6)"
proof -
  have n: "named_poscar =
    ''iron oxide\<newline>'' # ''1.0\<newline>'' # ''1.0 0.0 0.0\<newline>'' # ''0.0 1.0 0.0\<newline>'' # ''0.0 0.0 1.0\<newline>'' #
    ''Fe O\<newline>'' # ''2 4\<newline>'' # ion_lines"
    unfolding named_poscar_def unit_cell_def by simp
  have u: "unnamed_poscar =
    ''iron oxide\<newline>'' # ''1.0\<newline>'' # ''1.0 0.0 0.0\<newline>'' # ''0.0 1.0 0.0\<newline>'' # ''0.0 0.0 1.0\<newline>'' #
    ''2 4\<newline>'' # ion_lines"
    unfolding unnamed_poscar_def unit_cell_def by simp
  have h1: "poscar_from_file dec_float (Some named_poscar) =
     Inr \<lparr>ps_a_brav = [[1, 0, 0], [0, 1, 0], [0, 0, 1]],
          ps_el_names = [''Fe'', ''O''], ps_nions = [2, 4], ps_ntypes = 2, ps_nq = 6,
          ps_kpt_basis = [[1, 0, 0], [0, 1, 0], [0, 0, 1]],
          ps_q_types =
            [[[0, 0, 0], [1 / 2, 1 / 2, 1 / 2]],
             [[1 / 2, 0, 0], [0, 1 / 2, 0], [0, 0, 1 / 2], [1 / 2, 1 / 2, 0]]],
          ps_type_of_ion = [0, 0, 1, 1, 1, 1]\<rparr>"
    by code_simp
  have h2: "poscar_from_file dec_float (Some unnamed_poscar) =
     Inr \<lparr>ps_a_brav = [[1, 0, 0], [0, 1, 0], [0, 0, 1]],
          ps_el_names = [''El0'', ''El1''], ps_nions = [2, 4], ps_ntypes = 2, ps_nq = 6,
          ps_kpt_basis = [[1, 0, 0], [0, 1, 0], [0, 0, 1]],
          ps_q_types =
            [[[0, 0, 0], [1 / 2, 1 / 2, 1 / 2]],
             [[1 / 2, 0, 0], [0, 1 / 2, 0], [0, 0, 1 / 2], [1 / 2, 1 / 2, 0]]],
          ps_type_of_ion = [0, 0, 1, 1, 1, 1]\<rparr>"
    by code_simp
  note t = species_line_trial_parse [of ion_lines dec_float "''iron oxide\<newline>''" "''1.0\<newline>''"
      "''1.0 0.0 0.0\<newline>''" "''0.0 1.0 0.0\<newline>''" "''0.0 0.0 1.0\<newline>''"]
  from t [THEN conjunct2, THEN conjunct2, THEN conjunct2, THEN conjunct1, rule_format,
      OF h2 [unfolded u]] h2
  have "\<exists>r. poscar_from_file dec_float (Some unnamed_poscar) = Inr r \<and>
        ps_el_names r = [''El0'', ''El1''] \<and> ps_nions r = [2, 4] \<and> ps_nq r = 6"
    by simp
  with h1 show ?thesis by simp
qed

subsection \<open>The Fermi level when DOSCAR cannot be read\<close>

lemma locproj_dims_header:
  assumes "locproj_dims fl line0 = Inr (self, nk, nproj)"
  shows "\<exists>a b c d. header_ints line0 = Inr [a, b, c, d]"
proof (cases "header_ints line0")
  case (Inl e)
  with assms show ?thesis unfolding locproj_dims_def by simp
next
  case (Inr dims)
  have "\<exists>a b c d. dims = [a, b, c, d]"
  proof (rule ccontr)
    assume n: "\<not> (\<exists>a b c d. dims = [a, b, c, d])"
    have "locproj_dims fl line0 = Inl ValueError"
      unfolding locproj_dims_def Inr using n
      by (auto split: list.splits)
    with assms show False by simp
  qed
  with Inr show ?thesis by auto
qed

lemma locproj_dims_efermi:
  assumes "locproj_dims fl line0 = Inr (self, nk, nproj)"
  shows "pl_efermi self =
           (case index (split_ws (hd (split_on CHR ''#'' line0))) 4 of
              Inl e \<Rightarrow> None
            | Inr t \<Rightarrow> fl t)"
proof -
  from locproj_dims_header [OF assms] obtain a b c d where
    h: "header_ints line0 = Inr [a, b, c, d]" by blast
  from assms show ?thesis
    unfolding locproj_dims_def h Let_def
    by (auto split: if_splits)
qed

lemma locproj_parser_efermi:
  assumes "locproj_parser fl (Some ls) = Some (Inr pl)"
  shows "pl_efermi pl =
           (case index (split_ws (hd (split_on CHR ''#'' (fst (readline ls))))) 4 of
              Inl e \<Rightarrow> None
            | Inr t \<Rightarrow> fl t)"
proof -
  from locproj_parser_Inr [OF assms] obtain self nk nproj where
    "locproj_dims fl (fst (readline ls)) = Inr (self, nk, nproj)" "pl_efermi pl = pl_efermi self"
    by blast
  with locproj_dims_efermi [of fl "fst (readline ls)" self nk nproj] show ?thesis by simp
qed

lemma eigenval_caught:
  assumes "\<forall>e'. eigenval_from_file fl file = Inl e' \<longrightarrow> io_or_stop e'"
  shows "\<exists>ev. (case eigenval_from_file fl file of
                 Inl e \<Rightarrow> if io_or_stop e then Inr None else Inl e
               | Inr ev \<Rightarrow> Inr (Some ev)) = Inr ev"
  using assms by (cases "eigenval_from_file fl file") auto

text \<open>
  Claim C3. Let LOCPROJ, POSCAR and IBZKPT be read, let the read of EIGENVAL return or
  raise an exception that is caught, and let the read of DOSCAR raise IOError or
  StopIteration, with \<^verbatim>\<open>efermi_required\<close> set. The Fermi level of the LOCPROJ parser
  is the float of the fifth token of its first line, if there is one. When it is there,
  \<^verbatim>\<open>__init__\<close> returns and the Fermi level of the DOSCAR object is that value. When it
  is not there, \<^verbatim>\<open>__init__\<close> raises AttributeError, and not the exception
  "Efermi cannot be read from DOSCAR or LOCPROJ" that its handler for NameError would
  raise.
\<close>

theorem fermi_fallback:
  assumes "LOCPROJ dir = Some ls"
    and "locproj_parser fl (LOCPROJ dir) = Some (Inr pl)"
    and "poscar_from_file fl (POSCAR dir) = Inr po"
    and "kpoints_from_file fl dv (IBZKPT dir) = Inr kp"
    and "\<forall>e'. eigenval_from_file fl (EIGENVAL dir) = Inl e' \<longrightarrow> io_or_stop e'"
    and "doscar_from_file fl (DOSCAR dir) = Inl e"
    and "io_or_stop e"
  shows "pl_efermi pl =
           (case index (split_ws (hd (split_on CHR ''#'' (fst (readline ls))))) 4 of
              Inl e \<Rightarrow> None
            | Inr t \<Rightarrow> fl t) \<and>
         (\<forall>ef. pl_efermi pl = Some ef \<longrightarrow>
            (\<exists>vd. vasp_data_init fl dv dir True = Some (Inr vd) \<and>
                  ds_efermi (vd_doscar vd) = Some ef)) \<and>
         (pl_efermi pl = None \<longrightarrow>
            vasp_data_init fl dv dir True = Some (Inl AttributeError) \<and>
            vasp_data_init fl dv dir True \<noteq>
              Some (Inl (Exception ''Efermi cannot be read from DOSCAR or LOCPROJ'')))"
proof (intro conjI allI impI)
  from assms(1,2) show "pl_efermi pl =
           (case index (split_ws (hd (split_on CHR ''#'' (fst (readline ls))))) 4 of
              Inl e \<Rightarrow> None
            | Inr t \<Rightarrow> fl t)"
    by (simp add: locproj_parser_efermi)
  from eigenval_caught [OF assms(5)] obtain ev where
    ev: "(case eigenval_from_file fl (EIGENVAL dir) of
                 Inl e \<Rightarrow> if io_or_stop e then Inr None else Inl e
               | Inr ev \<Rightarrow> Inr (Some ev)) = Inr ev" ..
  have init: "vasp_data_init fl dv dir True =
     Some (bindE (doscar_fallback True pl) (\<lambda>ds.
              Inr \<lparr>vd_plocar = pl, vd_poscar = po, vd_kpoints = kp,
                   vd_eigenval = ev, vd_doscar = ds\<rparr>))"
    unfolding vasp_data_init_def using assms(2,3,4,6,7) ev by simp
  {
    fix ef assume "pl_efermi pl = Some ef"
    then have "doscar_fallback True pl = Inr \<lparr>ds_ncdij = None, ds_efermi = Some ef\<rparr>"
      unfolding doscar_fallback_def by simp
    with init show "\<exists>vd. vasp_data_init fl dv dir True = Some (Inr vd) \<and>
                  ds_efermi (vd_doscar vd) = Some ef"
      by simp
  }
  {
    assume "pl_efermi pl = None"
    then have "doscar_fallback True pl = Inl AttributeError"
      unfolding doscar_fallback_def by simp
    with init show "vasp_data_init fl dv dir True = Some (Inl AttributeError)"
      "vasp_data_init fl dv dir True \<noteq>
              Some (Inl (Exception ''Efermi cannot be read from DOSCAR or LOCPROJ''))"
      by simp_all
  }
qed

theorem fermi_fallback_witness:
  "vasp_data_init dec_float (/) bare_dir True = Some (Inl AttributeError) \<and>
   (\<exists>vd. vasp_data_init dec_float (/) fermi_dir True = Some (Inr vd) \<and>
         ds_efermi (vd_doscar vd) = Some (1 / 4))"
proof -
  have b1: "LOCPROJ bare_dir = Some bare_locproj"
    unfolding bare_dir_def by simp
  have b2: "locproj_parser dec_float (LOCPROJ bare_dir) =
     Some (Inr \<lparr>pl_ncdij = 1, pl_nband = 0, pl_nspin = 1, pl_nspin_band = 1,
                pl_efermi = None, pl_nc_flag = 0, pl_eigs = [], pl_ferw = [],
                pl_proj_params = [], pl_plo = []\<rparr>)"
    by code_simp
  have f1: "LOCPROJ fermi_dir = Some fermi_locproj"
    unfolding fermi_dir_def by simp
  have f2: "locproj_parser dec_float (LOCPROJ fermi_dir) =
     Some (Inr \<lparr>pl_ncdij = 1, pl_nband = 0, pl_nspin = 1, pl_nspin_band = 1,
                pl_efermi = Some (1 / 4), pl_nc_flag = 0, pl_eigs = [], pl_ferw = [],
                pl_proj_params = [], pl_plo = []\<rparr>)"
    by code_simp
  have po: "poscar_from_file dec_float (Some named_poscar) =
     Inr \<lparr>ps_a_brav = [[1, 0, 0], [0, 1, 0], [0, 0, 1]],
          ps_el_names = [''Fe'', ''O''], ps_nions = [2, 4], ps_ntypes = 2, ps_nq = 6,
          ps_kpt_basis = [[1, 0, 0], [0, 1, 0], [0, 0, 1]],
          ps_q_types =
            [[[0, 0, 0], [1 / 2, 1 / 2, 1 / 2]],
             [[1 / 2, 0, 0], [0, 1 / 2, 0], [0, 0, 1 / 2], [1 / 2, 1 / 2, 0]]],
          ps_type_of_ion = [0, 0, 1, 1, 1, 1]\<rparr>"
    by code_simp
  have kp: "kpoints_from_file dec_float (/) (Some example_ibzkpt) =
     Inr \<lparr>kp_nktot = 2, kp_kpts = [[0, 0, 0], [1 / 2, 0, 0]], kp_kwghts = [1 / 2, 3 / 2],
          kp_ntet = 1, kp_volt = Some (1 / 4), kp_itet = Some [[6, 1, 1, 2, 2]]\<rparr>"
    by code_simp
  have ev: "\<forall>e'. eigenval_from_file dec_float None = Inl e' \<longrightarrow> io_or_stop e'"
    unfolding eigenval_from_file_def io_or_stop_def by simp
  have ds: "doscar_from_file dec_float None = Inl IOError"
    unfolding doscar_from_file_def by simp
  have io: "io_or_stop IOError"
    unfolding io_or_stop_def by simp
  have sel: "POSCAR bare_dir = Some named_poscar" "IBZKPT bare_dir = Some example_ibzkpt"
    "EIGENVAL bare_dir = None" "DOSCAR bare_dir = None"
    "POSCAR fermi_dir = Some named_poscar" "IBZKPT fermi_dir = Some example_ibzkpt"
    "EIGENVAL fermi_dir = None" "DOSCAR fermi_dir = None"
    unfolding bare_dir_def fermi_dir_def by simp_all
  note pb = po [folded sel(1)] and kb = kp [folded sel(2)]
    and eb = ev [folded sel(3)] and db = ds [folded sel(4)]
  note pf = po [folded sel(5)] and kf = kp [folded sel(6)]
    and ef = ev [folded sel(7)] and df = ds [folded sel(8)]
  have a: "vasp_data_init dec_float (/) bare_dir True = Some (Inl AttributeError)"
    using fermi_fallback [OF b1 b2 pb kb eb db io] by simp
  have b: "\<exists>vd. vasp_data_init dec_float (/) fermi_dir True = Some (Inr vd) \<and>
         ds_efermi (vd_doscar vd) = Some (1 / 4)"
    by (rule fermi_fallback [OF f1 f2 pf kf ef df io, THEN conjunct2, THEN conjunct1,
          rule_format]) simp
  from a b show ?thesis ..
qed

end
